theory Spec2Isabelle
  imports Complex_Main "HOL-Library.Multiset"
begin

section \<open>Concept-whitening training script: the model of \<open>train_imagenet.py\<close>\<close>

subsection \<open>Whitening-layer mode and the observable trace\<close>

text \<open>
  The script drives the whitening layers through \<open>model.module.change_mode(1)\<close> and
  \<open>model.module.change_mode(0)\<close>. Modes are the integers the script passes.
\<close>

abbreviation (input) NORMAL :: nat where "NORMAL \<equiv> 0"
abbreviation (input) CALIBRATE :: nat where "CALIBRATE \<equiv> 1"

text \<open>One entry per whitening layer of the network: its layer number and its mode.\<close>

type_synonym modes = "(int \<times> nat) list"

text \<open>The call sites of \<open>model(...)\<close> in the script.\<close>

datatype site =
    TrainBatch      \<comment> \<open>\<open>train\<close>, line 354: the classification forward\<close>
  | ConceptBatch    \<comment> \<open>\<open>train\<close>, line 342: the concept forward of the sub-pass\<close>
  | ValBatch        \<comment> \<open>\<open>validate\<close>, line 399\<close>
  | RotateBatch     \<comment> \<open>\<open>rotate_cpt\<close>, line 317\<close>

text \<open>
  What an observer of the run sees. A forward pass is recorded with its call site, its
  input, the module's \<open>training\<close> flag, the modes of the whitening layers and whether
  gradient tracking is on, all as they are when \<open>model(...)\<close> is entered. \<open>Backward\<close>
  stands for \<open>optimizer.zero_grad(); loss.backward(); optimizer.step()\<close>.
\<close>

datatype 'x event =
    Forward site 'x bool modes bool
  | Backward modes
  | AdjustLR int real
  | CallTrain int
  | CallValidate int
  | SaveCheckpoint int
  | CallConceptTop5

subsection \<open>The network, as far as the script sees it\<close>

text \<open>
  \<open>'x\<close> is an input batch, \<open>'t\<close> a target batch, \<open>'p\<close> the parameters and buffers outside
  the whitening layers, \<open>'w\<close> the state of the whitening layers (running mean, whitening
  matrix, rotation, affine parameters) and \<open>'o\<close> the optimizer state.
\<close>

record ('x, 'p, 'w, 'o) state =
  training :: bool
  cw_modes :: modes
  weights :: 'p
  cw_state :: 'w
  optimizer :: 'o
  concept_iters :: nat
  trace :: "'x event list"

text \<open>
  The numerical operations live in \<open>MODELS.model_resnet\<close>, \<open>MODELS.iterative_normalization\<close>
  and torch; none of them is in the script. They are parameters of the model.
\<close>

datatype error =
    KeyError | NameError | ValueError | IndexError | AttributeError | RuntimeError | TypeError

text \<open>
  A parameter group of the optimizer: the final classifier, or \<open>bn1\<close> of the block at a
  position of the network (blocks counted from 0 in the order the forward pass runs them).
\<close>

datatype param_ref = FC | BN1 nat

record ('x, 't, 'p, 'w, 'o) net =
  bn_update :: "'x \<Rightarrow> 'p \<Rightarrow> 'p"
    \<comment> \<open>a forward pass in training mode: running statistics of the ordinary layers\<close>
  cw_update :: "'x \<Rightarrow> 'w \<Rightarrow> 'w"
    \<comment> \<open>a forward pass in training mode: running mean and whitening matrix\<close>
  rot_update :: "int \<Rightarrow> 'x \<Rightarrow> 'w \<Rightarrow> 'w"
    \<comment> \<open>a forward pass through whitening layer \<open>l\<close> in mode 1: its rotation matrix\<close>
  sgd_step :: "param_ref list \<Rightarrow> 'x \<Rightarrow> 't \<Rightarrow> 'p \<times> 'w \<times> 'o \<Rightarrow> 'p \<times> 'w \<times> 'o"
    \<comment> \<open>loss, \<open>zero_grad\<close>, \<open>backward\<close> and \<open>step\<close> over the optimizer's parameter list\<close>
  prec1 :: "('x \<times> 't) list \<Rightarrow> 'p \<Rightarrow> 'w \<Rightarrow> real"
    \<comment> \<open>\<open>top1.avg\<close> of a validation run over a non-empty loader\<close>
  set_lr :: "real \<Rightarrow> 'o \<Rightarrow> 'o"
    \<comment> \<open>\<open>param_group['lr'] = lr\<close> for every parameter group\<close>
  running_rot_row :: "'w \<Rightarrow> real list option"
    \<comment> \<open>\<open>layer2[0].bn1.running_rot[0,0,:]\<close>; \<open>None\<close> when that module has no rotation\<close>
  layers :: "int \<times> int \<times> int \<times> int"
    \<comment> \<open>\<open>model.layers\<close>: the number of blocks of \<open>layer1\<close> to \<open>layer4\<close>\<close>
  init_weights :: "'p"
  init_cw :: "int list \<Rightarrow> 'w"
  init_optimizer :: "param_ref list \<Rightarrow> real \<Rightarrow> 'o"
    \<comment> \<open>\<open>torch.optim.SGD(param_list, args.lr, ...)\<close>\<close>

text \<open>\<open>model.train()\<close> and \<open>model.eval()\<close> of \<open>torch.nn.Module\<close>.\<close>

definition set_train :: "('x, 'p, 'w, 'o) state \<Rightarrow> ('x, 'p, 'w, 'o) state" where
  "set_train s = s\<lparr>training := True\<rparr>"

definition set_eval :: "('x, 'p, 'w, 'o) state \<Rightarrow> ('x, 'p, 'w, 'o) state" where
  "set_eval s = s\<lparr>training := False\<rparr>"

text \<open>
  Modelled from the spec: \<open>change_mode\<close> of the network class (\<open>MODELS.model_resnet\<close>,
  not in the script). Section 4.3: the mode "is propagated to every whitening layer in
  the backbone simultaneously (a single control toggles all configured layers together)".
\<close>

definition all_mode :: "nat \<Rightarrow> modes \<Rightarrow> modes" where
  "all_mode m ms = map (\<lambda>(l, _). (l, m)) ms"

definition change_mode :: "nat \<Rightarrow> ('x, 'p, 'w, 'o) state \<Rightarrow> ('x, 'p, 'w, 'o) state" where
  "change_mode m s = s\<lparr>cw_modes := all_mode m (cw_modes s)\<rparr>"

definition calibrating :: "modes \<Rightarrow> int list" where
  "calibrating ms = map fst (filter (\<lambda>(l, m). m = CALIBRATE) ms)"

text \<open>
  Modelled from the spec: the forward pass \<open>model(X)\<close> of the network class. Section 4.1:
  in training mode the running estimates are updated, in evaluation mode they are used
  and "no statistics update" happens. Section 4.2: in NORMAL mode the rotation "is a
  frozen linear map with no side effects"; the calibration update "strictly affects
  rotationMatrix" and "must not use or modify the classification loss/optimizer state".
  The flag \<open>grad\<close> is \<open>False\<close> exactly inside a \<open>with torch.no_grad()\<close> block.
\<close>

definition forward ::
  "('x, 't, 'p, 'w, 'o) net \<Rightarrow> site \<Rightarrow> bool \<Rightarrow> 'x \<Rightarrow> ('x, 'p, 'w, 'o) state \<Rightarrow> ('x, 'p, 'w, 'o) state"
where
  "forward N c grad x s =
     s\<lparr>weights := (if training s then bn_update N x (weights s) else weights s),
       cw_state := fold (\<lambda>l. rot_update N l x) (calibrating (cw_modes s))
                     (if training s then cw_update N x (cw_state s) else cw_state s),
       trace := trace s @ [Forward c x (training s) (cw_modes s) grad]\<rparr>"

subsection \<open>\<open>train\<close>\<close>

text \<open>
  A data loader is iterated afresh by every \<open>for\<close> statement over it, and the loaders of
  \<open>train\<close> shuffle. The concept loader is therefore a function from the number of
  iterators created so far to the batches the next iterator yields; \<open>concept_iters\<close>
  counts them. Labels of concept batches are discarded by the script (\<open>(X, _)\<close>).
\<close>

type_synonym 'x loader = "nat \<Rightarrow> 'x list"

text \<open>
  Lines 336 to 345, the body of \<open>if (i + 1) % 2 == 0\<close>. The inner \<open>for\<close> leaves at its
  \<open>break\<close> after the first batch, and runs zero times over a loader that yields nothing.
\<close>

definition calibration_subpass ::
  "('x, 't, 'p, 'w, 'o) net \<Rightarrow> 'x loader \<Rightarrow> ('x, 'p, 'w, 'o) state \<Rightarrow> ('x, 'p, 'w, 'o) state"
where
  "calibration_subpass N concept_loader s =
     (let s1 = set_eval s;
          s2 = change_mode CALIBRATE s1;
          s3 = (case concept_loader (concept_iters s2) of
                  [] \<Rightarrow> s2
                | X # _ \<Rightarrow> forward N ConceptBatch False X s2);
          s4 = s3\<lparr>concept_iters := Suc (concept_iters s3)\<rparr>;
          s5 = change_mode NORMAL s4
      in set_train s5)"

text \<open>Lines 349 to 366: forward, loss, accuracy, and the SGD step.\<close>

definition classification_step ::
  "('x, 't, 'p, 'w, 'o) net \<Rightarrow> param_ref list \<Rightarrow> 'x \<times> 't \<Rightarrow> ('x, 'p, 'w, 'o) state \<Rightarrow>
   ('x, 'p, 'w, 'o) state"
where
  "classification_step N plist b s =
     (let s1 = forward N TrainBatch True (fst b) s;
          (p, w, opt) = sgd_step N plist (fst b) (snd b) (weights s1, cw_state s1, optimizer s1)
      in s1\<lparr>weights := p, cw_state := w, optimizer := opt,
            trace := trace s1 @ [Backward (cw_modes s1)]\<rparr>)"

definition train_batch ::
  "('x, 't, 'p, 'w, 'o) net \<Rightarrow> param_ref list \<Rightarrow> 'x loader \<Rightarrow> nat \<Rightarrow> 'x \<times> 't \<Rightarrow>
   ('x, 'p, 'w, 'o) state \<Rightarrow> ('x, 'p, 'w, 'o) state"
where
  "train_batch N plist concept_loader i b s =
     classification_step N plist b
       (if (i + 1) mod 2 = 0 then calibration_subpass N concept_loader s else s)"

fun train_loop ::
  "('x, 't, 'p, 'w, 'o) net \<Rightarrow> param_ref list \<Rightarrow> 'x loader \<Rightarrow> nat \<Rightarrow> ('x \<times> 't) list \<Rightarrow>
   ('x, 'p, 'w, 'o) state \<Rightarrow> ('x, 'p, 'w, 'o) state"
where
  "train_loop N plist concept_loader i [] s = s"
| "train_loop N plist concept_loader i (b # bs) s =
     train_loop N plist concept_loader (Suc i) bs (train_batch N plist concept_loader i b s)"

text \<open>
  \<open>train(train_loader, concept_loader, model, criterion, optimizer, epoch)\<close>. The
  argument \<open>train_loader\<close> is the list of batches this epoch's iterator yields; \<open>plist\<close>
  is the parameter list the optimizer was built with and the criterion is inside
  \<open>sgd_step\<close>; \<open>epoch\<close> and the meters only feed the progress lines, which are not
  modelled.
\<close>

definition train ::
  "('x, 't, 'p, 'w, 'o) net \<Rightarrow> param_ref list \<Rightarrow> ('x \<times> 't) list \<Rightarrow> 'x loader \<Rightarrow>
   ('x, 'p, 'w, 'o) state \<Rightarrow> ('x, 'p, 'w, 'o) state"
where
  "train N plist train_loader concept_loader s =
     train_loop N plist concept_loader 0 train_loader (set_train s)"

subsection \<open>\<open>validate\<close> and \<open>rotate_cpt\<close>\<close>

text \<open>
  \<open>validate\<close> switches to evaluation mode, forwards every validation batch inside
  \<open>torch.no_grad()\<close> and returns \<open>top1.avg\<close>, which an \<open>AverageMeter\<close> that was never
  updated reports as 0.
\<close>

definition validate ::
  "('x, 't, 'p, 'w, 'o) net \<Rightarrow> ('x \<times> 't) list \<Rightarrow> ('x, 'p, 'w, 'o) state \<Rightarrow>
   ('x, 'p, 'w, 'o) state \<times> real"
where
  "validate N val_loader s =
     (let s1 = set_eval s;
          s2 = fold (\<lambda>b. forward N ValBatch False (fst b)) val_loader s1
      in (s2, if val_loader = [] then 0 else prec1 N val_loader (weights s1) (cw_state s1)))"

text \<open>
  \<open>rotate_cpt\<close>, lines 309 to 322. After each forward the script reads
  \<open>layer2[0].bn1.running_rot[0,0,:]\<close> (an \<open>AttributeError\<close> when that module carries no
  rotation) and takes its dot product with \<open>mean\<close> (a \<open>RuntimeError\<close> when the lengths
  differ). An exception leaves the function before \<open>change_mode(0)\<close>; nothing in the
  script catches it. Each of the ten rounds iterates the concept loader afresh.
\<close>

fun rotate_batches ::
  "('x, 't, 'p, 'w, 'o) net \<Rightarrow> real list \<Rightarrow> 'x list \<Rightarrow> ('x, 'p, 'w, 'o) state \<Rightarrow>
   error + ('x, 'p, 'w, 'o) state"
where
  "rotate_batches N mean [] s = Inr s"
| "rotate_batches N mean (X # Xs) s =
     (let s1 = forward N RotateBatch False X s in
      case running_rot_row N (cw_state s1) of
        None \<Rightarrow> Inl AttributeError
      | Some R0 \<Rightarrow>
          if length R0 \<noteq> length mean then Inl RuntimeError
          else rotate_batches N mean Xs s1)"

fun rotate_rounds ::
  "('x, 't, 'p, 'w, 'o) net \<Rightarrow> 'x loader \<Rightarrow> real list \<Rightarrow> nat \<Rightarrow> ('x, 'p, 'w, 'o) state \<Rightarrow>
   error + ('x, 'p, 'w, 'o) state"
where
  "rotate_rounds N concept_loader mean 0 s = Inr s"
| "rotate_rounds N concept_loader mean (Suc n) s =
     (case rotate_batches N mean (concept_loader (concept_iters s))
             (s\<lparr>concept_iters := Suc (concept_iters s)\<rparr>) of
        Inl e \<Rightarrow> Inl e
      | Inr s1 \<Rightarrow> rotate_rounds N concept_loader mean n s1)"

definition rotate_cpt ::
  "('x, 't, 'p, 'w, 'o) net \<Rightarrow> 'x loader \<Rightarrow> real list \<Rightarrow> ('x, 'p, 'w, 'o) state \<Rightarrow>
   error + ('x, 'p, 'w, 'o) state"
where
  "rotate_cpt N concept_loader mean s =
     (case rotate_rounds N concept_loader mean 10 (change_mode CALIBRATE (set_eval s)) of
        Inl e \<Rightarrow> Inl e
      | Inr s1 \<Rightarrow> Inr (change_mode NORMAL s1))"

subsection \<open>Python strings\<close>

text \<open>\<open>s.split(',')\<close> and \<open>'_'.join(xs)\<close>.\<close>

fun split_on :: "char \<Rightarrow> string \<Rightarrow> string list" where
  "split_on c [] = [[]]"
| "split_on c (x # xs) =
     (if x = c then [] # split_on c xs
      else (case split_on c xs of
              [] \<Rightarrow> [[x]]
            | w # ws \<Rightarrow> (x # w) # ws))"

fun join_with :: "string \<Rightarrow> string list \<Rightarrow> string" where
  "join_with sep [] = []"
| "join_with sep [w] = w"
| "join_with sep (w # v # ws) = w @ sep @ join_with sep (v # ws)"

text \<open>\<open>str(n)\<close> for an integer.\<close>

definition digit_char :: "nat \<Rightarrow> char" where
  "digit_char d = ''0123456789'' ! d"

function str_nat :: "nat \<Rightarrow> string" where
  "str_nat n = (if n < 10 then [digit_char n] else str_nat (n div 10) @ [digit_char (n mod 10)])"
  by pat_completeness auto
termination
  by (relation "measure id") auto

definition str_int :: "int \<Rightarrow> string" where
  "str_int i = (if i < 0 then CHR ''-'' # str_nat (nat (- i)) else str_nat (nat i))"

text \<open>
  \<open>int(s)\<close> for a string: surrounding white space (the characters for which
  \<open>str.isspace\<close> holds) is dropped, a sign may lead, and one or
  more decimal digits follow, where one underscore may stand between two digits (Python
  3.6 and later); anything else is a \<open>ValueError\<close>, here \<open>None\<close>.
\<close>

definition is_space :: "char \<Rightarrow> bool" where
  "is_space c = (of_char c \<in> {9, 10, 11, 12, 13, 28, 29, 30, 31, 32, 133, 160 :: nat})"

definition strip :: "string \<Rightarrow> string" where
  "strip s = rev (dropWhile is_space (rev (dropWhile is_space s)))"

definition digit_val :: "char \<Rightarrow> nat option" where
  "digit_val c = (let n = (of_char c :: nat) in if 48 \<le> n \<and> n \<le> 57 then Some (n - 48) else None)"

fun digits_val :: "nat \<Rightarrow> string \<Rightarrow> nat option" where
  "digits_val acc [] = Some acc"
| "digits_val acc [c] = map_option (\<lambda>d. 10 * acc + d) (digit_val c)"
| "digits_val acc (c # u # r) =
     (case digit_val c of
        None \<Rightarrow> None
      | Some d \<Rightarrow>
          if u = CHR ''_'' then (if r = [] then None else digits_val (10 * acc + d) r)
          else digits_val (10 * acc + d) (u # r))"

definition py_int :: "string \<Rightarrow> int option" where
  "py_int s =
     (case strip s of
        [] \<Rightarrow> None
      | c # r \<Rightarrow>
          if c = CHR ''-'' then (if r = [] then None else map_option (\<lambda>n. - int n) (digits_val 0 r))
          else if c = CHR ''+'' then (if r = [] then None else map_option int (digits_val 0 r))
          else map_option int (digits_val 0 (c # r)))"

text \<open>
  \<open>arr.sort(key = lambda t: t[0], reverse = True)\<close>. CPython sorts stably; with
  \<open>reverse=True\<close> it reverses the list, sorts it stably in ascending order and reverses
  the result, so that equal keys keep their original order.
\<close>

definition sort_reverse :: "(real \<times> 'a) list \<Rightarrow> (real \<times> 'a) list" where
  "sort_reverse arr = rev (sort_key fst (rev arr))"

subsection \<open>Tensors, the blocks of the network and forward hooks\<close>

text \<open>
  The activation of one image at one layer: \<open>t_chans\<close> channels of \<open>t_height\<close> by
  \<open>t_width\<close> values. A rotation is \<open>running_rot\<close>, of size \<open>(r_groups, r_rows, r_cols)\<close>.
\<close>

record tensor3 =
  t_chans :: nat
  t_height :: nat
  t_width :: nat
  t_at :: "nat \<Rightarrow> nat \<Rightarrow> nat \<Rightarrow> real"

record rotation =
  r_groups :: nat
  r_rows :: nat
  r_cols :: nat
  r_at :: "nat \<Rightarrow> nat \<Rightarrow> nat \<Rightarrow> real"

text \<open>
  What the hooks read from the network in evaluation mode. \<open>x_hat pos img\<close> is the result
  of \<open>iterative_normalization_py.apply\<close> on the input of \<open>bn1\<close> of the block at position
  \<open>pos\<close> for one image (in evaluation mode the running estimates are used, so every image
  of a batch is whitened on its own); \<open>running_rot pos\<close> is that module's rotation;
  \<open>bn1_out pos batch\<close> is what the module itself returns. The hooks of the script are
  registered with the layer list the network was built with, so these module attributes
  exist and the shapes fit the \<open>view\<close> calls of lines 462 and 466.
\<close>

record ('i, 'r) backbone =
  x_hat :: "nat \<Rightarrow> 'i \<Rightarrow> tensor3"
  running_rot :: "nat \<Rightarrow> rotation"
  bn1_out :: "nat \<Rightarrow> 'i list \<Rightarrow> 'r"

text \<open>
  Lines 462 to 466 for one image: the channels are viewed as \<open>r_groups\<close> groups of
  \<open>r_cols\<close>, \<open>einsum('bgchw,gdc->bgdhw')\<close> sums over \<open>c\<close>, and the result is viewed back,
  so that channel \<open>g * r_rows + d\<close> holds the sum over \<open>c\<close> of
  \<open>X[g * r_cols + c] * R[g, d, c]\<close>.
\<close>

definition einsum_rot :: "rotation \<Rightarrow> tensor3 \<Rightarrow> tensor3" where
  "einsum_rot R X =
     X\<lparr>t_at := (\<lambda>ch y z.
          sum_list (map (\<lambda>c. t_at X ((ch div r_rows R) * r_cols R + c) y z *
                               r_at R (ch div r_rows R) (ch mod r_rows R) c)
                        [0..<r_cols R]))\<rparr>"

text \<open>\<open>output.sum((2,3))[:,k]\<close> for one image.\<close>

definition spatial_sum :: "tensor3 \<Rightarrow> nat \<Rightarrow> real" where
  "spatial_sum X k =
     sum_list (map (\<lambda>y. sum_list (map (\<lambda>z. t_at X k y z) [0..<t_width X])) [0..<t_height X])"

text \<open>
  \<open>X_hat.mean((0,2,3))\<close> of a batch. A batch tensor has one shape, read here from its
  first image. A data loader yields no batch without an image: of such a batch torch
  gives one value that is not a number for every channel, which is not modelled (the
  list is \<open>[]\<close> here).
\<close>

definition channel_means :: "tensor3 list \<Rightarrow> real list" where
  "channel_means Xs =
     (case Xs of
        [] \<Rightarrow> []
      | X # _ \<Rightarrow>
          map (\<lambda>c. sum_list (map (\<lambda>X'. spatial_sum X' c) Xs) /
                     real (length Xs * t_height X * t_width X))
              [0..<t_chans X])"

text \<open>
  Each activation of \<open>get_optimal_direction\<close> or \<open>print_concept_top5\<close> has its own
  variable \<open>outputs\<close>, which the nested function \<open>hook\<close> reads when it runs. A cell of the
  registry is such a variable; a hook carries the number of the cell it was created
  with. Hooks are never removed by the script.
\<close>

datatype capture = Means "real list" | Rotated "tensor3 list"

datatype hook_fn =
    DirectionHook nat   \<comment> \<open>\<open>hook\<close> of \<open>get_optimal_direction\<close>, lines 277 to 283\<close>
  | RankingHook nat     \<comment> \<open>\<open>hook\<close> of \<open>print_concept_top5\<close>, lines 455 to 468\<close>

record registry =
  hooks :: "(nat \<times> hook_fn) list"
  cells :: "nat \<Rightarrow> capture list"
  fresh :: nat

text \<open>
  The body of a hook on the module at \<open>pos\<close>: it appends one value to its \<open>outputs\<close>
  (line 283, or the rotated activation of line 468) and falls off its end, so the value
  it hands back to torch is \<open>None\<close>.
\<close>

fun hook_cell :: "hook_fn \<Rightarrow> nat" where
  "hook_cell (DirectionHook c) = c"
| "hook_cell (RankingHook c) = c"

fun hook_capture :: "('i, 'r) backbone \<Rightarrow> nat \<Rightarrow> 'i list \<Rightarrow> hook_fn \<Rightarrow> capture" where
  "hook_capture B pos batch (DirectionHook c) = Means (channel_means (map (x_hat B pos) batch))"
| "hook_capture B pos batch (RankingHook c) =
     Rotated (map (\<lambda>img. einsum_rot (running_rot B pos) (x_hat B pos img)) batch)"

definition run_hook ::
  "('i, 'r) backbone \<Rightarrow> nat \<Rightarrow> 'i list \<Rightarrow> hook_fn \<Rightarrow> registry \<Rightarrow> registry \<times> 'r option"
where
  "run_hook B pos batch h reg =
     (reg\<lparr>cells := (cells reg)
            (hook_cell h := cells reg (hook_cell h) @ [hook_capture B pos batch h])\<rparr>,
      None)"

text \<open>
  \<open>torch.nn.Module.__call__\<close>: after the module's own \<open>forward\<close>, its hooks run in the
  order of their registration, and a hook that returns a value replaces the result.
\<close>

definition call_module ::
  "('i, 'r) backbone \<Rightarrow> nat \<Rightarrow> 'i list \<Rightarrow> registry \<Rightarrow> registry \<times> 'r"
where
  "call_module B pos batch reg =
     fold (\<lambda>h (r, result).
             (case run_hook B pos batch h r of
                (r1, None) \<Rightarrow> (r1, result)
              | (r1, Some v) \<Rightarrow> (r1, v)))
          (map snd (filter (\<lambda>ph. fst ph = pos) (hooks reg)))
          (reg, bn1_out B pos batch)"

text \<open>
  Modelled from the spec: the order in which \<open>model(input)\<close> runs the blocks
  (\<open>MODELS.model_resnet\<close>, not in the script). Section 4.4: capture order matches "the
  forward-pass execution order"; the blocks of \<open>layer1\<close> run first, then those of
  \<open>layer2\<close>, \<open>layer3\<close> and \<open>layer4\<close>, each in index order.
\<close>

definition num_blocks :: "int \<times> int \<times> int \<times> int \<Rightarrow> nat" where
  "num_blocks L = (case L of (l0, l1, l2, l3) \<Rightarrow> nat (l0 + l1 + l2 + l3))"

definition forward_hooked ::
  "('i, 'r) backbone \<Rightarrow> int \<times> int \<times> int \<times> int \<Rightarrow> 'i list \<Rightarrow> registry \<Rightarrow> registry"
where
  "forward_hooked B L batch reg =
     fold (\<lambda>pos r. fst (call_module B pos batch r)) [0..<num_blocks L] reg"

text \<open>
  \<open>nn.Sequential.__getitem__\<close> with an integer: an index from \<open>-n\<close> up to \<open>n - 1\<close> is
  taken modulo the length \<open>n\<close>, any other raises \<open>IndexError\<close>. \<open>off\<close> is the number of blocks
  of the earlier stages.
\<close>

definition seq_index :: "int \<Rightarrow> int \<Rightarrow> int \<Rightarrow> error + nat" where
  "seq_index off n idx =
     (if - n \<le> idx \<and> idx < n then Inr (nat (off + idx mod n)) else Inl IndexError)"

text \<open>
  The \<open>if\<close>/\<open>elif\<close> chain of lines 83 to 90, 286 to 293 and 472 to 479, which picks the
  block \<open>bn1\<close> of a layer number. A number beyond the last block matches no branch.
\<close>

definition locate :: "int \<times> int \<times> int \<times> int \<Rightarrow> int \<Rightarrow> (error + nat) option" where
  "locate L layer =
     (case L of (l0, l1, l2, l3) \<Rightarrow>
        if layer \<le> l0 then Some (seq_index 0 l0 (layer - 1))
        else if layer \<le> l0 + l1 then Some (seq_index l0 l1 (layer - l0 - 1))
        else if layer \<le> l0 + l1 + l2 then Some (seq_index (l0 + l1) l2 (layer - l0 - l1 - 1))
        else if layer \<le> l0 + l1 + l2 + l3 then
          Some (seq_index (l0 + l1 + l2) l3 (layer - l0 - l1 - l2 - 1))
        else None)"

text \<open>\<open>get_param_list\<close>, lines 79 to 91.\<close>

fun get_param_list_loop ::
  "int \<times> int \<times> int \<times> int \<Rightarrow> int list \<Rightarrow> param_ref list \<Rightarrow> error + param_ref list"
where
  "get_param_list_loop L [] param_list = Inr param_list"
| "get_param_list_loop L (whitened_layer # rest) param_list =
     (case locate L whitened_layer of
        None \<Rightarrow> get_param_list_loop L rest param_list
      | Some (Inl e) \<Rightarrow> Inl e
      | Some (Inr pos) \<Rightarrow> get_param_list_loop L rest (param_list @ [BN1 pos]))"

definition get_param_list :: "int \<times> int \<times> int \<times> int \<Rightarrow> int list \<Rightarrow> error + param_ref list" where
  "get_param_list L whitened_layers = get_param_list_loop L whitened_layers [FC]"

text \<open>
  The registration loops of lines 284 to 293 and 470 to 479: \<open>layer = int(layer)\<close>, then
  \<open>register_forward_hook(hook)\<close> on the block found.
\<close>

fun register_hooks ::
  "int \<times> int \<times> int \<times> int \<Rightarrow> hook_fn \<Rightarrow> string list \<Rightarrow> registry \<Rightarrow> error option \<times> registry"
where
  "register_hooks L h [] reg = (None, reg)"
| "register_hooks L h (layer # rest) reg =
     (case py_int layer of
        None \<Rightarrow> (Some ValueError, reg)
      | Some n \<Rightarrow>
          (case locate L n of
             None \<Rightarrow> register_hooks L h rest reg
           | Some (Inl e) \<Rightarrow> (Some e, reg)
           | Some (Inr pos) \<Rightarrow> register_hooks L h rest (reg\<lparr>hooks := hooks reg @ [(pos, h)]\<rparr>)))"

text \<open>A new activation of a function with a local \<open>outputs = []\<close>.\<close>

definition empty_registry :: registry where
  "empty_registry = \<lparr>hooks = [], cells = (\<lambda>c. []), fresh = 0\<rparr>"

definition new_cell :: "registry \<Rightarrow> nat \<times> registry" where
  "new_cell reg = (fresh reg, reg\<lparr>cells := (cells reg)(fresh reg := []), fresh := Suc (fresh reg)\<rparr>)"

subsection \<open>\<open>get_optimal_direction\<close>\<close>

text \<open>
  Lines 301 to 304: \<open>mean = torch.zeros((128,))\<close>, then \<open>mean += item\<close> for every capture,
  which needs an item of 128 entries or of one entry (broadcast), and \<open>mean /= len(outputs)\<close>,
  which over no capture at all leaves 128 entries that are not numbers.
\<close>

datatype direction = Direction "real list" | NotANumber

definition add_item :: "real list \<Rightarrow> capture \<Rightarrow> error + real list" where
  "add_item mean item =
     (case item of
        Means v \<Rightarrow>
          if length v = 128 then Inr (map2 (+) mean v)
          else if length v = 1 then Inr (map (\<lambda>m. m + hd v) mean)
          else Inl RuntimeError
      | Rotated _ \<Rightarrow> Inl RuntimeError)"

fun add_items :: "real list \<Rightarrow> capture list \<Rightarrow> error + real list" where
  "add_items mean [] = Inr mean"
| "add_items mean (item # items) =
     (case add_item mean item of Inl e \<Rightarrow> Inl e | Inr mean1 \<Rightarrow> add_items mean1 items)"

text \<open>
  \<open>get_optimal_direction\<close> returns the captures its \<open>outputs\<close> holds after the loop over
  the concept loader (for inspection), the direction or the exception, and the registry.
\<close>

definition get_optimal_direction ::
  "('i, 'r) backbone \<Rightarrow> int \<times> int \<times> int \<times> int \<Rightarrow> 'i list list \<Rightarrow> string \<Rightarrow> registry \<Rightarrow>
   (capture list \<times> (error + direction)) \<times> registry"
where
  "get_optimal_direction B L concept_loader whitened_layers reg =
     (let layer_list = split_on CHR '','' whitened_layers;
          (c, reg1) = new_cell reg
      in case register_hooks L (DirectionHook c) layer_list reg1 of
           (Some e, reg2) \<Rightarrow> ((cells reg2 c, Inl e), reg2)
         | (None, reg2) \<Rightarrow>
             (let reg3 = fold (\<lambda>X r. forward_hooked B L X r) concept_loader reg2;
                  outputs = cells reg3 c
              in ((outputs,
                   (case add_items (replicate 128 0) outputs of
                      Inl e \<Rightarrow> Inl e
                    | Inr mean \<Rightarrow>
                        if outputs = [] then Inr NotANumber
                        else Inr (Direction (map (\<lambda>m. m / real (length outputs)) mean)))),
                  reg3)))"

subsection \<open>\<open>print_concept_top5\<close>\<close>

text \<open>Line 498, \<open>output.sum((2,3))[:,k]\<close>: one score for every image of the batch.\<close>

fun score_row :: "nat \<Rightarrow> capture \<Rightarrow> error + real list" where
  "score_row k (Means v) = Inl IndexError"
| "score_row k (Rotated Xs) =
     (if list_ex (\<lambda>X. t_chans X \<le> k) Xs then Inl IndexError
      else Inr (map (\<lambda>X. spatial_sum X k) Xs))"

fun score_rows :: "nat \<Rightarrow> capture list \<Rightarrow> error + real list list" where
  "score_rows k [] = Inr []"
| "score_rows k (output # rest) =
     (case score_row k output of
        Inl e \<Rightarrow> Inl e
      | Inr r \<Rightarrow> (case score_rows k rest of Inl e \<Rightarrow> Inl e | Inr rs \<Rightarrow> Inr (r # rs)))"

text \<open>
  Lines 496 to 499. Over no capture \<open>val\<close> is still the list \<open>[]\<close>, which has no
  \<open>reshape\<close>. Every capture of one forward pass has one score for every image of the
  batch, so \<open>reshape((len(outputs), -1))\<close> gives back one row for every capture (rows of
  length 0 for a batch of no image).
\<close>

definition batch_val :: "nat \<Rightarrow> capture list \<Rightarrow> error + real list list" where
  "batch_val k outputs =
     (case score_rows k outputs of
        Inl e \<Rightarrow> Inl e
      | Inr rows \<Rightarrow> if outputs = [] then Inl AttributeError else Inr rows)"

text \<open>
  Lines 491 to 503, the loop over the validation loader: a batch is a list of images
  with their paths. \<open>outputs = []\<close> rebinds the variable the hook appends to, which is
  cell \<open>c\<close>.
\<close>

fun scan_batches ::
  "('i, 'r) backbone \<Rightarrow> int \<times> int \<times> int \<times> int \<Rightarrow> nat \<Rightarrow> nat \<Rightarrow> ('i \<times> string) list list \<Rightarrow>
   string list \<Rightarrow> real list list option \<Rightarrow> registry \<Rightarrow>
   (error + string list \<times> real list list option) \<times> registry"
where
  "scan_batches B L c k [] paths vals reg = (Inr (paths, vals), reg)"
| "scan_batches B L c k (batch # rest) paths vals reg =
     (let paths1 = paths @ map snd batch;
          reg1 = reg\<lparr>cells := (cells reg)(c := [])\<rparr>;
          reg2 = forward_hooked B L (map fst batch) reg1
      in case batch_val k (cells reg2 c) of
           Inl e \<Rightarrow> (Inl e, reg2)
         | Inr val \<Rightarrow>
             scan_batches B L c k rest paths1
               (Some (case vals of None \<Rightarrow> val | Some v \<Rightarrow> map2 (@) v val)) reg2)"

text \<open>
  Lines 505 to 515, the loop over the configured layers: row \<open>i\<close> of \<open>vals\<close> is zipped
  with the paths and sorted, and \<open>arr[j]\<close> for \<open>j\<close> below 50 is copied. The result lists
  the copies made, source and destination, and the exception that ended the loop.
\<close>

definition copy_name :: "string \<Rightarrow> bool \<Rightarrow> nat \<Rightarrow> string \<Rightarrow> nat \<Rightarrow> string" where
  "copy_name folder print_other k layer j =
     folder @ ''layer'' @ layer @ ''_'' @ str_nat (j + 1) @
     (if print_other then ''_dim'' @ str_nat k else []) @ ''.jpg''"

fun export_layers ::
  "string \<Rightarrow> bool \<Rightarrow> nat \<Rightarrow> real list list option \<Rightarrow> string list \<Rightarrow> nat \<Rightarrow> string list \<Rightarrow>
   (string \<times> string) list \<times> error option"
where
  "export_layers folder print_other k vals paths i [] = ([], None)"
| "export_layers folder print_other k vals paths i (layer # rest) =
     (case vals of
        None \<Rightarrow> ([], Some TypeError)
      | Some rows \<Rightarrow>
          if length rows \<le> i then ([], Some IndexError)
          else
            (let arr = sort_reverse (zip (rows ! i) paths);
                 copy = (\<lambda>j. (snd (arr ! j), copy_name folder print_other k layer j))
             in if length arr < 50 then (map copy [0..<length arr], Some IndexError)
                else (case export_layers folder print_other k vals paths (Suc i) rest of
                        (cs, e) \<Rightarrow> (map copy [0..<50] @ cs, e))))"

text \<open>Lines 488 to 515, the loop over the inspected axes \<open>k\<close>.\<close>

fun rank_axes ::
  "('i, 'r) backbone \<Rightarrow> int \<times> int \<times> int \<times> int \<Rightarrow> nat \<Rightarrow> string \<Rightarrow> bool \<Rightarrow>
   ('i \<times> string) list list \<Rightarrow> string list \<Rightarrow> nat list \<Rightarrow> registry \<Rightarrow>
   ((string \<times> string) list \<times> error option) \<times> registry"
where
  "rank_axes B L c folder print_other val_loader layer_list [] reg = (([], None), reg)"
| "rank_axes B L c folder print_other val_loader layer_list (k # ks) reg =
     (case scan_batches B L c k val_loader [] None reg of
        (Inl e, reg1) \<Rightarrow> (([], Some e), reg1)
      | (Inr (paths, vals), reg1) \<Rightarrow>
          (case export_layers folder print_other k vals paths 0 layer_list of
             (cs, Some e) \<Rightarrow> ((cs, Some e), reg1)
           | (cs, None) \<Rightarrow>
               (case rank_axes B L c folder print_other val_loader layer_list ks reg1 of
                  ((cs1, e1), reg2) \<Rightarrow> ((cs @ cs1, e1), reg2))))"

definition dst :: string where
  "dst = ''/usr/xtmp/zhichen/attention-module/plot/''"

definition folder_name :: "string \<Rightarrow> string list \<Rightarrow> bool \<Rightarrow> string" where
  "folder_name arch layer_list print_other =
     dst @ join_with ''_'' layer_list @
     (if arch = ''resnet_transfer'' then ''_rot_transfer/''
      else if print_other then ''_rot_otherdim/'' else ''_rot/'')"

text \<open>
  \<open>print_concept_top5(val_loader, model, whitened_layers, print_other)\<close>; \<open>arch\<close> is the
  global \<open>args.arch\<close>. The directory is created when missing; the copies are listed in
  the order \<open>copyfile\<close> is called, each taken to succeed. The result is the list of
  copies made, the exception that ended the call (if any), and the registry.
\<close>

definition print_concept_top5 ::
  "('i, 'r) backbone \<Rightarrow> int \<times> int \<times> int \<times> int \<Rightarrow> string \<Rightarrow> ('i \<times> string) list list \<Rightarrow>
   string \<Rightarrow> bool \<Rightarrow> registry \<Rightarrow> ((string \<times> string) list \<times> error option) \<times> registry"
where
  "print_concept_top5 B L arch val_loader whitened_layers print_other reg =
     (let layer_list = split_on CHR '','' whitened_layers;
          folder = folder_name arch layer_list print_other;
          (c, reg1) = new_cell reg
      in case register_hooks L (RankingHook c) layer_list reg1 of
           (Some e, reg2) \<Rightarrow> (([], Some e), reg2)
         | (None, reg2) \<Rightarrow>
             rank_axes B L c folder print_other val_loader layer_list
               (if print_other then [1..<11] else [0..<1]) reg2)"

subsection \<open>Checkpoints and \<open>main\<close>\<close>

text \<open>The command-line options \<open>main\<close> reads itself; the others go to torch constructors.\<close>

record args =
  arch :: string
  whitened_layers :: string
  depth :: int
  epochs :: int
  start_epoch :: int
  lr :: real
  resume :: string
  prefix :: string

text \<open>
  A checkpoint is the dictionary \<open>torch.save\<close> wrote; a key that is missing is \<open>None\<close>.
  Modelled from the spec: \<open>model.state_dict()\<close> of the network class. Section 6: the
  record holds the "full model parameter/state snapshot (including
  runningMean/runningWhiteningMatrix/rotationMatrix per whitening layer)"; section 3:
  "checkpoints store weights/statistics, not mode".
\<close>

record ('p, 'w, 'o) checkpoint =
  ck_epoch :: "int option"
  ck_arch :: "string option"
  ck_state_dict :: "('p \<times> 'w) option"
  ck_best_prec1 :: "real option"
  ck_optimizer :: "'o option"

definition state_dict :: "('x, 'p, 'w, 'o) state \<Rightarrow> 'p \<times> 'w" where
  "state_dict s = (weights s, cw_state s)"

definition load_state_dict :: "'p \<times> 'w \<Rightarrow> ('x, 'p, 'w, 'o) state \<Rightarrow> ('x, 'p, 'w, 'o) state" where
  "load_state_dict sd s = s\<lparr>weights := fst sd, cw_state := snd sd\<rparr>"

text \<open>
  The process: the network and optimizer, the options (which \<open>main\<close> rewrites), the
  global \<open>best_prec1\<close>, the checkpoint files, the resume messages printed, the copies
  \<open>print_concept_top5\<close> made and the exception that ended it, if any.
\<close>

record ('x, 'p, 'w, 'o) process =
  model_state :: "('x, 'p, 'w, 'o) state"
  opts :: args
  best_prec1 :: real
  files :: "string \<Rightarrow> ('p, 'w, 'o) checkpoint option"
  stdout :: "string list"
  exported :: "(string \<times> string) list"
  raised :: "error option"

text \<open>
  Modelled from the spec: the constructors \<open>ResidualNet\<close> and \<open>ResidualNetTransfer\<close>
  (\<open>MODELS.model_resnet\<close>, not in the script). Section 3: the mode of a whitening layer
  "defaults to NORMAL". A new \<open>torch.nn.Module\<close> is in training mode.
\<close>

definition ResidualNet ::
  "('x, 't, 'p, 'w, 'o) net \<Rightarrow> int list \<Rightarrow> param_ref list \<Rightarrow> real \<Rightarrow> ('x, 'p, 'w, 'o) state"
where
  "ResidualNet N whitened param_list rate =
     \<lparr>training = True,
      cw_modes = map (\<lambda>l. (l, NORMAL)) whitened,
      weights = init_weights N,
      cw_state = init_cw N whitened,
      optimizer = init_optimizer N param_list rate,
      concept_iters = 0,
      trace = []\<rparr>"

text \<open>\<open>[int(x) for x in args.whitened_layers.split(',')]\<close>.\<close>

fun int_list :: "string list \<Rightarrow> int list option" where
  "int_list [] = Some []"
| "int_list (x # xs) =
     (case py_int x of
        None \<Rightarrow> None
      | Some n \<Rightarrow> (case int_list xs of None \<Rightarrow> None | Some ns \<Rightarrow> Some (n # ns)))"

text \<open>Line 136: \<open>args.resume[:-19] + '_' + '_'.join(...) + args.resume[-19:]\<close>.\<close>

definition resume_path :: "string \<Rightarrow> string \<Rightarrow> string" where
  "resume_path r wl =
     take (length r - 19) r @ ''_'' @ join_with ''_'' (split_on CHR '','' wl) @
     drop (length r - 19) r"

definition quoted :: "string \<Rightarrow> string" where
  "quoted t = [CHR 0x27] @ t @ [CHR 0x27]"

text \<open>
  Lines 135 to 148, the optional resume. A file of the checkpoint directory is one that
  \<open>torch.load\<close> reads and whose state the network accepts; a key the dictionary lacks
  is a \<open>KeyError\<close>.
\<close>

definition resume_checkpoint ::
  "('x, 'p, 'w, 'o) process \<Rightarrow> error + ('x, 'p, 'w, 'o) process"
where
  "resume_checkpoint P =
     (if resume (opts P) = [] then Inr P
      else
        (let path = resume_path (resume (opts P)) (whitened_layers (opts P));
             P1 = P\<lparr>opts := (opts P)\<lparr>resume := path\<rparr>\<rparr>
         in case files P1 path of
              None \<Rightarrow> Inr (P1\<lparr>stdout := stdout P1 @ [''=> no checkpoint found at '' @ quoted path]\<rparr>)
            | Some checkpoint \<Rightarrow>
                (let P2 = P1\<lparr>stdout := stdout P1 @ [''=> loading checkpoint '' @ quoted path]\<rparr> in
                 case ck_epoch checkpoint of
                   None \<Rightarrow> Inl KeyError
                 | Some e \<Rightarrow>
                     (case ck_best_prec1 checkpoint of
                        None \<Rightarrow> Inl KeyError
                      | Some b \<Rightarrow>
                          (case ck_state_dict checkpoint of
                             None \<Rightarrow> Inl KeyError
                           | Some sd \<Rightarrow>
                               (let m1 = load_state_dict sd (model_state P2);
                                    m2 = (case ck_optimizer checkpoint of
                                            None \<Rightarrow> m1
                                          | Some od \<Rightarrow> m1\<lparr>optimizer := od\<rparr>)
                                in Inr (P2\<lparr>model_state := m2,
                                            opts := (opts P2)\<lparr>start_epoch := e\<rparr>,
                                            best_prec1 := b,
                                            stdout := stdout P2 @
                                              [''=> loaded checkpoint '' @ quoted path @
                                               '' (epoch '' @ str_int e @ '')'']\<rparr>)))))))"

text \<open>\<open>adjust_learning_rate\<close>: \<open>lr = args.lr * (0.1 ** (epoch // 50))\<close>.\<close>

definition adjust_learning_rate ::
  "('x, 't, 'p, 'w, 'o) net \<Rightarrow> real \<Rightarrow> int \<Rightarrow> ('x, 'p, 'w, 'o) state \<Rightarrow> ('x, 'p, 'w, 'o) state"
where
  "adjust_learning_rate N rate epoch s =
     (let r = rate * power_int (1 / 10) (epoch div 50)
      in s\<lparr>optimizer := set_lr N r (optimizer s), trace := trace s @ [AdjustLR epoch r]\<rparr>)"

text \<open>\<open>save_checkpoint(state, is_best, prefix)\<close>.\<close>

definition save_checkpoint ::
  "('p, 'w, 'o) checkpoint \<Rightarrow> bool \<Rightarrow> string \<Rightarrow> (string \<Rightarrow> ('p, 'w, 'o) checkpoint option) \<Rightarrow>
   (string \<Rightarrow> ('p, 'w, 'o) checkpoint option)"
where
  "save_checkpoint st is_best pfx fs =
     (let filename = ''./checkpoints/'' @ pfx @ ''_checkpoint.pth.tar'';
          fs1 = fs(filename := Some st)
      in if is_best then fs1(''./checkpoints/'' @ pfx @ ''_model_best.pth.tar'' := Some st)
         else fs1)"

text \<open>
  Lines 251 to 268, the body of the epoch loop. \<open>k\<close> counts the iterations of the
  training loader made so far in this run.
\<close>

definition epoch_body ::
  "('x, 't, 'p, 'w, 'o) net \<Rightarrow> param_ref list \<Rightarrow> ('x \<times> 't) loader \<Rightarrow> 'x loader \<Rightarrow>
   ('x \<times> 't) list \<Rightarrow> int \<Rightarrow> nat \<Rightarrow> ('x, 'p, 'w, 'o) process \<Rightarrow> ('x, 'p, 'w, 'o) process"
where
  "epoch_body N plist train_loader concept_loader val_loader epoch k P =
     (let s1 = adjust_learning_rate N (lr (opts P)) epoch (model_state P);
          s2 = train N plist (train_loader k) concept_loader
                 (s1\<lparr>trace := trace s1 @ [CallTrain epoch]\<rparr>);
          (s3, p1) = validate N val_loader (s2\<lparr>trace := trace s2 @ [CallValidate epoch]\<rparr>);
          is_best = (p1 > best_prec1 P);
          best = max p1 (best_prec1 P);
          ck = \<lparr>ck_epoch = Some (epoch + 1),
                ck_arch = Some (arch (opts P)),
                ck_state_dict = Some (state_dict s3),
                ck_best_prec1 = Some best,
                ck_optimizer = Some (optimizer s3)\<rparr>
      in P\<lparr>model_state := s3\<lparr>trace := trace s3 @ [SaveCheckpoint (epoch + 1)]\<rparr>,
           best_prec1 := best,
           files := save_checkpoint ck is_best (prefix (opts P)) (files P)\<rparr>)"

text \<open>Line 248: \<open>for epoch in range(args.start_epoch, args.start_epoch + 5)\<close>.\<close>

fun epoch_loop ::
  "('x, 't, 'p, 'w, 'o) net \<Rightarrow> param_ref list \<Rightarrow> ('x \<times> 't) loader \<Rightarrow> 'x loader \<Rightarrow>
   ('x \<times> 't) list \<Rightarrow> int \<Rightarrow> nat list \<Rightarrow> ('x, 'p, 'w, 'o) process \<Rightarrow> ('x, 'p, 'w, 'o) process"
where
  "epoch_loop N plist train_loader concept_loader val_loader start [] P = P"
| "epoch_loop N plist train_loader concept_loader val_loader start (k # ks) P =
     epoch_loop N plist train_loader concept_loader val_loader start ks
       (epoch_body N plist train_loader concept_loader val_loader (start + int k) k P)"

text \<open>
  The process when \<open>main\<close> reaches line 134: the network and the optimizer are built,
  nothing is printed that the model keeps, and the global \<open>best_prec1\<close> has the value 0
  of line 59. \<open>fs\<close> is the content of the checkpoint directory.
\<close>

definition initial_process ::
  "('x, 't, 'p, 'w, 'o) net \<Rightarrow> args \<Rightarrow> int list \<Rightarrow> param_ref list \<Rightarrow>
   (string \<Rightarrow> ('p, 'w, 'o) checkpoint option) \<Rightarrow> ('x, 'p, 'w, 'o) process"
where
  "initial_process N a whitened plist fs =
     \<lparr>model_state = ResidualNet N whitened plist (lr a),
      opts = a, best_prec1 = 0, files = fs, stdout = [], exported = [], raised = None\<rparr>"

text \<open>
  \<open>main\<close>. \<open>probe\<close> gives what the hooks read from the trained network. An option
  \<open>arch\<close> other than the two the script knows leaves \<open>model\<close> unbound at line 113. No
  hook is registered before line 269. The loaders are arguments: building them from the
  data directory (lines 154 to 200) is torch's work, as are the seeds and the move to
  the GPUs. The result is the process when \<open>main\<close> stops, or the exception of its
  set-up; an exception of \<open>print_concept_top5\<close> is kept in \<open>raised\<close>.
\<close>

definition main ::
  "('x, 't, 'p, 'w, 'o) net \<Rightarrow> ('p \<Rightarrow> 'w \<Rightarrow> ('i, 'r) backbone) \<Rightarrow> args \<Rightarrow>
   (string \<Rightarrow> ('p, 'w, 'o) checkpoint option) \<Rightarrow> ('x \<times> 't) loader \<Rightarrow> 'x loader \<Rightarrow>
   ('x \<times> 't) list \<Rightarrow> ('i \<times> string) list list \<Rightarrow> error + ('x, 'p, 'w, 'o) process"
where
  "main N probe a fs train_loader concept_loader val_loader val_loader_2 =
     (let layer_list = split_on CHR '','' (whitened_layers a);
          a1 = a\<lparr>prefix := prefix a @ ''_'' @ join_with ''_'' layer_list\<rparr>
      in if arch a1 \<noteq> ''resnet'' \<and> arch a1 \<noteq> ''resnet_transfer'' then Inl NameError
         else
           (case int_list layer_list of
              None \<Rightarrow> Inl ValueError
            | Some whitened \<Rightarrow>
                (case get_param_list (layers N) whitened of
                   Inl e \<Rightarrow> Inl e
                 | Inr plist \<Rightarrow>
                     (case resume_checkpoint (initial_process N a1 whitened plist fs) of
                        Inl e \<Rightarrow> Inl e
                      | Inr P \<Rightarrow>
                          (let P1 = epoch_loop N plist train_loader concept_loader val_loader
                                      (start_epoch (opts P)) [0..<5] P;
                               s = model_state P1;
                               s1 = set_eval (s\<lparr>trace := trace s @ [CallConceptTop5]\<rparr>);
                               res = fst (print_concept_top5 (probe (weights s1) (cw_state s1))
                                            (layers N) (arch (opts P1)) val_loader_2
                                            (whitened_layers (opts P1)) False
                                            empty_registry)
                           in Inr (P1\<lparr>model_state := s1, exported := fst res,
                                       raised := snd res\<rparr>))))))"

subsection \<open>Notation for the properties\<close>

text \<open>
  The score in the words of the specification, "the spatial mean of that axis's rotated
  activation", to be compared with the spatial sum the script takes.
\<close>

definition spatial_mean :: "tensor3 \<Rightarrow> nat \<Rightarrow> real" where
  "spatial_mean X k = spatial_sum X k / real (t_height X * t_width X)"

text \<open>The hooks of a list in the order a forward pass fires them, block after block.\<close>

definition fired :: "int \<times> int \<times> int \<times> int \<Rightarrow> (nat \<times> hook_fn) list \<Rightarrow> (nat \<times> hook_fn) list" where
  "fired L hs = concat (map (\<lambda>pos. filter (\<lambda>ph. fst ph = pos) hs) [0..<num_blocks L])"

text \<open>What one forward pass of a batch appends to the cell \<open>c\<close>, given the hooks registered.\<close>

definition captured ::
  "('i, 'r) backbone \<Rightarrow> int \<times> int \<times> int \<times> int \<Rightarrow> 'i list \<Rightarrow> nat \<Rightarrow> (nat \<times> hook_fn) list \<Rightarrow>
   capture list"
where
  "captured B L batch c hs =
     map (\<lambda>ph. hook_capture B (fst ph) batch (snd ph))
       (filter (\<lambda>ph. hook_cell (snd ph) = c) (fired L hs))"

text \<open>Every whitening layer of a mode list is in NORMAL.\<close>

abbreviation (input) all_normal :: "modes \<Rightarrow> bool" where
  "all_normal ms \<equiv> (\<forall>lm \<in> set ms. snd lm = NORMAL)"

text \<open>
  An event is harmless when it is not a classification pass (a forward of \<open>train\<close> line
  354 or of \<open>validate\<close>, or a backward pass) with some whitening layer out of NORMAL.
\<close>

abbreviation (input) classification_normal :: "'x event \<Rightarrow> bool" where
  "classification_normal e \<equiv>
     (case e of
        Forward c x tr ms g \<Rightarrow> (c = TrainBatch \<or> c = ValBatch) \<longrightarrow> all_normal ms
      | Backward ms \<Rightarrow> all_normal ms
      | _ \<Rightarrow> True)"

text \<open>The events with which \<open>main\<close> marks what it calls.\<close>

abbreviation (input) is_call :: "'x event \<Rightarrow> bool" where
  "is_call e \<equiv> (case e of Forward c x tr ms g \<Rightarrow> False | Backward ms \<Rightarrow> False | _ \<Rightarrow> True)"

subsection \<open>A small concrete network\<close>

text \<open>
  An instance of the parameters, with numbers for states, on which the functions above
  can be run: a network of two blocks per stage whose every update counts.
\<close>

definition example_net :: "(nat, nat, nat, nat, nat) net" where
  "example_net =
     \<lparr>bn_update = (\<lambda>x p. p + x),
      cw_update = (\<lambda>x w. w + 1),
      rot_update = (\<lambda>l x w. w + 2),
      sgd_step = (\<lambda>pl x t (p, w, opt). (p + 1, w + 1, opt + 1)),
      prec1 = (\<lambda>vl p w. 1 / 2),
      set_lr = (\<lambda>r opt. opt),
      running_rot_row = (\<lambda>w. Some [1, 0]),
      layers = (2, 2, 2, 2),
      init_weights = 0,
      init_cw = (\<lambda>ls. 0),
      init_optimizer = (\<lambda>pl r. 0)\<rparr>"

definition example_backbone :: "(nat, nat) backbone" where
  "example_backbone =
     \<lparr>x_hat = (\<lambda>pos img. \<lparr>t_chans = 2, t_height = 1, t_width = 2,
                            t_at = (\<lambda>c y z. real (img * (c + 1) + z))\<rparr>),
      running_rot = (\<lambda>pos. \<lparr>r_groups = 1, r_rows = 2, r_cols = 2,
                             r_at = (\<lambda>g d c. if d = c then 1 else 0)\<rparr>),
      bn1_out = (\<lambda>pos batch. pos)\<rparr>"

text \<open>
  The same network with the 128 channels \<open>get_optimal_direction\<close> expects at line 301:
  every entry of the activation of an image is the number of the image.
\<close>

definition example_wide_backbone :: "(nat, nat) backbone" where
  "example_wide_backbone =
     \<lparr>x_hat = (\<lambda>pos img. \<lparr>t_chans = 128, t_height = 1, t_width = 1,
                            t_at = (\<lambda>c y z. real img)\<rparr>),
      running_rot = (\<lambda>pos. \<lparr>r_groups = 1, r_rows = 128, r_cols = 128,
                             r_at = (\<lambda>g d c. if d = c then 1 else 0)\<rparr>),
      bn1_out = (\<lambda>pos batch. pos)\<rparr>"

definition example_probe :: "nat \<Rightarrow> nat \<Rightarrow> (nat, nat) backbone" where
  "example_probe p w = example_backbone"

definition example_train_loader :: "(nat \<times> nat) loader" where
  "example_train_loader k = [(1, 1)]"

definition example_concept_loader :: "nat loader" where
  "example_concept_loader n = [7]"

text \<open>A validation loader of two batches of thirty images, each with its path.\<close>

definition example_val_paths :: "(nat \<times> string) list list" where
  "example_val_paths =
     [map (\<lambda>i. (i, ''img'' @ str_nat i @ ''.jpg'')) [0..<30],
      map (\<lambda>i. (i, ''img'' @ str_nat i @ ''.jpg'')) [30..<60]]"

definition example_args :: args where
  "example_args =
     \<lparr>arch = ''resnet'', whitened_layers = ''1,2'', depth = 18, epochs = 100, start_epoch = 0,
      lr = 1 / 10, resume = [], prefix = ''cw''\<rparr>"

text \<open>
  A checkpoint directory holding one file, written by an earlier run with prefix \<open>cw\<close>
  and layers \<open>1,2\<close> after its seventh epoch, without the optimizer entry.
\<close>

definition example_checkpoint :: "(nat, nat, nat) checkpoint" where
  "example_checkpoint =
     \<lparr>ck_epoch = Some 7, ck_arch = Some ''resnet'', ck_state_dict = Some (5, 6),
      ck_best_prec1 = Some (1 / 2), ck_optimizer = None\<rparr>"

definition example_files :: "string \<Rightarrow> (nat, nat, nat) checkpoint option" where
  "example_files path =
     (if path = ''./checkpoints/cw_1_2_checkpoint.pth.tar'' then Some example_checkpoint else None)"

definition example_state :: "(nat, nat, nat, nat) state" where
  "example_state =
     \<lparr>training = False, cw_modes = [(1, NORMAL), (2, NORMAL)], weights = 0, cw_state = 0,
      optimizer = 0, concept_iters = 0, trace = []\<rparr>"

section \<open>Properties\<close>

subsection \<open>The calibration schedule of \<open>train\<close>\<close>

lemma all_mode_idem: "all_mode m (all_mode m' ms) = all_mode m ms"
  by (induction ms) (auto simp: all_mode_def)

lemma all_mode_snd: "(l, m') \<in> set (all_mode m ms) \<Longrightarrow> m' = m"
  by (auto simp: all_mode_def)

lemma all_mode_fst: "map fst (all_mode m ms) = map fst ms"
  by (induction ms) (auto simp: all_mode_def)

lemma train_loop_snoc:
  "train_loop N pl cl i (bs @ [b]) s =
     train_batch N pl cl (i + length bs) b (train_loop N pl cl i bs s)"
  by (induction bs arbitrary: i s) simp_all

lemma subpass_training: "training (calibration_subpass N cl s)"
  by (simp add: calibration_subpass_def Let_def set_eval_def set_train_def change_mode_def
      forward_def split: list.splits)

lemma subpass_modes: "cw_modes (calibration_subpass N cl s) = all_mode NORMAL (cw_modes s)"
  by (simp add: calibration_subpass_def Let_def set_eval_def set_train_def change_mode_def
      forward_def all_mode_idem split: list.splits)

lemma subpass_iters: "concept_iters (calibration_subpass N cl s) = Suc (concept_iters s)"
  by (simp add: calibration_subpass_def Let_def set_eval_def set_train_def change_mode_def
      forward_def split: list.splits)

lemma subpass_trace:
  "trace (calibration_subpass N cl s) =
     trace s @ map (\<lambda>X. Forward ConceptBatch X False (all_mode CALIBRATE (cw_modes s)) False)
                 (take 1 (cl (concept_iters s)))"
  by (simp add: calibration_subpass_def Let_def set_eval_def set_train_def change_mode_def
      forward_def split: list.splits)

lemma step_training: "training (classification_step N pl b s) = training s"
  by (simp add: classification_step_def Let_def forward_def split: prod.splits)

lemma step_modes: "cw_modes (classification_step N pl b s) = cw_modes s"
  by (simp add: classification_step_def Let_def forward_def split: prod.splits)

lemma step_iters: "concept_iters (classification_step N pl b s) = concept_iters s"
  by (simp add: classification_step_def Let_def forward_def split: prod.splits)

lemma step_trace:
  "trace (classification_step N pl b s) =
     trace s @ [Forward TrainBatch (fst b) (training s) (cw_modes s) True, Backward (cw_modes s)]"
  by (simp add: classification_step_def Let_def forward_def split: prod.splits)

text \<open>
  After any number of batches of an epoch: the module is in training mode, one concept
  iterator was used for every second batch, the modes are those of the start or all
  NORMAL, and the trace is the one below.
\<close>

lemma train_loop_trace:
  assumes "training s"
  shows "training (train_loop N pl cl 0 bs s) \<and>
         concept_iters (train_loop N pl cl 0 bs s) = concept_iters s + length bs div 2 \<and>
         cw_modes (train_loop N pl cl 0 bs s) =
           (if length bs \<le> 1 then cw_modes s else all_mode NORMAL (cw_modes s)) \<and>
         trace (train_loop N pl cl 0 bs s) =
           trace s @ concat (map (\<lambda>i.
             (if (i + 1) mod 2 = 0
              then map (\<lambda>X. Forward ConceptBatch X False (all_mode CALIBRATE (cw_modes s)) False)
                     (take 1 (cl (concept_iters s + i div 2)))
              else []) @
             [Forward TrainBatch (fst (bs ! i)) True
                (if i = 0 then cw_modes s else all_mode NORMAL (cw_modes s)) True,
              Backward (if i = 0 then cw_modes s else all_mode NORMAL (cw_modes s))])
             [0..<length bs])"
proof (induction bs rule: rev_induct)
  case Nil
  then show ?case using assms by simp
next
  case (snoc b bs)
  let ?ev = "\<lambda>cs i.
             (if Suc i mod 2 = 0
              then map (\<lambda>X. Forward ConceptBatch X False (all_mode CALIBRATE (cw_modes s)) False)
                     (take 1 (cl (concept_iters s + i div 2)))
              else []) @
             [Forward TrainBatch (fst (cs ! i)) True
                (if i = 0 then cw_modes s else all_mode NORMAL (cw_modes s)) True,
              Backward (if i = 0 then cw_modes s else all_mode NORMAL (cw_modes s))]"
  have nth_eq: "map (?ev (bs @ [b])) [0..<length bs] = map (?ev bs) [0..<length bs]"
    by (rule map_cong) (simp_all add: nth_append)
  show ?case
  proof (cases "(length bs + 1) mod 2 = 0")
    case True
    then have ne: "length bs \<noteq> 0" by auto
    have a1: "Suc (length bs) div 2 = Suc (length bs div 2)" using True by presburger
    have a2: "length bs \<le> Suc 0 \<Longrightarrow> length bs div 2 = 0" by simp
    from True snoc a1 a2 ne show ?thesis
      by (simp add: train_loop_snoc train_batch_def step_training step_modes step_iters
          step_trace subpass_training subpass_modes subpass_iters subpass_trace all_mode_idem
          nth_eq)
  next
    case False
    then have b1: "Suc (length bs) div 2 = length bs div 2" by presburger
    have b2: "length bs \<le> Suc 0 \<Longrightarrow> length bs = 0" using False by presburger
    from False snoc b1 b2 show ?thesis
      by (auto simp add: train_loop_snoc train_batch_def step_training step_modes step_iters
          step_trace nth_eq cong: map_cong)
  qed
qed

text \<open>
  C1. In an epoch of \<open>train\<close>, right before the classification batch of every index \<open>i\<close>
  with \<open>(i + 1) mod 2 = 0\<close>, exactly one batch of the concept loader (the first of a new
  iterator) is forwarded in evaluation mode, with every whitening layer in CALIBRATE and
  gradient tracking off; the classification batch is then forwarded in training mode
  with every whitening layer in NORMAL. The trace is a function of the cadence, the
  batches and the starting modes only, not of the network's numbers.
\<close>

theorem train_interleaving:
  assumes "\<forall>n. concept_loader n \<noteq> []"
  shows "trace (train N plist train_loader concept_loader s) =
           trace s @ concat (map (\<lambda>i.
             (if (i + 1) mod 2 = 0
              then [Forward ConceptBatch (hd (concept_loader (concept_iters s + i div 2))) False
                      (all_mode CALIBRATE (cw_modes s)) False]
              else []) @
             [Forward TrainBatch (fst (train_loader ! i)) True
                (if i = 0 then cw_modes s else all_mode NORMAL (cw_modes s)) True,
              Backward (if i = 0 then cw_modes s else all_mode NORMAL (cw_modes s))])
             [0..<length train_loader])"
proof -
  have one: "\<And>n f. map f (take 1 (concept_loader n)) = [f (hd (concept_loader n))]"
  proof -
    fix n f
    from assms obtain X Xs where "concept_loader n = X # Xs"
      by (cases "concept_loader n") auto
    then show "map f (take 1 (concept_loader n)) = [f (hd (concept_loader n))]" by simp
  qed
  have st: "cw_modes (set_train s) = cw_modes s" "concept_iters (set_train s) = concept_iters s"
    "trace (set_train s) = trace s"
    by (simp_all add: set_train_def)
  have "training (set_train s)" by (simp add: set_train_def)
  from train_loop_trace [OF this, of N plist concept_loader train_loader]
  show ?thesis unfolding train_def st one by simp
qed

theorem train_interleaving_witness:
  "(\<forall>n. (\<lambda>n. [10 + n, 20 + n]) n \<noteq> ([] :: nat list)) \<and>
   trace (train example_net [FC] [(1, 5), (2, 6), (3, 7), (4, 8)] (\<lambda>n. [10 + n, 20 + n])
            example_state) =
     [Forward TrainBatch 1 True [(1, NORMAL), (2, NORMAL)] True, Backward [(1, NORMAL), (2, NORMAL)],
      Forward ConceptBatch 10 False [(1, CALIBRATE), (2, CALIBRATE)] False,
      Forward TrainBatch 2 True [(1, NORMAL), (2, NORMAL)] True, Backward [(1, NORMAL), (2, NORMAL)],
      Forward TrainBatch 3 True [(1, NORMAL), (2, NORMAL)] True, Backward [(1, NORMAL), (2, NORMAL)],
      Forward ConceptBatch 11 False [(1, CALIBRATE), (2, CALIBRATE)] False,
      Forward TrainBatch 4 True [(1, NORMAL), (2, NORMAL)] True, Backward [(1, NORMAL), (2, NORMAL)]]"
proof -
  have h: "\<forall>n. (\<lambda>n. [10 + n, 20 + n]) n \<noteq> ([] :: nat list)" by simp
  show ?thesis
    using train_interleaving [OF h, of example_net "[FC]" "[(1, 5), (2, 6), (3, 7), (4, 8)]"
        example_state]
    by (simp add: all_mode_def upt_rec example_state_def)
qed

subsection \<open>Mode isolation\<close>

lemma forward_eval_weights: "\<not> training s \<Longrightarrow> weights (forward N c g x s) = weights s"
  by (simp add: forward_def)

lemma forward_optimizer: "optimizer (forward N c g x s) = optimizer s"
  by (simp add: forward_def)

text \<open>
  C2. The calibration sub-pass of \<open>train\<close> leaves every parameter outside the whitening
  layers and the optimizer state exactly as they were.
\<close>

theorem calibration_subpass_frame:
  "weights (calibration_subpass N concept_loader s) = weights s \<and>
   optimizer (calibration_subpass N concept_loader s) = optimizer s"
  by (simp add: calibration_subpass_def Let_def set_eval_def set_train_def change_mode_def
      forward_def split: list.splits)

subsection \<open>The mode is NORMAL outside calibration\<close>

lemma all_normal_all_mode: "all_normal (all_mode NORMAL ms)"
  by (auto simp: all_mode_def)

lemma forward_modes: "cw_modes (forward N c g x s) = cw_modes s"
  by (simp add: forward_def)

lemma forward_trace: "trace (forward N c g x s) = trace s @ [Forward c x (training s) (cw_modes s) g]"
  by (simp add: forward_def)

lemma rotate_batches_modes:
  "rotate_batches N mean Xs s = Inr s1 \<Longrightarrow> cw_modes s1 = cw_modes s"
  by (induction Xs arbitrary: s)
     (auto simp: Let_def forward_modes split: option.splits if_splits)

lemma rotate_rounds_modes:
  "rotate_rounds N cl mean n s = Inr s1 \<Longrightarrow> cw_modes s1 = cw_modes s"
proof (induction n arbitrary: s)
  case 0
  then show ?case by simp
next
  case (Suc n)
  then show ?case
    by (auto split: sum.splits dest!: rotate_batches_modes)
qed

lemma rotate_cpt_modes:
  "rotate_cpt N cl mean s = Inr s1 \<Longrightarrow> cw_modes s1 = all_mode NORMAL (cw_modes s)"
  by (auto simp: rotate_cpt_def change_mode_def set_eval_def all_mode_idem
      split: sum.splits dest!: rotate_rounds_modes)

lemma rotate_batches_returns:
  assumes "\<forall>w. \<exists>R. running_rot_row N w = Some R \<and> length R = length mean"
  shows "\<exists>s1. rotate_batches N mean Xs s = Inr s1"
proof (induction Xs arbitrary: s)
  case Nil
  then show ?case by simp
next
  case (Cons X Xs)
  from assms obtain R where "running_rot_row N (cw_state (forward N RotateBatch False X s)) = Some R"
    "length R = length mean" by blast
  with Cons show ?case by (simp add: Let_def)
qed

lemma rotate_rounds_returns:
  assumes "\<forall>w. \<exists>R. running_rot_row N w = Some R \<and> length R = length mean"
  shows "\<exists>s1. rotate_rounds N cl mean n s = Inr s1"
proof (induction n arbitrary: s)
  case 0
  then show ?case by simp
next
  case (Suc n)
  from rotate_batches_returns [OF assms] obtain s1 where
    "rotate_batches N mean (cl (concept_iters s)) (s\<lparr>concept_iters := Suc (concept_iters s)\<rparr>) = Inr s1"
    by blast
  with Suc show ?case by simp
qed

lemma rotate_cpt_returns:
  assumes "\<forall>w. \<exists>R. running_rot_row N w = Some R \<and> length R = length mean"
  shows "\<exists>s1. rotate_cpt N cl mean s = Inr s1"
proof -
  from rotate_rounds_returns [OF assms] obtain s1 where
    "rotate_rounds N cl mean 10 (change_mode CALIBRATE (set_eval s)) = Inr s1" by blast
  then show ?thesis by (simp add: rotate_cpt_def)
qed

text \<open>The invariant of a run: the modes are NORMAL and so far every event is harmless.\<close>

lemma step_normal:
  assumes "all_normal (cw_modes s)" "\<forall>e \<in> set (trace s). classification_normal e"
  shows "all_normal (cw_modes (classification_step N pl b s)) \<and>
         (\<forall>e \<in> set (trace (classification_step N pl b s)). classification_normal e)"
  using assms by (simp add: step_modes step_trace)

lemma subpass_normal:
  assumes "\<forall>e \<in> set (trace s). classification_normal e"
  shows "all_normal (cw_modes (calibration_subpass N cl s)) \<and>
         (\<forall>e \<in> set (trace (calibration_subpass N cl s)). classification_normal e)"
proof -
  have "\<forall>e \<in> set (map (\<lambda>X. Forward ConceptBatch X False (all_mode CALIBRATE (cw_modes s)) False)
          (take 1 (cl (concept_iters s)))). classification_normal e"
    by auto
  with assms show ?thesis
    unfolding subpass_modes subpass_trace using all_normal_all_mode by auto
qed

lemma train_batch_normal:
  assumes "all_normal (cw_modes s)" "\<forall>e \<in> set (trace s). classification_normal e"
  shows "all_normal (cw_modes (train_batch N pl cl i b s)) \<and>
         (\<forall>e \<in> set (trace (train_batch N pl cl i b s)). classification_normal e)"
proof (cases "(i + 1) mod 2 = 0")
  case True
  from subpass_normal [OF assms(2), of N cl]
  have "all_normal (cw_modes (calibration_subpass N cl s))"
    "\<forall>e \<in> set (trace (calibration_subpass N cl s)). classification_normal e" by blast+
  from step_normal [OF this, of N pl b] True show ?thesis by (simp add: train_batch_def)
next
  case False
  from step_normal [OF assms, of N pl b] False show ?thesis by (simp add: train_batch_def)
qed

lemma train_loop_normal:
  assumes "all_normal (cw_modes s)" "\<forall>e \<in> set (trace s). classification_normal e"
  shows "all_normal (cw_modes (train_loop N pl cl i bs s)) \<and>
         (\<forall>e \<in> set (trace (train_loop N pl cl i bs s)). classification_normal e)"
  using assms
proof (induction bs arbitrary: i s)
  case Nil
  then show ?case by simp
next
  case (Cons b bs)
  from train_batch_normal [OF Cons.prems, of N pl cl i b]
  have "all_normal (cw_modes (train_batch N pl cl i b s))"
    "\<forall>e \<in> set (trace (train_batch N pl cl i b s)). classification_normal e" by blast+
  from Cons.IH [OF this] show ?case by simp
qed

lemma train_normal:
  assumes "all_normal (cw_modes s)" "\<forall>e \<in> set (trace s). classification_normal e"
  shows "all_normal (cw_modes (train N pl tb cl s)) \<and>
         (\<forall>e \<in> set (trace (train N pl tb cl s)). classification_normal e)"
proof -
  have "all_normal (cw_modes (set_train s))" "\<forall>e \<in> set (trace (set_train s)). classification_normal e"
    using assms by (simp_all add: set_train_def)
  from train_loop_normal [OF this] show ?thesis unfolding train_def .
qed

lemma fold_forward_normal:
  assumes "all_normal (cw_modes s)" "\<forall>e \<in> set (trace s). classification_normal e"
  shows "all_normal (cw_modes (fold (\<lambda>b. forward N ValBatch False (fst b)) vl s)) \<and>
         (\<forall>e \<in> set (trace (fold (\<lambda>b. forward N ValBatch False (fst b)) vl s)). classification_normal e)"
  using assms
proof (induction vl arbitrary: s)
  case Nil
  then show ?case by simp
next
  case (Cons b vl)
  have "all_normal (cw_modes (forward N ValBatch False (fst b) s))"
    "\<forall>e \<in> set (trace (forward N ValBatch False (fst b) s)). classification_normal e"
    using Cons.prems by (simp_all add: forward_modes forward_trace)
  from Cons.IH [OF this] show ?case by simp
qed

lemma validate_normal:
  assumes "all_normal (cw_modes s)" "\<forall>e \<in> set (trace s). classification_normal e"
  shows "all_normal (cw_modes (fst (validate N vl s))) \<and>
         (\<forall>e \<in> set (trace (fst (validate N vl s))). classification_normal e)"
proof -
  have "all_normal (cw_modes (set_eval s))" "\<forall>e \<in> set (trace (set_eval s)). classification_normal e"
    using assms by (simp_all add: set_eval_def)
  from fold_forward_normal [OF this] show ?thesis by (simp add: validate_def Let_def)
qed

lemma adjust_modes: "cw_modes (adjust_learning_rate N r e s) = cw_modes s"
  by (simp add: adjust_learning_rate_def Let_def)

lemma adjust_trace:
  "trace (adjust_learning_rate N r e s) = trace s @ [AdjustLR e (r * power_int (1 / 10) (e div 50))]"
  by (simp add: adjust_learning_rate_def Let_def)

lemma epoch_body_opts: "opts (epoch_body N pl tb cl vl e k P) = opts P"
  by (simp add: epoch_body_def Let_def split: prod.splits)

lemma epoch_body_normal:
  assumes "all_normal (cw_modes (model_state P))"
    "\<forall>e \<in> set (trace (model_state P)). classification_normal e"
  shows "all_normal (cw_modes (model_state (epoch_body N pl tb cl vl ep k P))) \<and>
         (\<forall>e \<in> set (trace (model_state (epoch_body N pl tb cl vl ep k P))). classification_normal e)"
proof -
  let ?s1 = "adjust_learning_rate N (lr (opts P)) ep (model_state P)"
  let ?s1' = "?s1\<lparr>trace := trace ?s1 @ [CallTrain ep]\<rparr>"
  let ?s2 = "train N pl (tb k) cl ?s1'"
  let ?s2' = "?s2\<lparr>trace := trace ?s2 @ [CallValidate ep]\<rparr>"
  let ?s3 = "fst (validate N vl ?s2')"
  have "all_normal (cw_modes ?s1')" "\<forall>e \<in> set (trace ?s1'). classification_normal e"
    using assms by (simp_all add: adjust_modes adjust_trace)
  from train_normal [OF this, of N pl "tb k" cl]
  have "all_normal (cw_modes ?s2')" "\<forall>e \<in> set (trace ?s2'). classification_normal e"
    by simp_all
  from validate_normal [OF this, of N vl]
  have "all_normal (cw_modes ?s3)" "\<forall>e \<in> set (trace ?s3). classification_normal e"
    by blast+
  then show ?thesis
    by (simp add: epoch_body_def Let_def split: prod.splits)
qed

lemma epoch_loop_opts: "opts (epoch_loop N pl tb cl vl st ks P) = opts P"
  by (induction ks arbitrary: P) (simp_all add: epoch_body_opts)

lemma epoch_loop_normal:
  assumes "all_normal (cw_modes (model_state P))"
    "\<forall>e \<in> set (trace (model_state P)). classification_normal e"
  shows "all_normal (cw_modes (model_state (epoch_loop N pl tb cl vl st ks P))) \<and>
         (\<forall>e \<in> set (trace (model_state (epoch_loop N pl tb cl vl st ks P))). classification_normal e)"
  using assms
proof (induction ks arbitrary: P)
  case Nil
  then show ?case by simp
next
  case (Cons k ks)
  from epoch_body_normal [OF Cons.prems, of N pl tb cl vl "st + int k" k]
  have "all_normal (cw_modes (model_state (epoch_body N pl tb cl vl (st + int k) k P)))"
    "\<forall>e \<in> set (trace (model_state (epoch_body N pl tb cl vl (st + int k) k P))). classification_normal e"
    by blast+
  from Cons.IH [OF this] show ?case by simp
qed

lemma resume_checkpoint_modes:
  "resume_checkpoint P = Inr P1 \<Longrightarrow>
     cw_modes (model_state P1) = cw_modes (model_state P) \<and>
     trace (model_state P1) = trace (model_state P)"
  by (auto simp: resume_checkpoint_def Let_def load_state_dict_def
      split: if_splits option.splits)

text \<open>What \<open>main\<close> is when it returns: the pieces of its definition, named.\<close>

lemma main_Inr:
  assumes "main N probe a fs tb cl vl vl2 = Inr P"
  obtains whitened plist P0 where
    "int_list (split_on CHR '','' (whitened_layers a)) = Some whitened"
    "get_param_list (layers N) whitened = Inr plist"
    "resume_checkpoint (initial_process N
        (a\<lparr>prefix := prefix a @ ''_'' @ join_with ''_'' (split_on CHR '','' (whitened_layers a))\<rparr>)
        whitened plist fs) = Inr P0"
    "opts P = opts P0"
    "model_state P =
       set_eval ((model_state (epoch_loop N plist tb cl vl (start_epoch (opts P0)) [0..<5] P0))
         \<lparr>trace := trace (model_state (epoch_loop N plist tb cl vl (start_epoch (opts P0)) [0..<5] P0))
                    @ [CallConceptTop5]\<rparr>)"
  using assms
  by (auto simp: main_def Let_def epoch_loop_opts split: if_splits option.splits sum.splits)

text \<open>
  C3. A whitening layer starts in NORMAL; the calibration sub-pass of \<open>train\<close> and
  \<open>rotate_cpt\<close> leave every layer in NORMAL when they return; in a run of \<open>main\<close>, as in
  any epoch of \<open>train\<close> and any \<open>validate\<close> that starts with the layers in NORMAL, no
  classification forward or backward pass sees a layer in CALIBRATE; and the mode is not
  part of what a checkpoint stores or restores.
\<close>

theorem mode_normal_outside_calibration:
  "all_normal (cw_modes (ResidualNet N whitened plist rate)) \<and>
   all_normal (cw_modes (calibration_subpass N concept_loader s)) \<and>
   (\<forall>s1. rotate_cpt N concept_loader mean s = Inr s1 \<longrightarrow> all_normal (cw_modes s1)) \<and>
   (all_normal (cw_modes s) \<and> (\<forall>e \<in> set (trace s). classification_normal e) \<longrightarrow>
      all_normal (cw_modes (train N plist train_loader concept_loader s)) \<and>
      (\<forall>e \<in> set (trace (train N plist train_loader concept_loader s)). classification_normal e) \<and>
      all_normal (cw_modes (fst (validate N val_loader s))) \<and>
      (\<forall>e \<in> set (trace (fst (validate N val_loader s))). classification_normal e)) \<and>
   (\<forall>P. main N probe a fs train_batches concept_loader val_loader val_paths = Inr P \<longrightarrow>
      all_normal (cw_modes (model_state P)) \<and>
      (\<forall>e \<in> set (trace (model_state P)). classification_normal e)) \<and>
   state_dict (change_mode m s) = state_dict s \<and>
   cw_modes (load_state_dict sd s) = cw_modes s \<and>
   (\<forall>Q Q1. resume_checkpoint Q = Inr Q1 \<longrightarrow> cw_modes (model_state Q1) = cw_modes (model_state Q))"
proof -
  have c1: "all_normal (cw_modes (ResidualNet N whitened plist rate))" for whitened plist rate
    by (simp add: ResidualNet_def)
  have c2: "all_normal (cw_modes (calibration_subpass N concept_loader s))"
    unfolding subpass_modes by (rule all_normal_all_mode)
  have c3: "\<forall>s1. rotate_cpt N concept_loader mean s = Inr s1 \<longrightarrow> all_normal (cw_modes s1)"
    using rotate_cpt_modes [of N concept_loader mean s] all_normal_all_mode by metis
  have c4: "all_normal (cw_modes s) \<and> (\<forall>e \<in> set (trace s). classification_normal e) \<longrightarrow>
      all_normal (cw_modes (train N plist train_loader concept_loader s)) \<and>
      (\<forall>e \<in> set (trace (train N plist train_loader concept_loader s)). classification_normal e) \<and>
      all_normal (cw_modes (fst (validate N val_loader s))) \<and>
      (\<forall>e \<in> set (trace (fst (validate N val_loader s))). classification_normal e)"
    using train_normal [of s N plist train_loader concept_loader] validate_normal [of s N val_loader]
    by blast
  have c5: "all_normal (cw_modes (model_state P)) \<and>
      (\<forall>e \<in> set (trace (model_state P)). classification_normal e)"
    if run: "main N probe a fs train_batches concept_loader val_loader val_paths = Inr P" for P
  proof -
    from run obtain wl pl P0 where
      res: "resume_checkpoint (initial_process N
          (a\<lparr>prefix := prefix a @ ''_'' @ join_with ''_'' (split_on CHR '','' (whitened_layers a))\<rparr>)
          wl pl fs) = Inr P0"
      and ms: "model_state P =
         set_eval ((model_state (epoch_loop N pl train_batches concept_loader val_loader (start_epoch (opts P0)) [0..<5] P0))
           \<lparr>trace := trace (model_state (epoch_loop N pl train_batches concept_loader val_loader (start_epoch (opts P0)) [0..<5] P0))
                      @ [CallConceptTop5]\<rparr>)"
      by (rule main_Inr)
    from resume_checkpoint_modes [OF res]
    have "all_normal (cw_modes (model_state P0))" "\<forall>e \<in> set (trace (model_state P0)). classification_normal e"
      by (simp_all add: initial_process_def ResidualNet_def)
    from epoch_loop_normal [OF this, of N pl train_batches concept_loader val_loader "start_epoch (opts P0)" "[0..<5]"]
    show ?thesis unfolding ms by (simp add: set_eval_def)
  qed
  have c6: "state_dict (change_mode m s) = state_dict s"
    by (simp add: state_dict_def change_mode_def)
  have c7: "cw_modes (load_state_dict sd s) = cw_modes s"
    by (simp add: load_state_dict_def)
  have c8: "\<forall>Q Q1. resume_checkpoint Q = Inr Q1 \<longrightarrow> cw_modes (model_state Q1) = cw_modes (model_state Q)"
    using resume_checkpoint_modes by blast
  from c1 c2 c3 c4 c5 c6 c7 c8 show ?thesis by blast
qed

lemma example_main_returns:
  "\<exists>P. main example_net (\<lambda>p w. example_backbone) example_args (\<lambda>p. None) (\<lambda>k. [(1, 1)])
          (\<lambda>n. [7]) [(2, 2)] [[(3, ''a.jpg'')]] = Inr P"
  by (simp add: main_def Let_def example_args_def example_net_def py_int_def strip_def
      is_space_def digit_val_def get_param_list_def locate_def seq_index_def
      resume_checkpoint_def initial_process_def)

lemma example_rotate_returns:
  "\<exists>s1. rotate_cpt example_net (\<lambda>n. [7]) [3, 4] example_state = Inr s1"
  by (rule rotate_cpt_returns) (simp add: example_net_def)

theorem mode_normal_outside_calibration_witness:
  "(\<exists>s1. rotate_cpt example_net (\<lambda>n. [7]) [3, 4] example_state = Inr s1 \<and> all_normal (cw_modes s1)) \<and>
   cw_modes example_state = [(1, NORMAL), (2, NORMAL)] \<and> trace example_state = [] \<and>
   list_all (\<lambda>lm. snd lm = NORMAL)
     (cw_modes (train example_net [FC] [(1, 1), (2, 2)] (\<lambda>n. [7]) example_state)) \<and>
   list_all (\<lambda>e. classification_normal e)
     (trace (train example_net [FC] [(1, 1), (2, 2)] (\<lambda>n. [7]) example_state)) \<and>
   (\<exists>P. main example_net (\<lambda>p w. example_backbone) example_args (\<lambda>p. None) (\<lambda>k. [(1, 1)])
          (\<lambda>n. [7]) [(2, 2)] [[(3, ''a.jpg'')]] = Inr P \<and>
        all_normal (cw_modes (model_state P)) \<and>
        (\<forall>e \<in> set (trace (model_state P)). classification_normal e))"
proof -
  note inst = mode_normal_outside_calibration [where N = example_net and whitened = "[1, 2]"
      and plist = "[FC]" and rate = 1 and concept_loader = "\<lambda>n. [7]" and s = example_state
      and mean = "[3, 4]" and train_loader = "[(1, 1), (2, 2)]" and val_loader = "[(2, 2)]"
      and probe = "\<lambda>p w. example_backbone" and a = example_args and fs = "\<lambda>p. None"
      and train_batches = "\<lambda>k. [(1, 1)]" and val_paths = "[[(3, ''a.jpg'')]]" and m = 1
      and sd = "(0, 0)"]
  have h: "all_normal (cw_modes example_state) \<and>
           (\<forall>e \<in> set (trace example_state). classification_normal e)"
    by (simp add: example_state_def)
  from example_rotate_returns obtain s2 where
    r: "rotate_cpt example_net (\<lambda>n. [7]) [3, 4] example_state = Inr s2" by blast
  from example_main_returns obtain P where
    m: "main example_net (\<lambda>p w. example_backbone) example_args (\<lambda>p. None) (\<lambda>k. [(1, 1)])
          (\<lambda>n. [7]) [(2, 2)] [[(3, ''a.jpg'')]] = Inr P" by blast
  from inst have "all_normal (cw_modes s2)"
    using r by (elim conjE) blast
  with r have c3: "\<exists>s1. rotate_cpt example_net (\<lambda>n. [7]) [3, 4] example_state = Inr s1 \<and>
      all_normal (cw_modes s1)" by blast
  note c4 = inst [THEN conjunct2, THEN conjunct2, THEN conjunct2, THEN conjunct1, THEN mp, OF h]
  note c5 = inst [THEN conjunct2, THEN conjunct2, THEN conjunct2, THEN conjunct2, THEN conjunct1,
      THEN spec, THEN mp, OF m]
  have c5': "\<exists>P. main example_net (\<lambda>p w. example_backbone) example_args (\<lambda>p. None)
          (\<lambda>k. [(1, 1)]) (\<lambda>n. [7]) [(2, 2)] [[(3, ''a.jpg'')]] = Inr P \<and>
        all_normal (cw_modes (model_state P)) \<and>
        (\<forall>e \<in> set (trace (model_state P)). classification_normal e)"
    by (intro exI [of _ P] conjI) (rule m, rule c5 [THEN conjunct1], rule c5 [THEN conjunct2])
  note c4a = c4 [THEN conjunct1] and c4b = c4 [THEN conjunct2, THEN conjunct1]
  have e1: "cw_modes example_state = [(1, NORMAL), (2, NORMAL)]" and e2: "trace example_state = []"
    by (simp_all add: example_state_def)
  show ?thesis
    unfolding list_all_iff
    by (intro conjI) (rule c3, rule e1, rule e2, rule c4a, rule c4b, rule c5')
qed

subsection \<open>The epoch loop of \<open>main\<close>\<close>

lemma train_batch_calls:
  "filter (\<lambda>e. is_call e) (trace (train_batch N pl cl i b s)) = filter (\<lambda>e. is_call e) (trace s)"
  by (simp add: train_batch_def step_trace subpass_trace filter_empty_conv)

lemma train_loop_calls:
  "filter (\<lambda>e. is_call e) (trace (train_loop N pl cl i bs s)) = filter (\<lambda>e. is_call e) (trace s)"
  by (induction bs arbitrary: i s) (simp_all add: train_batch_calls)

lemma train_calls:
  "filter (\<lambda>e. is_call e) (trace (train N pl tb cl s)) = filter (\<lambda>e. is_call e) (trace s)"
  by (simp add: train_def train_loop_calls set_train_def)

lemma fold_forward_calls:
  "filter (\<lambda>e. is_call e) (trace (fold (\<lambda>b. forward N c g (fst b)) vl s)) =
     filter (\<lambda>e. is_call e) (trace s)"
  by (induction vl arbitrary: s) (simp_all add: forward_trace)

lemma validate_calls:
  "filter (\<lambda>e. is_call e) (trace (fst (validate N vl s))) = filter (\<lambda>e. is_call e) (trace s)"
  by (simp add: validate_def Let_def fold_forward_calls set_eval_def)

lemma epoch_body_calls:
  "filter (\<lambda>e. is_call e) (trace (model_state (epoch_body N pl tb cl vl ep k P))) =
     filter (\<lambda>e. is_call e) (trace (model_state P)) @
     [AdjustLR ep (lr (opts P) * power_int (1 / 10) (ep div 50)), CallTrain ep, CallValidate ep,
      SaveCheckpoint (ep + 1)]"
proof -
  let ?s1 = "adjust_learning_rate N (lr (opts P)) ep (model_state P)"
  let ?s2 = "train N pl (tb k) cl (?s1\<lparr>trace := trace ?s1 @ [CallTrain ep]\<rparr>)"
  let ?s3 = "fst (validate N vl (?s2\<lparr>trace := trace ?s2 @ [CallValidate ep]\<rparr>))"
  have "trace (model_state (epoch_body N pl tb cl vl ep k P)) = trace ?s3 @ [SaveCheckpoint (ep + 1)]"
    by (simp add: epoch_body_def Let_def split: prod.splits)
  then show ?thesis
    by (simp add: validate_calls train_calls adjust_trace)
qed

lemma epoch_loop_calls:
  "filter (\<lambda>e. is_call e) (trace (model_state (epoch_loop N pl tb cl vl st ks P))) =
     filter (\<lambda>e. is_call e) (trace (model_state P)) @
     concat (map (\<lambda>k. [AdjustLR (st + int k) (lr (opts P) * power_int (1 / 10) ((st + int k) div 50)),
                        CallTrain (st + int k), CallValidate (st + int k),
                        SaveCheckpoint (st + int k + 1)]) ks)"
  by (induction ks arbitrary: P) (simp_all add: epoch_body_calls epoch_body_opts)

lemma resume_checkpoint_lr: "resume_checkpoint P = Inr P1 \<Longrightarrow> lr (opts P1) = lr (opts P)"
  by (auto simp: resume_checkpoint_def Let_def split: if_splits option.splits)

lemma resume_checkpoint_epochs:
  "resume_checkpoint (P\<lparr>opts := (opts P)\<lparr>epochs := n\<rparr>\<rparr>) =
     (case resume_checkpoint P of Inl e \<Rightarrow> Inl e | Inr P1 \<Rightarrow> Inr (P1\<lparr>opts := (opts P1)\<lparr>epochs := n\<rparr>\<rparr>))"
  by (simp add: resume_checkpoint_def Let_def split: option.splits)

lemma epoch_body_epochs:
  "epoch_body N pl tb cl vl ep k (P\<lparr>opts := (opts P)\<lparr>epochs := n\<rparr>\<rparr>) =
     (epoch_body N pl tb cl vl ep k P)\<lparr>opts := (opts P)\<lparr>epochs := n\<rparr>\<rparr>"
  by (simp add: epoch_body_def Let_def split: prod.splits)

lemma epoch_loop_epochs:
  "epoch_loop N pl tb cl vl st ks (P\<lparr>opts := (opts P)\<lparr>epochs := n\<rparr>\<rparr>) =
     (epoch_loop N pl tb cl vl st ks P)\<lparr>opts := (opts P)\<lparr>epochs := n\<rparr>\<rparr>"
proof (induction ks arbitrary: P)
  case Nil
  then show ?case by simp
next
  case (Cons k ks)
  have "opts (epoch_body N pl tb cl vl (st + int k) k P) = opts P" by (rule epoch_body_opts)
  with Cons [of "epoch_body N pl tb cl vl (st + int k) k P"] show ?case
    by (simp add: epoch_body_epochs)
qed

lemma epoch_body_files:
  "\<exists>ck. files (epoch_body N pl tb cl vl ep k P)
           (''./checkpoints/'' @ prefix (opts P) @ ''_checkpoint.pth.tar'') = Some ck \<and>
        ck_epoch ck = Some (ep + 1)"
  by (simp add: epoch_body_def Let_def save_checkpoint_def split: prod.splits)

lemma epoch_loop_files:
  "ks \<noteq> [] \<Longrightarrow>
     \<exists>ck. files (epoch_loop N pl tb cl vl st ks P)
            (''./checkpoints/'' @ prefix (opts P) @ ''_checkpoint.pth.tar'') = Some ck \<and>
          ck_epoch ck = Some (st + int (last ks) + 1)"
proof (induction ks arbitrary: P)
  case Nil
  then show ?case by simp
next
  case (Cons k ks)
  show ?case
  proof (cases "ks = []")
    case True
    with epoch_body_files [of N pl tb cl vl "st + int k" k P] show ?thesis by simp
  next
    case False
    from Cons.IH [OF False, of "epoch_body N pl tb cl vl (st + int k) k P"] False
    show ?thesis by (simp add: epoch_body_opts)
  qed
qed

lemma main_files:
  assumes "main N probe a fs tb cl vl vp = Inr P"
  obtains plist P0 where
    "opts P = opts P0"
    "files P = files (epoch_loop N plist tb cl vl (start_epoch (opts P0)) [0..<5] P0)"
  using assms
  by (auto simp: main_def Let_def epoch_loop_opts split: if_splits option.splits sum.splits)

lemma main_epochs:
  "main N probe (a\<lparr>epochs := n\<rparr>) fs tb cl vl vp =
     (case main N probe a fs tb cl vl vp of
        Inl e \<Rightarrow> Inl e
      | Inr P \<Rightarrow> Inr (P\<lparr>opts := (opts P)\<lparr>epochs := n\<rparr>\<rparr>))"
proof -
  have ip: "initial_process N (b\<lparr>epochs := n\<rparr>) wl pl fs =
      (initial_process N b wl pl fs)\<lparr>opts := (opts (initial_process N b wl pl fs))\<lparr>epochs := n\<rparr>\<rparr>"
    for b wl pl
    by (simp add: initial_process_def)
  have upd: "(b\<lparr>epochs := n\<rparr>)\<lparr>prefix := x\<rparr> = (b\<lparr>prefix := x\<rparr>)\<lparr>epochs := n\<rparr>" for b :: args and x
    by simp
  show ?thesis
    unfolding main_def Let_def
    by (simp only: upd ip resume_checkpoint_epochs)
       (simp add: epoch_loop_epochs epoch_loop_opts split: sum.splits option.splits)
qed

text \<open>
  C10. A run of \<open>main\<close> that gets past its set-up trains exactly the five epochs
  \<open>start_epoch\<close> to \<open>start_epoch + 4\<close>, each followed by a validation and a saved
  checkpoint, and then calls \<open>print_concept_top5\<close> once; the option \<open>--epochs\<close> changes
  nothing of the run but its own stored value; the checkpoint file of the run holds the
  epoch counter \<open>start_epoch + 5\<close> at the end.
\<close>

theorem main_five_epochs:
  assumes "main N probe a fs train_batches concept_loader val_loader val_paths = Inr P"
  shows "filter (\<lambda>e. is_call e) (trace (model_state P)) =
           concat (map (\<lambda>k. [AdjustLR (start_epoch (opts P) + int k)
                                 (lr a * power_int (1 / 10) ((start_epoch (opts P) + int k) div 50)),
                               CallTrain (start_epoch (opts P) + int k),
                               CallValidate (start_epoch (opts P) + int k),
                               SaveCheckpoint (start_epoch (opts P) + int k + 1)]) [0..<5])
           @ [CallConceptTop5] \<and>
         main N probe (a\<lparr>epochs := n\<rparr>) fs train_batches concept_loader val_loader val_paths =
           Inr (P\<lparr>opts := (opts P)\<lparr>epochs := n\<rparr>\<rparr>) \<and>
         (\<exists>ck. files P (''./checkpoints/'' @ prefix (opts P) @ ''_checkpoint.pth.tar'') = Some ck \<and>
               ck_epoch ck = Some (start_epoch (opts P) + 5))"
proof -
  from assms obtain wl pl P0 where
    res: "resume_checkpoint (initial_process N
        (a\<lparr>prefix := prefix a @ ''_'' @ join_with ''_'' (split_on CHR '','' (whitened_layers a))\<rparr>)
        wl pl fs) = Inr P0"
    and op: "opts P = opts P0"
    and ms: "model_state P =
       set_eval ((model_state (epoch_loop N pl train_batches concept_loader val_loader (start_epoch (opts P0)) [0..<5] P0))
         \<lparr>trace := trace (model_state (epoch_loop N pl train_batches concept_loader val_loader (start_epoch (opts P0)) [0..<5] P0))
                    @ [CallConceptTop5]\<rparr>)"
    by (rule main_Inr)
  from resume_checkpoint_modes [OF res] have t0: "trace (model_state P0) = []"
    by (simp add: initial_process_def ResidualNet_def)
  from resume_checkpoint_lr [OF res] have l0: "lr (opts P0) = lr a"
    by (simp add: initial_process_def)
  have "filter (\<lambda>e. is_call e) (trace (model_state P)) =
      filter (\<lambda>e. is_call e)
        (trace (model_state (epoch_loop N pl train_batches concept_loader val_loader
           (start_epoch (opts P0)) [0..<5] P0))) @ [CallConceptTop5]"
    unfolding ms by (simp add: set_eval_def)
  then have first: "filter (\<lambda>e. is_call e) (trace (model_state P)) =
           concat (map (\<lambda>k. [AdjustLR (start_epoch (opts P) + int k)
                                 (lr a * power_int (1 / 10) ((start_epoch (opts P) + int k) div 50)),
                               CallTrain (start_epoch (opts P) + int k),
                               CallValidate (start_epoch (opts P) + int k),
                               SaveCheckpoint (start_epoch (opts P) + int k + 1)]) [0..<5])
           @ [CallConceptTop5]"
    unfolding epoch_loop_calls t0 l0 op by simp
  have second: "main N probe (a\<lparr>epochs := n\<rparr>) fs train_batches concept_loader val_loader val_paths =
           Inr (P\<lparr>opts := (opts P)\<lparr>epochs := n\<rparr>\<rparr>)"
    unfolding main_epochs assms by simp
  from assms obtain pl1 P1 where
    o1: "opts P = opts P1"
    and f1: "files P = files (epoch_loop N pl1 train_batches concept_loader val_loader
                               (start_epoch (opts P1)) [0..<5] P1)"
    by (rule main_files)
  have "[0..<5] \<noteq> []" by simp
  from epoch_loop_files [OF this, of N pl1 train_batches concept_loader val_loader
      "start_epoch (opts P1)" P1]
  have third: "\<exists>ck. files P (''./checkpoints/'' @ prefix (opts P) @ ''_checkpoint.pth.tar'') = Some ck \<and>
               ck_epoch ck = Some (start_epoch (opts P) + 5)"
    unfolding f1 o1 by (auto simp: add.commute)
  from first second third show ?thesis by blast
qed

theorem main_five_epochs_witness:
  "\<exists>P. main example_net (\<lambda>p w. example_backbone) example_args (\<lambda>p. None) (\<lambda>k. [(1, 1)])
          (\<lambda>n. [7]) [(2, 2)] [[(3, ''a.jpg'')]] = Inr P \<and>
        start_epoch (opts P) = 0 \<and>
        filter (\<lambda>e. is_call e) (trace (model_state P)) =
          [AdjustLR 0 (1 / 10), CallTrain 0, CallValidate 0, SaveCheckpoint 1,
           AdjustLR 1 (1 / 10), CallTrain 1, CallValidate 1, SaveCheckpoint 2,
           AdjustLR 2 (1 / 10), CallTrain 2, CallValidate 2, SaveCheckpoint 3,
           AdjustLR 3 (1 / 10), CallTrain 3, CallValidate 3, SaveCheckpoint 4,
           AdjustLR 4 (1 / 10), CallTrain 4, CallValidate 4, SaveCheckpoint 5,
           CallConceptTop5] \<and>
        main example_net (\<lambda>p w. example_backbone) (example_args\<lparr>epochs := 1\<rparr>) (\<lambda>p. None)
          (\<lambda>k. [(1, 1)]) (\<lambda>n. [7]) [(2, 2)] [[(3, ''a.jpg'')]] =
          Inr (P\<lparr>opts := (opts P)\<lparr>epochs := 1\<rparr>\<rparr>)"
proof -
  from example_main_returns obtain P where
    m: "main example_net (\<lambda>p w. example_backbone) example_args (\<lambda>p. None) (\<lambda>k. [(1, 1)])
          (\<lambda>n. [7]) [(2, 2)] [[(3, ''a.jpg'')]] = Inr P" by blast
  from m obtain wl pl P0 where
    res: "resume_checkpoint (initial_process example_net
        (example_args\<lparr>prefix := prefix example_args @ ''_'' @
           join_with ''_'' (split_on CHR '','' (whitened_layers example_args))\<rparr>)
        wl pl (\<lambda>p. None)) = Inr P0"
    and op: "opts P = opts P0"
    by (rule main_Inr)
  from res have "start_epoch (opts P0) = 0"
    by (auto simp: resume_checkpoint_def initial_process_def example_args_def)
  with op have se: "start_epoch (opts P) = 0" by simp
  have lr: "lr example_args = 1 / 10" by (simp add: example_args_def)
  from main_five_epochs [OF m, of 1, THEN conjunct1]
    main_five_epochs [OF m, of 1, THEN conjunct2, THEN conjunct1] se lr
  have "filter (\<lambda>e. is_call e) (trace (model_state P)) =
          [AdjustLR 0 (1 / 10), CallTrain 0, CallValidate 0, SaveCheckpoint 1,
           AdjustLR 1 (1 / 10), CallTrain 1, CallValidate 1, SaveCheckpoint 2,
           AdjustLR 2 (1 / 10), CallTrain 2, CallValidate 2, SaveCheckpoint 3,
           AdjustLR 3 (1 / 10), CallTrain 3, CallValidate 3, SaveCheckpoint 4,
           AdjustLR 4 (1 / 10), CallTrain 4, CallValidate 4, SaveCheckpoint 5,
           CallConceptTop5]"
    and "main example_net (\<lambda>p w. example_backbone) (example_args\<lparr>epochs := 1\<rparr>) (\<lambda>p. None)
          (\<lambda>k. [(1, 1)]) (\<lambda>n. [7]) [(2, 2)] [[(3, ''a.jpg'')]] =
          Inr (P\<lparr>opts := (opts P)\<lparr>epochs := 1\<rparr>\<rparr>)"
    by (simp_all add: upt_rec)
  with m se show ?thesis by blast
qed

subsection \<open>Resuming from a checkpoint\<close>

text \<open>
  C7. When the checkpoint read at resume has no \<open>optimizer\<close> entry, the epoch counter,
  the best score and the model state are loaded from it, the optimizer keeps the state
  it was created with, and the resume returns; when the entry is there, the optimizer
  state is the one of the checkpoint.
\<close>

theorem resume_optimizer_entry:
  assumes "resume (opts P) \<noteq> []"
    and "files P (resume_path (resume (opts P)) (whitened_layers (opts P))) = Some ck"
    and "ck_epoch ck = Some e" and "ck_best_prec1 ck = Some b" and "ck_state_dict ck = Some sd"
  shows "\<exists>P1. resume_checkpoint P = Inr P1 \<and>
           start_epoch (opts P1) = e \<and> best_prec1 P1 = b \<and>
           state_dict (model_state P1) = sd \<and>
           optimizer (model_state P1) =
             (case ck_optimizer ck of None \<Rightarrow> optimizer (model_state P) | Some od \<Rightarrow> od)"
  using assms
  by (simp add: resume_checkpoint_def Let_def state_dict_def load_state_dict_def
      split: option.splits)

theorem resume_optimizer_entry_witness:
  "resume (example_args\<lparr>resume := ''./checkpoints/cw_checkpoint.pth.tar''\<rparr>) \<noteq> [] \<and>
   example_files (resume_path ''./checkpoints/cw_checkpoint.pth.tar'' ''1,2'') = Some example_checkpoint \<and>
   ck_optimizer example_checkpoint = None \<and>
   (\<exists>P1. resume_checkpoint
           (initial_process example_net
              (example_args\<lparr>resume := ''./checkpoints/cw_checkpoint.pth.tar''\<rparr>) [1, 2] [FC]
              example_files) = Inr P1 \<and>
         start_epoch (opts P1) = 7 \<and> best_prec1 P1 = 1 / 2 \<and>
         state_dict (model_state P1) = (5, 6) \<and>
         optimizer (model_state P1) = init_optimizer example_net [FC] (1 / 10))"
proof -
  let ?a = "example_args\<lparr>resume := ''./checkpoints/cw_checkpoint.pth.tar''\<rparr>"
  let ?P = "initial_process example_net ?a [1, 2] [FC] example_files"
  have h1: "resume (opts ?P) \<noteq> []" by (simp add: initial_process_def)
  have p: "resume_path ''./checkpoints/cw_checkpoint.pth.tar'' ''1,2'' =
      ''./checkpoints/cw_1_2_checkpoint.pth.tar''"
    by (simp add: resume_path_def)
  have h2: "files ?P (resume_path (resume (opts ?P)) (whitened_layers (opts ?P))) = Some example_checkpoint"
    by (simp add: initial_process_def example_args_def p example_files_def)
  have h3: "ck_epoch example_checkpoint = Some 7" "ck_best_prec1 example_checkpoint = Some (1 / 2)"
    "ck_state_dict example_checkpoint = Some (5, 6)" "ck_optimizer example_checkpoint = None"
    by (simp_all add: example_checkpoint_def)
  have o: "optimizer (model_state ?P) = init_optimizer example_net [FC] (1 / 10)"
    by (simp add: initial_process_def ResidualNet_def example_args_def)
  from resume_optimizer_entry [OF h1 h2 h3(1) h3(2) h3(3)] h3(4) o
  have "\<exists>P1. resume_checkpoint ?P = Inr P1 \<and>
         start_epoch (opts P1) = 7 \<and> best_prec1 P1 = 1 / 2 \<and>
         state_dict (model_state P1) = (5, 6) \<and>
         optimizer (model_state P1) = init_optimizer example_net [FC] (1 / 10)"
    by simp
  moreover have "resume ?a \<noteq> []" by simp
  moreover have "example_files (resume_path ''./checkpoints/cw_checkpoint.pth.tar'' ''1,2'') =
      Some example_checkpoint"
    by (simp add: p example_files_def)
  ultimately show ?thesis using h3(4) by blast
qed

text \<open>
  C6, as the script has it. \<open>main\<close> looks for the checkpoint at the path it derives from
  the option (line 136), not at the path given. When no file is at the derived path,
  the resume prints one line and returns: the epoch counter keeps the value of
  \<open>--start-epoch\<close> and \<open>best_prec1\<close> its initial 0.
\<close>

lemma epoch_body_stdout: "stdout (epoch_body N pl tb cl vl e k P) = stdout P"
  by (simp add: epoch_body_def Let_def split: prod.splits)

lemma epoch_loop_stdout: "stdout (epoch_loop N pl tb cl vl st ks P) = stdout P"
  by (induction ks arbitrary: P) (simp_all add: epoch_body_stdout)

lemma main_stdout:
  assumes "main N probe a fs tb cl vl vp = Inr P"
  obtains whitened plist P0 where
    "resume_checkpoint (initial_process N
        (a\<lparr>prefix := prefix a @ ''_'' @ join_with ''_'' (split_on CHR '','' (whitened_layers a))\<rparr>)
        whitened plist fs) = Inr P0"
    "opts P = opts P0" "stdout P = stdout P0"
  using assms
  by (auto simp: main_def Let_def epoch_loop_opts epoch_loop_stdout
      split: if_splits option.splits sum.splits)

theorem resume_no_checkpoint:
  assumes "resume a \<noteq> []"
    and "fs (resume_path (resume a) (whitened_layers a)) = None"
  shows "(\<exists>P1. resume_checkpoint (initial_process N a whitened plist fs) = Inr P1 \<and>
            start_epoch (opts P1) = start_epoch a \<and> best_prec1 P1 = 0 \<and>
            model_state P1 = ResidualNet N whitened plist (lr a) \<and>
            stdout P1 = [''=> no checkpoint found at '' @
                           quoted (resume_path (resume a) (whitened_layers a))]) \<and>
         (\<forall>P. main N probe a fs train_batches concept_loader val_loader val_paths = Inr P \<longrightarrow>
            start_epoch (opts P) = start_epoch a \<and>
            stdout P = [''=> no checkpoint found at '' @
                          quoted (resume_path (resume a) (whitened_layers a))])"
proof -
  have r: "\<exists>P1. resume_checkpoint (initial_process N b wl pl fs) = Inr P1 \<and>
            start_epoch (opts P1) = start_epoch b \<and> best_prec1 P1 = 0 \<and>
            model_state P1 = ResidualNet N wl pl (lr b) \<and>
            stdout P1 = [''=> no checkpoint found at '' @
                           quoted (resume_path (resume b) (whitened_layers b))]"
    if "resume b \<noteq> []" "fs (resume_path (resume b) (whitened_layers b)) = None" for b wl pl
    using that by (simp add: resume_checkpoint_def Let_def initial_process_def)
  have m: "start_epoch (opts P) = start_epoch a \<and>
            stdout P = [''=> no checkpoint found at '' @
                          quoted (resume_path (resume a) (whitened_layers a))]"
    if run: "main N probe a fs train_batches concept_loader val_loader val_paths = Inr P" for P
  proof -
    let ?a1 = "a\<lparr>prefix := prefix a @ ''_'' @ join_with ''_'' (split_on CHR '','' (whitened_layers a))\<rparr>"
    from run obtain wl pl P0 where
      res: "resume_checkpoint (initial_process N ?a1 wl pl fs) = Inr P0"
      and eqs: "opts P = opts P0" "stdout P = stdout P0"
      by (rule main_stdout)
    have "resume ?a1 \<noteq> []" "fs (resume_path (resume ?a1) (whitened_layers ?a1)) = None"
      using assms by simp_all
    from r [OF this, of wl pl] res eqs show ?thesis by auto
  qed
  from r [OF assms] m show ?thesis by blast
qed

theorem resume_no_checkpoint_witness:
  "resume (example_args\<lparr>resume := ''./checkpoints/xy_checkpoint.pth.tar'', start_epoch := 3\<rparr>) \<noteq> [] \<and>
   example_files (resume_path ''./checkpoints/xy_checkpoint.pth.tar'' ''1,2'') = None \<and>
   (\<exists>P1. resume_checkpoint
           (initial_process example_net
              (example_args\<lparr>resume := ''./checkpoints/xy_checkpoint.pth.tar'', start_epoch := 3\<rparr>)
              [1, 2] [FC] example_files) = Inr P1 \<and>
         start_epoch (opts P1) = 3 \<and> best_prec1 P1 = 0 \<and>
         stdout P1 = [''=> no checkpoint found at '' @
                        quoted ''./checkpoints/xy_1_2_checkpoint.pth.tar''])"
proof -
  let ?a = "example_args\<lparr>resume := ''./checkpoints/xy_checkpoint.pth.tar'', start_epoch := 3\<rparr>"
  have h1: "resume ?a \<noteq> []" by simp
  have p: "resume_path ''./checkpoints/xy_checkpoint.pth.tar'' ''1,2'' =
      ''./checkpoints/xy_1_2_checkpoint.pth.tar''"
    by (simp add: resume_path_def)
  have h2: "example_files (resume_path (resume ?a) (whitened_layers ?a)) = None"
    by (simp add: example_args_def p example_files_def)
  from resume_no_checkpoint [where a = ?a and fs = example_files and N = example_net
      and whitened = "[1, 2]" and plist = "[FC]", OF h1 h2, THEN conjunct1]
  obtain P1 where
    "resume_checkpoint (initial_process example_net ?a [1, 2] [FC] example_files) = Inr P1"
    "start_epoch (opts P1) = start_epoch ?a" "best_prec1 P1 = 0"
    "stdout P1 = [''=> no checkpoint found at '' @
                    quoted (resume_path (resume ?a) (whitened_layers ?a))]"
    by blast
  then have "\<exists>P1. resume_checkpoint (initial_process example_net ?a [1, 2] [FC] example_files) = Inr P1 \<and>
         start_epoch (opts P1) = 3 \<and> best_prec1 P1 = 0 \<and>
         stdout P1 = [''=> no checkpoint found at '' @
                        quoted ''./checkpoints/xy_1_2_checkpoint.pth.tar'']"
    by (intro exI [of _ P1]) (simp add: example_args_def p)
  moreover have "example_files (resume_path ''./checkpoints/xy_checkpoint.pth.tar'' ''1,2'') = None"
    by (simp add: p example_files_def)
  ultimately show ?thesis using h1 by blast
qed

text \<open>
  The claim as worded fails: the path given names no file, yet the run resumes at epoch
  7 with the best score of the checkpoint, read from the derived path.
\<close>

theorem resume_given_path_counterexample:
  "example_files ''./checkpoints/cw_checkpoint.pth.tar'' = None \<and>
   map_sum id (start_epoch \<circ> opts)
     (main example_net example_probe
        (example_args\<lparr>resume := ''./checkpoints/cw_checkpoint.pth.tar''\<rparr>) example_files
        example_train_loader example_concept_loader [(2, 2)] [[(3, ''a.jpg'')]]) = Inr 7 \<and>
   map_sum id best_prec1
     (resume_checkpoint
        (initial_process example_net
           (example_args\<lparr>resume := ''./checkpoints/cw_checkpoint.pth.tar''\<rparr>) [1, 2] [FC]
           example_files)) = Inr (1 / 2)"
proof -
  have p: "resume_path ''./checkpoints/cw_checkpoint.pth.tar'' ''1,2'' =
      ''./checkpoints/cw_1_2_checkpoint.pth.tar''"
    by (simp add: resume_path_def)
  have c1: "example_files ''./checkpoints/cw_checkpoint.pth.tar'' = None"
    by (simp add: example_files_def)
  have c2: "map_sum id (start_epoch \<circ> opts)
     (main example_net example_probe
        (example_args\<lparr>resume := ''./checkpoints/cw_checkpoint.pth.tar''\<rparr>) example_files
        example_train_loader example_concept_loader [(2, 2)] [[(3, ''a.jpg'')]]) = Inr 7"
    by (simp add: main_def Let_def example_args_def example_net_def py_int_def strip_def
        is_space_def digit_val_def get_param_list_def locate_def seq_index_def
        resume_checkpoint_def initial_process_def p example_files_def example_checkpoint_def
        epoch_loop_opts)
  have c3: "map_sum id best_prec1
     (resume_checkpoint
        (initial_process example_net
           (example_args\<lparr>resume := ''./checkpoints/cw_checkpoint.pth.tar''\<rparr>) [1, 2] [FC]
           example_files)) = Inr (1 / 2)"
    by (simp add: example_args_def resume_checkpoint_def initial_process_def p example_files_def
        example_checkpoint_def Let_def)
  from c1 c2 c3 show ?thesis by blast
qed

subsection \<open>Forward hooks\<close>

lemma run_hook_None: "snd (run_hook B pos batch h reg) = None"
  by (simp add: run_hook_def)

lemma run_hook_cells:
  "cells (fst (run_hook B pos batch h reg)) c =
     cells reg c @ map (hook_capture B pos batch) (filter (\<lambda>h'. hook_cell h' = c) [h])"
  by (simp add: run_hook_def)

lemma run_hook_rest:
  "hooks (fst (run_hook B pos batch h reg)) = hooks reg"
  "fresh (fst (run_hook B pos batch h reg)) = fresh reg"
  by (simp_all add: run_hook_def)

text \<open>Running the hooks of one module: the result is untouched, the cells grow.\<close>

lemma fold_run_hook:
  "fold (\<lambda>h (r, result).
           (case run_hook B pos batch h r of
              (r1, None) \<Rightarrow> (r1, result)
            | (r1, Some v) \<Rightarrow> (r1, v))) hs (reg, out) = (reg1, out1) \<Longrightarrow>
     out1 = out \<and> hooks reg1 = hooks reg \<and> fresh reg1 = fresh reg \<and>
     (\<forall>c. cells reg1 c =
            cells reg c @ map (hook_capture B pos batch) (filter (\<lambda>h. hook_cell h = c) hs))"
proof (induction hs arbitrary: reg)
  case Nil
  then show ?case by simp
next
  case (Cons h hs)
  let ?r = "fst (run_hook B pos batch h reg)"
  have step: "(case run_hook B pos batch h reg of
              (r1, None) \<Rightarrow> (r1, out)
            | (r1, Some v) \<Rightarrow> (r1, v)) = (?r, out)"
    using run_hook_None [of B pos batch h reg]
    by (cases "run_hook B pos batch h reg") simp
  from Cons.prems have "fold (\<lambda>h (r, result).
           (case run_hook B pos batch h r of
              (r1, None) \<Rightarrow> (r1, result)
            | (r1, Some v) \<Rightarrow> (r1, v))) hs (?r, out) = (reg1, out1)"
    by (simp add: step)
  from Cons.IH [OF this] show ?case
    by (simp add: run_hook_cells run_hook_rest)
qed

lemma call_module_result: "snd (call_module B pos batch reg) = bn1_out B pos batch"
  using fold_run_hook [of B pos batch _ reg "bn1_out B pos batch" "fst (call_module B pos batch reg)"
      "snd (call_module B pos batch reg)"]
  by (simp add: call_module_def)

lemma filter_map_snd:
  "map (hook_capture B pos batch)
     (filter (\<lambda>h. hook_cell h = c) (map snd (filter (\<lambda>ph. fst ph = pos) hs))) =
   map (\<lambda>ph. hook_capture B (fst ph) batch (snd ph))
     (filter (\<lambda>ph. hook_cell (snd ph) = c) (filter (\<lambda>ph. fst ph = pos) hs))"
  by (induction hs) auto

lemma call_module_registry:
  "hooks (fst (call_module B pos batch reg)) = hooks reg"
  "fresh (fst (call_module B pos batch reg)) = fresh reg"
  "cells (fst (call_module B pos batch reg)) c =
     cells reg c @ map (\<lambda>ph. hook_capture B (fst ph) batch (snd ph))
       (filter (\<lambda>ph. hook_cell (snd ph) = c) (filter (\<lambda>ph. fst ph = pos) (hooks reg)))"
  using fold_run_hook [of B pos batch _ reg "bn1_out B pos batch" "fst (call_module B pos batch reg)"
      "snd (call_module B pos batch reg)"]
  by (simp_all add: call_module_def filter_map_snd)

lemma fold_call_module:
  "hooks (fold (\<lambda>pos r. fst (call_module B pos batch r)) ps reg) = hooks reg \<and>
   fresh (fold (\<lambda>pos r. fst (call_module B pos batch r)) ps reg) = fresh reg \<and>
   cells (fold (\<lambda>pos r. fst (call_module B pos batch r)) ps reg) c =
     cells reg c @ map (\<lambda>ph. hook_capture B (fst ph) batch (snd ph))
       (filter (\<lambda>ph. hook_cell (snd ph) = c)
          (concat (map (\<lambda>pos. filter (\<lambda>ph. fst ph = pos) (hooks reg)) ps)))"
  by (induction ps arbitrary: reg) (simp_all add: call_module_registry)

lemma forward_hooked_cells:
  "cells (forward_hooked B L batch reg) c = cells reg c @ captured B L batch c (hooks reg)"
  by (simp add: forward_hooked_def fold_call_module fired_def captured_def)

lemma forward_hooked_hooks: "hooks (forward_hooked B L batch reg) = hooks reg"
  by (simp add: forward_hooked_def fold_call_module)

lemma forward_hooked_fresh: "fresh (forward_hooked B L batch reg) = fresh reg"
  by (simp add: forward_hooked_def fold_call_module)

lemma fold_forward_hooked_hooks:
  "hooks (fold (\<lambda>X r. forward_hooked B L X r) Xs reg) = hooks reg"
  by (induction Xs arbitrary: reg) (simp_all add: forward_hooked_hooks)

lemma fold_forward_hooked_cells:
  "cells (fold (\<lambda>X r. forward_hooked B L X r) Xs reg) c =
     cells reg c @ concat (map (\<lambda>X. captured B L X c (hooks reg)) Xs)"
  by (induction Xs arbitrary: reg) (simp_all add: forward_hooked_hooks forward_hooked_cells)

lemma register_layer_one: "register_hooks (2, 2, 2, 2) h [''1''] reg = (None, reg\<lparr>hooks := hooks reg @ [(0, h)]\<rparr>)"
  by (simp add: py_int_def strip_def is_space_def digit_val_def locate_def seq_index_def)

lemma fired_layer_one: "fired (2, 2, 2, 2) [(0, h)] = [(0, h)]"
  by (simp add: fired_def num_blocks_def upt_rec)

lemma register_hooks_cells:
  "register_hooks L h ls reg = (e, reg2) \<Longrightarrow> cells reg2 = cells reg \<and> fresh reg2 = fresh reg"
  by (induction ls arbitrary: reg) (auto split: option.splits sum.splits)

lemma get_optimal_direction_outputs:
  assumes "register_hooks L (DirectionHook (fresh reg)) (split_on CHR '','' wl) (snd (new_cell reg)) =
             (None, reg2)"
  shows "fst (fst (get_optimal_direction B L cl wl reg)) =
           concat (map (\<lambda>X. captured B L X (fresh reg) (hooks reg2)) cl) \<and>
         hooks (snd (get_optimal_direction B L cl wl reg)) = hooks reg2"
proof -
  from register_hooks_cells [OF assms] have "cells reg2 (fresh reg) = []"
    by (simp add: new_cell_def)
  moreover have "get_optimal_direction B L cl wl reg =
      (let reg3 = fold (\<lambda>X r. forward_hooked B L X r) cl reg2; outputs = cells reg3 (fresh reg)
       in ((outputs,
            (case add_items (replicate 128 0) outputs of
               Inl e \<Rightarrow> Inl e
             | Inr mean \<Rightarrow>
                 if outputs = [] then Inr NotANumber
                 else Inr (Direction (map (\<lambda>m. m / real (length outputs)) mean)))),
           reg3))"
    using assms by (simp add: get_optimal_direction_def new_cell_def Let_def)
  ultimately show ?thesis
    by (simp add: Let_def fold_forward_hooked_cells fold_forward_hooked_hooks)
qed

subsection \<open>The ranking does not depend on the hooks registered earlier\<close>

lemma register_hooks_positions:
  "\<exists>e ps. \<forall>h reg. register_hooks L h ls reg = (e, reg\<lparr>hooks := hooks reg @ map (\<lambda>p. (p, h)) ps\<rparr>)"
proof (induction ls)
  case Nil
  have "\<forall>h reg. register_hooks L h [] reg = (None, reg\<lparr>hooks := hooks reg @ map (\<lambda>p. (p, h)) []\<rparr>)"
    by simp
  then show ?case by blast
next
  case (Cons l ls)
  then obtain e ps where
    ih: "\<And>h reg. register_hooks L h ls reg = (e, reg\<lparr>hooks := hooks reg @ map (\<lambda>p. (p, h)) ps\<rparr>)"
    by blast
  show ?case
  proof (cases "py_int l")
    case None
    then have "\<forall>h reg. register_hooks L h (l # ls) reg =
        (Some ValueError, reg\<lparr>hooks := hooks reg @ map (\<lambda>p. (p, h)) []\<rparr>)"
      by simp
    then show ?thesis by blast
  next
    case (Some n)
    show ?thesis
    proof (cases "locate L n")
      case None
      with Some ih have "\<forall>h reg. register_hooks L h (l # ls) reg =
          (e, reg\<lparr>hooks := hooks reg @ map (\<lambda>p. (p, h)) ps\<rparr>)"
        by simp
      then show ?thesis by blast
    next
      case outer: (Some r)
      show ?thesis
      proof (cases r)
        case (Inl err)
        with Some outer have "\<forall>h reg. register_hooks L h (l # ls) reg =
            (Some err, reg\<lparr>hooks := hooks reg @ map (\<lambda>p. (p, h)) []\<rparr>)"
          by simp
        then show ?thesis by blast
      next
        case (Inr pos)
        with Some outer ih have "\<forall>h reg. register_hooks L h (l # ls) reg =
            (e, reg\<lparr>hooks := hooks reg @ map (\<lambda>p. (p, h)) (pos # ps)\<rparr>)"
          by simp
        then show ?thesis by blast
      qed
    qed
  qed
qed

lemma filter_concat_map:
  "filter P (concat (map f xs)) = concat (map (\<lambda>x. filter P (f x)) xs)"
  by (induction xs) simp_all

text \<open>
  A cell that no earlier hook writes to receives, in a forward pass, the rotated
  activations of the blocks hooked with it, in the order of the blocks.
\<close>

lemma captured_own:
  assumes "\<forall>ph \<in> set hs. hook_cell (snd ph) \<noteq> c"
  shows "captured B L batch c (hs @ map (\<lambda>p. (p, RankingHook c)) ps) =
           map (\<lambda>p. Rotated (map (\<lambda>img. einsum_rot (running_rot B p) (x_hat B p img)) batch))
             (concat (map (\<lambda>pos. filter (\<lambda>p. p = pos) ps) [0..<num_blocks L]))"
proof -
  have old: "filter (\<lambda>ph. fst ph = pos \<and> hook_cell (snd ph) = c) hs = []" for pos
    using assms by (auto simp: filter_empty_conv)
  have new: "filter (\<lambda>ph. fst ph = pos \<and> hook_cell (snd ph) = c) (map (\<lambda>p. (p, RankingHook c)) ps) =
      map (\<lambda>p. (p, RankingHook c)) (filter (\<lambda>p. p = pos) ps)" for pos
    by (induction ps) auto
  have "filter (\<lambda>ph. hook_cell (snd ph) = c) (fired L (hs @ map (\<lambda>p. (p, RankingHook c)) ps)) =
      concat (map (\<lambda>pos. map (\<lambda>p. (p, RankingHook c)) (filter (\<lambda>p. p = pos) ps)) [0..<num_blocks L])"
    by (simp add: fired_def filter_concat_map old new)
  also have "\<dots> = map (\<lambda>p. (p, RankingHook c)) (concat (map (\<lambda>pos. filter (\<lambda>p. p = pos) ps) [0..<num_blocks L]))"
    by (simp add: map_concat comp_def)
  finally show ?thesis
    by (simp add: captured_def comp_def)
qed

lemma scan_batches_hooks:
  "hooks (snd (scan_batches B L c k vl paths vals reg)) = hooks reg \<and>
   fresh (snd (scan_batches B L c k vl paths vals reg)) = fresh reg"
proof (induction vl arbitrary: paths vals reg)
  case Nil
  then show ?case by simp
next
  case (Cons batch vl)
  show ?case
    by (simp add: Let_def Cons forward_hooked_hooks forward_hooked_fresh split: sum.splits)
qed

lemma scan_batches_related:
  assumes "\<And>batch. captured B L batch c (hooks reg) = captured B L batch c' (hooks reg')"
  shows "fst (scan_batches B L c k vl paths vals reg) = fst (scan_batches B L c' k vl paths vals reg')"
  using assms
proof (induction vl arbitrary: paths vals reg reg')
  case Nil
  then show ?case by simp
next
  case (Cons batch vl)
  let ?r = "forward_hooked B L (map fst batch) (reg\<lparr>cells := (cells reg)(c := [])\<rparr>)"
  let ?r' = "forward_hooked B L (map fst batch) (reg'\<lparr>cells := (cells reg')(c' := [])\<rparr>)"
  have cs: "cells ?r c = cells ?r' c'"
    using Cons.prems [of "map fst batch"] by (simp add: forward_hooked_cells)
  have hs: "hooks ?r = hooks reg" "hooks ?r' = hooks reg'"
    by (simp_all add: forward_hooked_hooks)
  have rec: "fst (scan_batches B L c k vl p v ?r) = fst (scan_batches B L c' k vl p v ?r')" for p v
    by (rule Cons.IH) (simp add: hs Cons.prems)
  show ?case
    by (simp add: Let_def cs rec split: sum.splits)
qed

lemma rank_axes_hooks:
  "hooks (snd (rank_axes B L c folder po vl ll ks reg)) = hooks reg \<and>
   fresh (snd (rank_axes B L c folder po vl ll ks reg)) = fresh reg"
proof (induction ks arbitrary: reg)
  case Nil
  then show ?case by simp
next
  case (Cons k ks)
  obtain r1 reg1 where s: "scan_batches B L c k vl [] None reg = (r1, reg1)"
    by (cases "scan_batches B L c k vl [] None reg")
  with scan_batches_hooks [of B L c k vl "[]" None reg]
  have h: "hooks reg1 = hooks reg" "fresh reg1 = fresh reg" by simp_all
  from Cons [of reg1] show ?case
    by (auto simp: s h split: sum.splits prod.splits option.splits)
qed

lemma rank_axes_related:
  assumes "\<And>batch. captured B L batch c (hooks reg) = captured B L batch c' (hooks reg')"
  shows "fst (rank_axes B L c folder po vl ll ks reg) = fst (rank_axes B L c' folder po vl ll ks reg')"
  using assms
proof (induction ks arbitrary: reg reg')
  case Nil
  then show ?case by simp
next
  case (Cons k ks)
  obtain r1 reg1 where s: "scan_batches B L c k vl [] None reg = (r1, reg1)"
    by (cases "scan_batches B L c k vl [] None reg")
  obtain r1' reg1' where s': "scan_batches B L c' k vl [] None reg' = (r1', reg1')"
    by (cases "scan_batches B L c' k vl [] None reg'")
  from scan_batches_related [of B L c reg c' reg' k vl "[]" None] Cons.prems s s'
  have r: "r1' = r1" by simp
  from scan_batches_hooks [of B L c k vl "[]" None reg] s
  have h: "hooks reg1 = hooks reg" by simp
  from scan_batches_hooks [of B L c' k vl "[]" None reg'] s'
  have h': "hooks reg1' = hooks reg'" by simp
  have rec: "fst (rank_axes B L c folder po vl ll ks reg1) = fst (rank_axes B L c' folder po vl ll ks reg1')"
    by (rule Cons.IH) (simp add: h h' Cons.prems)
  show ?case
    using rec by (auto simp: s s' r split: sum.splits prod.splits option.splits)
qed

lemma print_concept_top5_related:
  assumes "\<forall>ph \<in> set (hooks reg). hook_cell (snd ph) < fresh reg"
    and "\<forall>ph \<in> set (hooks reg'). hook_cell (snd ph) < fresh reg'"
  shows "fst (print_concept_top5 B L ar vl wl po reg) = fst (print_concept_top5 B L ar vl wl po reg')"
proof -
  obtain e ps where
    r: "\<And>h reg. register_hooks L h (split_on CHR '','' wl) reg =
          (e, reg\<lparr>hooks := hooks reg @ map (\<lambda>p. (p, h)) ps\<rparr>)"
    using register_hooks_positions [of L "split_on CHR '','' wl"] by blast
  have own: "\<forall>ph \<in> set (hooks q). hook_cell (snd ph) \<noteq> fresh q"
    if "\<forall>ph \<in> set (hooks q). hook_cell (snd ph) < fresh q" for q :: registry
    using that by auto
  show ?thesis
  proof (cases e)
    case (Some err)
    then show ?thesis by (simp add: print_concept_top5_def Let_def new_cell_def r)
  next
    case None
    let ?q = "\<lambda>reg. (reg\<lparr>cells := (cells reg)(fresh reg := []), fresh := Suc (fresh reg)\<rparr>)
                \<lparr>hooks := hooks reg @ map (\<lambda>p. (p, RankingHook (fresh reg))) ps\<rparr>"
    have "captured B L batch (fresh reg) (hooks (?q reg)) =
          captured B L batch (fresh reg') (hooks (?q reg'))" for batch
      using captured_own [OF own [OF assms(1)], of B L batch ps]
        captured_own [OF own [OF assms(2)], of B L batch ps]
      by simp
    from rank_axes_related [of B L "fresh reg" "?q reg" "fresh reg'" "?q reg'", OF this]
    show ?thesis
      by (simp add: print_concept_top5_def Let_def new_cell_def r None)
  qed
qed

lemma print_concept_top5_registry:
  assumes "\<forall>ph \<in> set (hooks reg). hook_cell (snd ph) < fresh reg"
  shows "\<forall>ph \<in> set (hooks (snd (print_concept_top5 B L ar vl wl po reg))).
           hook_cell (snd ph) < fresh (snd (print_concept_top5 B L ar vl wl po reg))"
proof -
  obtain e ps where
    r: "\<And>h reg. register_hooks L h (split_on CHR '','' wl) reg =
          (e, reg\<lparr>hooks := hooks reg @ map (\<lambda>p. (p, h)) ps\<rparr>)"
    using register_hooks_positions [of L "split_on CHR '','' wl"] by blast
  let ?q = "(reg\<lparr>cells := (cells reg)(fresh reg := []), fresh := Suc (fresh reg)\<rparr>)
                \<lparr>hooks := hooks reg @ map (\<lambda>p. (p, RankingHook (fresh reg))) ps\<rparr>"
  have q: "\<forall>ph \<in> set (hooks ?q). hook_cell (snd ph) < fresh ?q"
    using assms by (auto simp: less_Suc_eq)
  show ?thesis
  proof (cases e)
    case (Some err)
    with q show ?thesis by (simp add: print_concept_top5_def Let_def new_cell_def r)
  next
    case None
    have "snd (print_concept_top5 B L ar vl wl po reg) =
        snd (rank_axes B L (fresh reg) (folder_name ar (split_on CHR '','' wl) po) po vl
              (split_on CHR '','' wl) (if po then [1..<11] else [0..<1]) ?q)"
      by (simp add: print_concept_top5_def Let_def new_cell_def r None)
    with q rank_axes_hooks [of B L "fresh reg" "folder_name ar (split_on CHR '','' wl) po" po vl
        "split_on CHR '','' wl" "if po then [1..<11] else [0..<1]" ?q]
    show ?thesis by simp
  qed
qed

text \<open>
  C5. Whatever hooks earlier calls left on the network, \<open>print_concept_top5\<close> on the same
  validation set, the same network and the same options makes the same copies in the
  same order (or ends with the same exception); in particular a second call right
  after a first one repeats its result.
\<close>

theorem ranking_repeatable:
  assumes "\<forall>ph \<in> set (hooks reg). hook_cell (snd ph) < fresh reg"
  shows "fst (print_concept_top5 B L ar val_loader wl print_other
                (snd (print_concept_top5 B L ar val_loader wl print_other reg))) =
           fst (print_concept_top5 B L ar val_loader wl print_other reg) \<and>
         (\<forall>reg'. (\<forall>ph \<in> set (hooks reg'). hook_cell (snd ph) < fresh reg') \<longrightarrow>
            fst (print_concept_top5 B L ar val_loader wl print_other reg') =
              fst (print_concept_top5 B L ar val_loader wl print_other reg))"
  using print_concept_top5_related [OF print_concept_top5_registry [OF assms] assms]
    print_concept_top5_related [OF _ assms]
  by blast

theorem ranking_repeatable_witness:
  "hooks empty_registry = [] \<and>
   fst (print_concept_top5 example_backbone (2, 2, 2, 2) ''resnet'' example_val_paths ''1,2'' False
          (snd (print_concept_top5 example_backbone (2, 2, 2, 2) ''resnet'' example_val_paths ''1,2''
                  False empty_registry))) =
     fst (print_concept_top5 example_backbone (2, 2, 2, 2) ''resnet'' example_val_paths ''1,2'' False
            empty_registry)"
proof -
  have e: "hooks empty_registry = []" by (simp add: empty_registry_def)
  then have h: "\<forall>ph \<in> set (hooks empty_registry). hook_cell (snd ph) < fresh empty_registry"
    by simp
  from ranking_repeatable [OF h, THEN conjunct1] e show ?thesis by blast
qed

subsection \<open>The sort of the ranking\<close>

lemma sort_reverse_mset: "mset (sort_reverse arr) = mset arr"
  by (simp add: sort_reverse_def)

lemma sort_reverse_length: "length (sort_reverse arr) = length arr"
  by (simp add: sort_reverse_def)

lemma sort_reverse_descending: "sorted_wrt (\<lambda>a b. fst b \<le> fst a) (sort_reverse arr)"
proof -
  have "sorted (map fst (sort_key fst (rev arr)))" by simp
  then have "sorted_wrt (\<lambda>a b. fst a \<le> fst b) (sort_key fst (rev arr))"
    by (simp add: sorted_map)
  then show ?thesis
    by (simp add: sort_reverse_def sorted_wrt_rev)
qed

lemma sort_reverse_stable:
  "filter (\<lambda>e. fst e = v) (sort_reverse arr) = filter (\<lambda>e. fst e = v) arr"
proof -
  have "filter (\<lambda>e. fst e = v) (sort_reverse arr) = rev (filter (\<lambda>e. fst e = v) (sort_key fst (rev arr)))"
    by (simp add: sort_reverse_def rev_filter)
  also have "\<dots> = rev (filter (\<lambda>e. fst e = v) (rev arr))"
    by (simp only: sort_key_stable)
  also have "\<dots> = filter (\<lambda>e. fst e = v) arr"
    by (simp add: rev_filter)
  finally show ?thesis .
qed

lemma insort_key_map:
  "insort_key f (g x) (map g ys) = map g (insort_key (\<lambda>y. f (g y)) x ys)"
  by (induction ys) simp_all

lemma sort_key_map: "sort_key f (map g xs) = map g (sort_key (\<lambda>y. f (g y)) xs)"
  by (induction xs) (simp_all add: insort_key_map)

lemma insort_key_order_cong:
  assumes "\<And>a b. (f a \<le> f b) = (g a \<le> g b)"
  shows "insort_key f x ys = insort_key g x ys"
  by (induction ys) (simp_all add: assms)

lemma sort_key_order_cong:
  assumes "\<And>a b. (f a \<le> f b) = (g a \<le> g b)"
  shows "sort_key f xs = sort_key g xs"
  by (induction xs) (simp_all add: insort_key_order_cong [OF assms])

text \<open>Dividing every score by one positive number does not change the order.\<close>

lemma sort_reverse_scaled:
  assumes "0 < d"
  shows "sort_reverse (map (\<lambda>e. (fst e / d, snd e)) arr) =
         map (\<lambda>e. (fst e / d, snd e)) (sort_reverse arr)"
proof -
  have "sort_key (\<lambda>y. fst y / d) ys = sort_key fst ys" for ys :: "(real \<times> 'a) list"
    by (rule sort_key_order_cong) (use assms in \<open>auto simp: divide_le_cancel\<close>)
  then show ?thesis
    by (simp add: sort_reverse_def rev_map sort_key_map)
qed

subsection \<open>Where the hooks of a valid layer list are\<close>

lemma locate_valid:
  assumes "0 \<le> l0" "0 \<le> l1" "0 \<le> l2" "0 \<le> l3" "1 \<le> n" "n \<le> l0 + l1 + l2 + l3"
  shows "locate (l0, l1, l2, l3) n = Some (Inr (nat (n - 1)))"
proof -
  have m: "0 \<le> i \<Longrightarrow> i < k \<Longrightarrow> i mod k = i" for i k :: int by simp
  show ?thesis
    using assms by (auto simp: locate_def seq_index_def m intro!: arg_cong [of _ _ nat])
qed

lemma register_hooks_valid:
  assumes "0 \<le> l0" "0 \<le> l1" "0 \<le> l2" "0 \<le> l3"
    and "int_list ls = Some ns"
    and "\<forall>n \<in> set ns. 1 \<le> n \<and> n \<le> l0 + l1 + l2 + l3"
  shows "register_hooks (l0, l1, l2, l3) h ls reg =
           (None, reg\<lparr>hooks := hooks reg @ map (\<lambda>n. (nat (n - 1), h)) ns\<rparr>)"
  using assms(5,6)
proof (induction ls arbitrary: ns reg)
  case Nil
  then show ?case by simp
next
  case (Cons l ls)
  from Cons.prems(1) obtain n ms where
    l: "py_int l = Some n" and ms: "int_list ls = Some ms" and ns: "ns = n # ms"
    by (auto split: option.splits)
  from Cons.prems(2) ns have n: "1 \<le> n" "n \<le> l0 + l1 + l2 + l3"
    and rest: "\<forall>n \<in> set ms. 1 \<le> n \<and> n \<le> l0 + l1 + l2 + l3"
    by simp_all
  from locate_valid [OF assms(1-4) n] Cons.IH [OF ms rest] l ns show ?case by simp
qed

lemma sorted_split:
  assumes "sorted ps" "\<forall>p \<in> set ps. p \<le> (n::nat)"
  shows "filter (\<lambda>p. p < n) ps @ filter (\<lambda>p. p = n) ps = ps"
  using assms
proof (induction ps)
  case Nil
  then show ?case by simp
next
  case (Cons p ps)
  show ?case
  proof (cases "p < n")
    case True
    with Cons show ?thesis by simp
  next
    case False
    with Cons.prems have "\<forall>q \<in> set (p # ps). q = n" by fastforce
    then have "filter (\<lambda>q. q < n) (p # ps) = []" "filter (\<lambda>q. q = n) (p # ps) = p # ps"
      by (auto simp: filter_empty_conv filter_id_conv)
    then show ?thesis by simp
  qed
qed

lemma fired_sorted:
  assumes "sorted ps" "\<forall>p \<in> set ps. p < (n::nat)"
  shows "concat (map (\<lambda>pos. filter (\<lambda>p. p = pos) ps) [0..<n]) = ps"
  using assms
proof (induction n arbitrary: ps)
  case 0
  then show ?case by (cases ps) auto
next
  case (Suc n)
  let ?low = "filter (\<lambda>p. p < n) ps"
  have low: "sorted ?low" "\<forall>p \<in> set ?low. p < n"
    using Suc.prems by (simp_all add: sorted_wrt_filter)
  have "map (\<lambda>pos. filter (\<lambda>p. p = pos) ps) [0..<n] = map (\<lambda>pos. filter (\<lambda>p. p = pos) ?low) [0..<n]"
    by (rule map_cong) (auto intro: filter_cong)
  then have "concat (map (\<lambda>pos. filter (\<lambda>p. p = pos) ps) [0..<n]) =
      concat (map (\<lambda>pos. filter (\<lambda>p. p = pos) ?low) [0..<n])"
    by (rule arg_cong)
  also have "\<dots> = ?low" by (rule Suc.IH [OF low])
  finally have "concat (map (\<lambda>pos. filter (\<lambda>p. p = pos) ps) [0..<n]) = ?low" .
  moreover have "?low @ filter (\<lambda>p. p = n) ps = ps"
    using Suc.prems by (intro sorted_split) auto
  ultimately show ?case by simp
qed

subsection \<open>What \<open>print_concept_top5\<close> computes\<close>

lemma einsum_rot_shape:
  "t_chans (einsum_rot R X) = t_chans X"
  "t_height (einsum_rot R X) = t_height X"
  "t_width (einsum_rot R X) = t_width X"
  by (simp_all add: einsum_rot_def)

lemma score_rows_rotated:
  assumes "\<forall>p \<in> set ps. \<forall>X \<in> set (Xs p). k < t_chans X"
  shows "score_rows k (map (\<lambda>p. Rotated (Xs p)) ps) =
           Inr (map (\<lambda>p. map (\<lambda>X. spatial_sum X k) (Xs p)) ps)"
  using assms
proof (induction ps)
  case Nil
  then show ?case by simp
next
  case (Cons p ps)
  then have "\<not> list_ex (\<lambda>X. t_chans X \<le> k) (Xs p)"
    by (auto simp: list_ex_iff)
  with Cons show ?case by simp
qed

lemma scan_batches_explicit:
  fixes B :: "('i, 'r) backbone"
  defines "rows \<equiv> \<lambda>ps k (bs :: ('i \<times> string) list list).
     map (\<lambda>p. map (\<lambda>ip. spatial_sum (einsum_rot (running_rot B p) (x_hat B p (fst ip))) k) (concat bs)) ps"
  assumes cap: "\<And>batch. captured B L batch c (hooks reg) =
      map (\<lambda>p. Rotated (map (\<lambda>img. einsum_rot (running_rot B p) (x_hat B p img)) batch)) ps"
    and ne: "ps \<noteq> []"
    and bne: "\<forall>batch \<in> set vl. batch \<noteq> []"
    and ch: "\<forall>batch \<in> set vl. \<forall>ip \<in> set batch. \<forall>p \<in> set ps. k < t_chans (x_hat B p (fst ip))"
  shows "fst (scan_batches B L c k vl paths (if seen = [] then None else Some (rows ps k seen)) reg) =
           Inr (paths @ map snd (concat vl),
                if seen @ vl = [] then None else Some (rows ps k (seen @ vl)))"
  using cap bne ch
proof (induction vl arbitrary: paths seen reg)
  case Nil
  then show ?case by simp
next
  case (Cons batch vl)
  let ?reg2 = "forward_hooked B L (map fst batch) (reg\<lparr>cells := (cells reg)(c := [])\<rparr>)"
  let ?val = "rows ps k [batch]"
  have cells: "cells ?reg2 c =
      map (\<lambda>p. Rotated (map (\<lambda>img. einsum_rot (running_rot B p) (x_hat B p img)) (map fst batch))) ps"
    by (simp add: forward_hooked_cells Cons.prems(1))
  have "\<forall>p \<in> set ps. \<forall>X \<in> set (map (\<lambda>img. einsum_rot (running_rot B p) (x_hat B p img)) (map fst batch)).
      k < t_chans X"
    using Cons.prems(3) by (auto simp: einsum_rot_shape)
  from score_rows_rotated [where Xs = "\<lambda>p. map (\<lambda>img. einsum_rot (running_rot B p) (x_hat B p img)) (map fst batch)",
      OF this]
  have sr: "score_rows k (cells ?reg2 c) = Inr ?val"
    by (simp add: cells rows_def comp_def)
  have "batch \<noteq> []" using Cons.prems(2) by simp
  with sr ne have bv: "batch_val k (cells ?reg2 c) = Inr ?val"
    by (simp add: batch_val_def cells)
  have comb: "map2 (@) (rows ps k seen) ?val = rows ps k (seen @ [batch])"
    by (simp add: rows_def map2_map_map)
  have cap2: "\<And>b. captured B L b c (hooks ?reg2) =
      map (\<lambda>p. Rotated (map (\<lambda>img. einsum_rot (running_rot B p) (x_hat B p img)) b)) ps"
    by (simp add: forward_hooked_hooks Cons.prems(1))
  have rest: "\<forall>b \<in> set vl. b \<noteq> []"
    "\<forall>b \<in> set vl. \<forall>ip \<in> set b. \<forall>p \<in> set ps. k < t_chans (x_hat B p (fst ip))"
    using Cons.prems(2,3) by simp_all
  have "fst (scan_batches B L c k vl (paths @ map snd batch)
               (if seen @ [batch] = [] then None else Some (rows ps k (seen @ [batch]))) ?reg2) =
        Inr ((paths @ map snd batch) @ map snd (concat vl),
             if (seen @ [batch]) @ vl = [] then None else Some (rows ps k ((seen @ [batch]) @ vl)))"
    by (rule Cons.IH [OF cap2 rest])
  then have "fst (scan_batches B L c k vl (paths @ map snd batch)
               (Some (rows ps k (seen @ [batch]))) ?reg2) =
        Inr (paths @ map snd (concat (batch # vl)), Some (rows ps k (seen @ batch # vl)))"
    by simp
  then show ?case
    by (cases "seen = []") (simp_all add: Let_def bv comb)
qed

lemma export_layers_explicit:
  assumes "i + length ll \<le> length rows" "\<forall>r \<in> set rows. 50 \<le> length r" "50 \<le> length paths"
  shows "export_layers folder po k (Some rows) paths i ll =
           (concat (map (\<lambda>j. map (\<lambda>r. (snd (sort_reverse (zip (rows ! (i + j)) paths) ! r),
                                         copy_name folder po k (ll ! j) r)) [0..<50])
                      [0..<length ll]), None)"
  using assms(1)
proof (induction ll arbitrary: i)
  case Nil
  then show ?case by simp
next
  case (Cons layer ll)
  from Cons.prems have i: "i < length rows" and nxt: "Suc i + length ll \<le> length rows" by simp_all
  from i assms(2) have "50 \<le> length (rows ! i)" by simp
  with assms(3) have len: "\<not> length (sort_reverse (zip (rows ! i) paths)) < 50"
    by (simp add: sort_reverse_length)
  have up: "[0..<Suc (length ll)] = 0 # map Suc [0..<length ll]"
    by (simp add: upt_conv_Cons map_Suc_upt del: upt_Suc)
  show ?case
    using i len Cons.IH [OF nxt]
    by (simp add: Let_def up comp_def del: upt_Suc)
qed

lemma rank_axes_explicit:
  fixes B :: "('i, 'r) backbone"
  assumes cap: "\<And>batch. captured B L batch c (hooks reg) =
      map (\<lambda>p. Rotated (map (\<lambda>img. einsum_rot (running_rot B p) (x_hat B p img)) batch)) ps"
    and ne: "ps \<noteq> []"
    and bne: "\<forall>batch \<in> set vl. batch \<noteq> []"
    and ch: "\<forall>k \<in> set ks. \<forall>batch \<in> set vl. \<forall>ip \<in> set batch. \<forall>p \<in> set ps.
               k < t_chans (x_hat B p (fst ip))"
    and len: "length ll = length ps"
    and n50: "50 \<le> length (concat vl)"
  shows "fst (rank_axes B L c folder po vl ll ks reg) =
           (concat (map (\<lambda>k. concat (map (\<lambda>j. map (\<lambda>r.
               (snd (sort_reverse (map (\<lambda>ip.
                       (spatial_sum (einsum_rot (running_rot B (ps ! j)) (x_hat B (ps ! j) (fst ip))) k,
                        snd ip)) (concat vl)) ! r),
                copy_name folder po k (ll ! j) r)) [0..<50]) [0..<length ll])) ks), None)"
  using cap ch
proof (induction ks arbitrary: reg)
  case Nil
  then show ?case by simp
next
  case (Cons k ks)
  let ?rows = "map (\<lambda>p. map (\<lambda>ip. spatial_sum (einsum_rot (running_rot B p) (x_hat B p (fst ip))) k)
                  (concat vl)) ps"
  have vne: "vl \<noteq> []" using n50 by auto
  have chk: "\<forall>batch \<in> set vl. \<forall>ip \<in> set batch. \<forall>p \<in> set ps. k < t_chans (x_hat B p (fst ip))"
    using Cons.prems(2) by simp
  from scan_batches_explicit [OF Cons.prems(1) ne bne chk, of "[]" "[]"] vne
  have sc: "fst (scan_batches B L c k vl [] None reg) = Inr (map snd (concat vl), Some ?rows)"
    by simp
  obtain reg1 where s: "scan_batches B L c k vl [] None reg = (Inr (map snd (concat vl), Some ?rows), reg1)"
    using sc by (cases "scan_batches B L c k vl [] None reg") simp
  from scan_batches_hooks [of B L c k vl "[]" None reg] s have h: "hooks reg1 = hooks reg" by simp
  have ex: "export_layers folder po k (Some ?rows) (map snd (concat vl)) 0 ll =
      (concat (map (\<lambda>j. map (\<lambda>r. (snd (sort_reverse (zip (?rows ! (0 + j)) (map snd (concat vl))) ! r),
                                   copy_name folder po k (ll ! j) r)) [0..<50])
                 [0..<length ll]), None)"
    by (rule export_layers_explicit) (use len n50 in auto)
  have mc: "map (\<lambda>j. map (\<lambda>r. (snd (sort_reverse (zip (?rows ! (0 + j)) (map snd (concat vl))) ! r),
                                   copy_name folder po k (ll ! j) r)) [0..<50]) [0..<length ll] =
        map (\<lambda>j. map (\<lambda>r.
               (snd (sort_reverse (map (\<lambda>ip.
                       (spatial_sum (einsum_rot (running_rot B (ps ! j)) (x_hat B (ps ! j) (fst ip))) k,
                        snd ip)) (concat vl)) ! r),
                copy_name folder po k (ll ! j) r)) [0..<50]) [0..<length ll]"
    by (rule map_cong) (simp_all add: len zip_map_map zip_same_conv_map comp_def)
  from ex have ex2: "export_layers folder po k (Some ?rows) (map snd (concat vl)) 0 ll =
      (concat (map (\<lambda>j. map (\<lambda>r.
               (snd (sort_reverse (map (\<lambda>ip.
                       (spatial_sum (einsum_rot (running_rot B (ps ! j)) (x_hat B (ps ! j) (fst ip))) k,
                        snd ip)) (concat vl)) ! r),
                copy_name folder po k (ll ! j) r)) [0..<50]) [0..<length ll]), None)"
    unfolding mc .
  have rest: "\<forall>k \<in> set ks. \<forall>batch \<in> set vl. \<forall>ip \<in> set batch. \<forall>p \<in> set ps.
               k < t_chans (x_hat B p (fst ip))"
    using Cons.prems(2) by simp
  have "fst (rank_axes B L c folder po vl ll ks reg1) =
           (concat (map (\<lambda>k. concat (map (\<lambda>j. map (\<lambda>r.
               (snd (sort_reverse (map (\<lambda>ip.
                       (spatial_sum (einsum_rot (running_rot B (ps ! j)) (x_hat B (ps ! j) (fst ip))) k,
                        snd ip)) (concat vl)) ! r),
                copy_name folder po k (ll ! j) r)) [0..<50]) [0..<length ll])) ks), None)"
    by (rule Cons.IH) (simp_all add: h Cons.prems(1) rest)
  then show ?case
    by (auto simp: s ex2 split: prod.splits)
qed

lemma int_list_length: "int_list ls = Some ns \<Longrightarrow> length ns = length ls"
  by (induction ls arbitrary: ns) (auto split: option.splits)

lemma split_on_nonempty: "split_on c s \<noteq> []"
  by (induction s) (auto split: list.splits)

lemma sorted_positions:
  assumes "sorted ns" "\<forall>n \<in> set ns. (1::int) \<le> n"
  shows "sorted (map (\<lambda>n. nat (n - 1)) ns)"
  using assms by (induction ns) auto

lemma mean_ranking:
  fixes B :: "('i, 'r) backbone"
  assumes "0 < d"
    and "\<forall>ip \<in> set imgs. t_height (x_hat B p (fst ip)) * t_width (x_hat B p (fst ip)) = d"
    and "r < length imgs"
  shows "snd (sort_reverse (map (\<lambda>ip. (spatial_sum (einsum_rot (running_rot B p) (x_hat B p (fst ip))) k,
                                         snd ip)) imgs) ! r) =
         snd (sort_reverse (map (\<lambda>ip. (spatial_mean (einsum_rot (running_rot B p) (x_hat B p (fst ip))) k,
                                         snd ip)) imgs) ! r)"
proof -
  let ?sums = "map (\<lambda>ip. (spatial_sum (einsum_rot (running_rot B p) (x_hat B p (fst ip))) k, snd ip)) imgs"
  have eq: "map (\<lambda>ip. (spatial_mean (einsum_rot (running_rot B p) (x_hat B p (fst ip))) k, snd ip)) imgs =
        map (\<lambda>e. (fst e / real d, snd e)) ?sums"
  proof (unfold map_map comp_def, rule map_cong [OF refl])
    fix ip assume "ip \<in> set imgs"
    with assms(2) have e: "t_height (x_hat B p (fst ip)) * t_width (x_hat B p (fst ip)) = d"
      by blast
    show "(spatial_mean (einsum_rot (running_rot B p) (x_hat B p (fst ip))) k, snd ip) =
          (fst (spatial_sum (einsum_rot (running_rot B p) (x_hat B p (fst ip))) k, snd ip) / real d,
           snd (spatial_sum (einsum_rot (running_rot B p) (x_hat B p (fst ip))) k, snd ip))"
      unfolding spatial_mean_def einsum_rot_shape e by simp
  qed
  have sc: "sort_reverse (map (\<lambda>e. (fst e / real d, snd e)) ?sums) =
        map (\<lambda>e. (fst e / real d, snd e)) (sort_reverse ?sums)"
    by (rule sort_reverse_scaled) (use assms(1) in simp)
  have "sort_reverse (map (\<lambda>ip. (spatial_mean (einsum_rot (running_rot B p) (x_hat B p (fst ip))) k, snd ip)) imgs) =
        map (\<lambda>e. (fst e / real d, snd e)) (sort_reverse ?sums)"
    unfolding eq by (rule sc)
  moreover have "r < length (sort_reverse ?sums)"
    using assms(3) by (simp add: sort_reverse_length)
  ultimately show ?thesis by simp
qed

text \<open>
  C4, as the script has it. When the validation set holds at least fifty images (the
  script reads \<open>arr[j]\<close> for every \<open>j\<close> below 50), the layers are listed in the order of
  the network and every inspected axis exists, \<open>print_concept_top5\<close> ends without an
  exception and, for every inspected axis and configured layer, copies the fifty images
  that come first when the images are sorted by the spatial mean of that axis of the
  rotated activation, descending and stable, to a file named after the layer and the
  rank counted from one. (The script sorts by the spatial sum, which orders the images
  of one layer as the mean does.)
\<close>

theorem top50_export:
  fixes B :: "('i, 'r) backbone"
  assumes "0 \<le> l0" "0 \<le> l1" "0 \<le> l2" "0 \<le> l3"
    and "int_list (split_on CHR '','' wl) = Some ns"
    and "sorted ns"
    and "list_all (\<lambda>n. 1 \<le> n \<and> n \<le> l0 + l1 + l2 + l3) ns"
    and "list_all (\<lambda>ph. hook_cell (snd ph) < fresh reg) (hooks reg)"
    and "list_all (\<lambda>batch. batch \<noteq> []) val_loader"
    and "50 \<le> length (concat val_loader)"
    and "list_all (\<lambda>n. list_all (\<lambda>ip.
            list_all (\<lambda>k. k < t_chans (x_hat B (nat (n - 1)) (fst ip)))
              (if print_other then [1..<11] else [0..<1]) \<and>
            t_height (x_hat B (nat (n - 1)) (fst ip)) * t_width (x_hat B (nat (n - 1)) (fst ip)) = hw n)
          (concat val_loader)) ns"
    and "list_all (\<lambda>n. 0 < hw n) ns"
  shows "fst (print_concept_top5 B (l0, l1, l2, l3) ar val_loader wl print_other reg) =
           (concat (map (\<lambda>k. concat (map (\<lambda>i. map (\<lambda>j.
               (snd (sort_reverse (map (\<lambda>ip.
                       (spatial_mean (einsum_rot (running_rot B (nat (ns ! i - 1)))
                                        (x_hat B (nat (ns ! i - 1)) (fst ip))) k,
                        snd ip)) (concat val_loader)) ! j),
                copy_name (folder_name ar (split_on CHR '','' wl) print_other) print_other k
                  (split_on CHR '','' wl ! i) j)) [0..<50]) [0..<length ns]))
              (if print_other then [1..<11] else [0..<1])), None) \<and>
         (\<forall>arr :: (real \<times> string) list.
            mset (sort_reverse arr) = mset arr \<and>
            sorted_wrt (\<lambda>a b. fst b \<le> fst a) (sort_reverse arr) \<and>
            (\<forall>v. filter (\<lambda>e. fst e = v) (sort_reverse arr) = filter (\<lambda>e. fst e = v) arr))"
proof -
  let ?L = "(l0, l1, l2, l3)"
  let ?ll = "split_on CHR '','' wl"
  let ?c = "fresh reg"
  let ?ps = "map (\<lambda>n. nat (n - 1)) ns"
  let ?ks = "if print_other then [1..<11] else [0..<1]"
  let ?folder = "folder_name ar ?ll print_other"
  let ?reg1 = "reg\<lparr>cells := (cells reg)(fresh reg := []), fresh := Suc (fresh reg)\<rparr>"
  let ?reg2 = "?reg1\<lparr>hooks := hooks ?reg1 @ map (\<lambda>n. (nat (n - 1), RankingHook ?c)) ns\<rparr>"
  have valid: "\<forall>n \<in> set ns. 1 \<le> n \<and> n \<le> l0 + l1 + l2 + l3"
    using assms(7) by (simp add: list_all_iff)
  have reg: "register_hooks ?L (RankingHook ?c) ?ll ?reg1 = (None, ?reg2)"
    by (rule register_hooks_valid [OF assms(1-5) valid])
  have own: "\<forall>ph \<in> set (hooks reg). hook_cell (snd ph) \<noteq> ?c"
    using assms(8) by (auto simp: list_all_iff)
  have srt: "sorted ?ps" using sorted_positions [OF assms(6)] valid by blast
  have bound: "\<forall>p \<in> set ?ps. p < num_blocks ?L"
    using valid by (auto simp: num_blocks_def)
  have e1: "hooks ?reg2 = hooks reg @ map (\<lambda>p. (p, RankingHook ?c)) ?ps"
    by (simp add: comp_def)
  have cap: "captured B ?L batch ?c (hooks ?reg2) =
      map (\<lambda>p. Rotated (map (\<lambda>img. einsum_rot (running_rot B p) (x_hat B p img)) batch)) ?ps" for batch
    by (simp only: e1 captured_own [OF own] fired_sorted [OF srt bound])
  have len: "length ?ll = length ?ps" using int_list_length [OF assms(5)] by simp
  have "?ll \<noteq> []" by (rule split_on_nonempty)
  with len have ne: "?ps \<noteq> []" by auto
  have bne: "\<forall>batch \<in> set val_loader. batch \<noteq> []"
    using assms(9) by (simp add: list_all_iff)
  have shape: "\<forall>n \<in> set ns. \<forall>ip \<in> set (concat val_loader).
      (\<forall>k \<in> set ?ks. k < t_chans (x_hat B (nat (n - 1)) (fst ip))) \<and>
      t_height (x_hat B (nat (n - 1)) (fst ip)) * t_width (x_hat B (nat (n - 1)) (fst ip)) = hw n"
    using assms(11) unfolding list_all_iff by blast
  have ch: "\<forall>k \<in> set ?ks. \<forall>batch \<in> set val_loader. \<forall>ip \<in> set batch. \<forall>p \<in> set ?ps.
               k < t_chans (x_hat B p (fst ip))"
    using shape by auto
  have pos: "\<forall>n \<in> set ns. 0 < hw n" using assms(12) by (simp add: list_all_iff)
  from rank_axes_explicit [OF cap ne bne ch len assms(10), of ?folder print_other]
  have ra: "fst (rank_axes B ?L ?c ?folder print_other val_loader ?ll ?ks ?reg2) =
           (concat (map (\<lambda>k. concat (map (\<lambda>j. map (\<lambda>r.
               (snd (sort_reverse (map (\<lambda>ip.
                       (spatial_sum (einsum_rot (running_rot B (?ps ! j)) (x_hat B (?ps ! j) (fst ip))) k,
                        snd ip)) (concat val_loader)) ! r),
                copy_name ?folder print_other k (?ll ! j) r)) [0..<50]) [0..<length ?ll])) ?ks), None)" .
  have inner: "map (\<lambda>r.
               (snd (sort_reverse (map (\<lambda>ip.
                       (spatial_sum (einsum_rot (running_rot B (?ps ! j)) (x_hat B (?ps ! j) (fst ip))) k,
                        snd ip)) (concat val_loader)) ! r),
                copy_name ?folder print_other k (?ll ! j) r)) [0..<50] =
        map (\<lambda>r.
               (snd (sort_reverse (map (\<lambda>ip.
                       (spatial_mean (einsum_rot (running_rot B (nat (ns ! j - 1)))
                                        (x_hat B (nat (ns ! j - 1)) (fst ip))) k,
                        snd ip)) (concat val_loader)) ! r),
                copy_name ?folder print_other k (?ll ! j) r)) [0..<50]"
    if j: "j < length ns" for j k
  proof (rule map_cong [OF refl])
    fix r assume "r \<in> set [0..<50]"
    then have r: "r < length (concat val_loader)" using assms(10) by simp
    from j have n: "ns ! j \<in> set ns" by simp
    with pos have d: "0 < hw (ns ! j)" by blast
    from shape n have sh: "\<forall>ip \<in> set (concat val_loader).
        t_height (x_hat B (nat (ns ! j - 1)) (fst ip)) * t_width (x_hat B (nat (ns ! j - 1)) (fst ip)) =
          hw (ns ! j)"
      by blast
    from mean_ranking [OF d sh r, of k] j
    show "(snd (sort_reverse (map (\<lambda>ip.
                       (spatial_sum (einsum_rot (running_rot B (?ps ! j)) (x_hat B (?ps ! j) (fst ip))) k,
                        snd ip)) (concat val_loader)) ! r),
                copy_name ?folder print_other k (?ll ! j) r) =
          (snd (sort_reverse (map (\<lambda>ip.
                       (spatial_mean (einsum_rot (running_rot B (nat (ns ! j - 1)))
                                        (x_hat B (nat (ns ! j - 1)) (fst ip))) k,
                        snd ip)) (concat val_loader)) ! r),
                copy_name ?folder print_other k (?ll ! j) r)"
      by simp
  qed
  have layers: "map (\<lambda>j. map (\<lambda>r.
               (snd (sort_reverse (map (\<lambda>ip.
                       (spatial_sum (einsum_rot (running_rot B (?ps ! j)) (x_hat B (?ps ! j) (fst ip))) k,
                        snd ip)) (concat val_loader)) ! r),
                copy_name ?folder print_other k (?ll ! j) r)) [0..<50]) [0..<length ?ll] =
        map (\<lambda>j. map (\<lambda>r.
               (snd (sort_reverse (map (\<lambda>ip.
                       (spatial_mean (einsum_rot (running_rot B (nat (ns ! j - 1)))
                                        (x_hat B (nat (ns ! j - 1)) (fst ip))) k,
                        snd ip)) (concat val_loader)) ! r),
                copy_name ?folder print_other k (?ll ! j) r)) [0..<50]) [0..<length ns]" for k
  proof -
    have l: "length ?ll = length ns" using len by simp
    show ?thesis unfolding l by (rule map_cong [OF refl]) (use inner in simp)
  qed
  have pc: "fst (print_concept_top5 B ?L ar val_loader wl print_other reg) =
      fst (rank_axes B ?L ?c ?folder print_other val_loader ?ll ?ks ?reg2)"
    using reg by (simp add: print_concept_top5_def Let_def new_cell_def)
  have first: "fst (print_concept_top5 B ?L ar val_loader wl print_other reg) =
           (concat (map (\<lambda>k. concat (map (\<lambda>i. map (\<lambda>j.
               (snd (sort_reverse (map (\<lambda>ip.
                       (spatial_mean (einsum_rot (running_rot B (nat (ns ! i - 1)))
                                        (x_hat B (nat (ns ! i - 1)) (fst ip))) k,
                        snd ip)) (concat val_loader)) ! j),
                copy_name ?folder print_other k (?ll ! i) j)) [0..<50]) [0..<length ns])) ?ks), None)"
    unfolding pc ra layers ..
  have second: "\<forall>arr :: (real \<times> string) list.
            mset (sort_reverse arr) = mset arr \<and>
            sorted_wrt (\<lambda>a b. fst b \<le> fst a) (sort_reverse arr) \<and>
            (\<forall>v. filter (\<lambda>e. fst e = v) (sort_reverse arr) = filter (\<lambda>e. fst e = v) arr)"
    using sort_reverse_mset sort_reverse_descending sort_reverse_stable by blast
  from first second show ?thesis by (rule conjI)
qed

text \<open>
  The claim as worded fails on a validation set of fewer than fifty images: with two
  images the script copies two files and ends with an \<open>IndexError\<close>.
\<close>

theorem top50_two_images_counterexample: "fst (print_concept_top5 example_backbone (2, 2, 2, 2) ''resnet''
          [[(2, ''a.jpg''), (3, ''b.jpg'')]] ''1'' False empty_registry) =
   ([(''b.jpg'', ''/usr/xtmp/zhichen/attention-module/plot/1_rot/layer1_1.jpg''),
     (''a.jpg'', ''/usr/xtmp/zhichen/attention-module/plot/1_rot/layer1_2.jpg'')], Some IndexError)"
proof -
  have r: "register_hooks (2, 2, 2, 2) (RankingHook 0) [''1''] reg =
      (None, reg\<lparr>hooks := hooks reg @ [(0, RankingHook 0)]\<rparr>)" for reg
    by (rule register_layer_one)
  have s2: "spatial_sum (einsum_rot (running_rot example_backbone 0) (x_hat example_backbone 0 2)) 0 = 5"
    by (simp add: spatial_sum_def einsum_rot_def example_backbone_def upt_rec)
  have s3: "spatial_sum (einsum_rot (running_rot example_backbone 0) (x_hat example_backbone 0 3)) 0 = 7"
    by (simp add: spatial_sum_def einsum_rot_def example_backbone_def upt_rec)
  have ch: "t_chans (einsum_rot R (x_hat example_backbone 0 i)) = 2" for R i
    by (simp add: einsum_rot_def example_backbone_def)
  have cap: "captured example_backbone (2, 2, 2, 2) batch 0 [(0, RankingHook 0)] =
      [Rotated (map (\<lambda>img. einsum_rot (running_rot example_backbone 0) (x_hat example_backbone 0 img)) batch)]" for batch
    by (simp add: captured_def fired_layer_one)
  show ?thesis
    by (simp add: print_concept_top5_def new_cell_def empty_registry_def r Let_def
        forward_hooked_cells cap batch_val_def ch s2 s3 sort_reverse_def folder_name_def dst_def
        copy_name_def digit_char_def del: register_hooks.simps)
qed


theorem top50_export_witness:
  "int_list (split_on CHR '','' ''1,2'') = Some [1, 2] \<and>
   list_all (\<lambda>batch. batch \<noteq> []) example_val_paths \<and>
   50 \<le> length (concat example_val_paths) \<and>
   snd (fst (print_concept_top5 example_backbone (2, 2, 2, 2) ''resnet'' example_val_paths ''1,2''
               False empty_registry)) = None \<and>
   length (fst (fst (print_concept_top5 example_backbone (2, 2, 2, 2) ''resnet'' example_val_paths
                       ''1,2'' False empty_registry))) = 100"
proof -
  have h5: "int_list (split_on CHR '','' ''1,2'') = Some [1, 2]"
    by (simp add: py_int_def strip_def is_space_def digit_val_def)
  have h6: "sorted [1, 2 :: int]" by simp
  have h7: "list_all (\<lambda>n. 1 \<le> n \<and> n \<le> 2 + 2 + 2 + 2) [1, 2 :: int]" by simp
  have h8: "list_all (\<lambda>ph. hook_cell (snd ph) < fresh empty_registry) (hooks empty_registry)"
    by (simp add: empty_registry_def)
  have h9: "list_all (\<lambda>batch. batch \<noteq> []) example_val_paths"
    by (simp add: example_val_paths_def)
  have h10: "50 \<le> length (concat example_val_paths)"
    by (simp add: example_val_paths_def)
  have h11: "list_all (\<lambda>n. list_all (\<lambda>ip.
            list_all (\<lambda>k. k < t_chans (x_hat example_backbone (nat (n - 1)) (fst ip)))
              (if False then [1..<11] else [0..<1]) \<and>
            t_height (x_hat example_backbone (nat (n - 1)) (fst ip)) *
              t_width (x_hat example_backbone (nat (n - 1)) (fst ip)) = (\<lambda>n. 2) n)
          (concat example_val_paths)) [1, 2 :: int]"
    by (simp add: example_backbone_def list_all_iff)
  have h12: "list_all (\<lambda>n. 0 < (\<lambda>n. 2 :: nat) n) [1, 2 :: int]" by simp
  have z: "(0::int) \<le> 2" by simp
  note inst = top50_export [where B = example_backbone and ar = "''resnet''", OF z z z z h5 h6 h7 h8 h9 h10 h11 h12,
      THEN conjunct1]
  have a: "snd (fst (print_concept_top5 example_backbone (2, 2, 2, 2) ''resnet'' example_val_paths ''1,2''
               False empty_registry)) = None"
    unfolding inst by simp
  have b: "length (fst (fst (print_concept_top5 example_backbone (2, 2, 2, 2) ''resnet'' example_val_paths
                       ''1,2'' False empty_registry))) = 100"
    unfolding inst by (simp add: length_concat comp_def)
  from h5 h9 h10 a b show ?thesis by blast
qed

subsection \<open>What the hooks leave in the list of captures\<close>

text \<open>
  One pass of the loop of lines 491 to 503 scores the captures of its own batch and
  nothing else, and goes on as if the list had never held anything.
\<close>

lemma scan_batches_step:
  "fst (scan_batches B L c k (vb # rest) paths vals reg) =
     (case batch_val k (captured B L (map fst vb) c (hooks reg)) of
        Inl e \<Rightarrow> Inl e
      | Inr val \<Rightarrow>
          fst (scan_batches B L c k rest (paths @ map snd vb)
                 (Some (case vals of None \<Rightarrow> val | Some v \<Rightarrow> map2 (@) v val)) reg))"
proof -
  let ?r = "forward_hooked B L (map fst vb) (reg\<lparr>cells := (cells reg)(c := [])\<rparr>)"
  have cs: "cells ?r c = captured B L (map fst vb) c (hooks reg)"
    by (simp add: forward_hooked_cells)
  have "hooks ?r = hooks reg" by (simp add: forward_hooked_hooks)
  then have rec: "fst (scan_batches B L c k rest p v ?r) = fst (scan_batches B L c k rest p v reg)" for p v
    by (intro scan_batches_related) simp
  show ?thesis
    by (simp add: Let_def cs rec split: sum.splits)
qed

lemma scan_batches_stale:
  "fst (scan_batches B L c k vl paths vals (reg\<lparr>cells := (cells reg)(c := stale)\<rparr>)) =
     fst (scan_batches B L c k vl paths vals reg)"
  by (rule scan_batches_related) simp

lemma scan_batches_cells:
  assumes "vl \<noteq> []" "fst (scan_batches B L c k vl paths vals reg) = Inr r"
  shows "cells (snd (scan_batches B L c k vl paths vals reg)) c =
           captured B L (map fst (last vl)) c (hooks reg)"
  using assms
proof (induction vl arbitrary: paths vals reg)
  case Nil
  then show ?case by simp
next
  case (Cons vb vl)
  let ?r = "forward_hooked B L (map fst vb) (reg\<lparr>cells := (cells reg)(c := [])\<rparr>)"
  have cs: "cells ?r c = captured B L (map fst vb) c (hooks reg)"
    by (simp add: forward_hooked_cells)
  have hs: "hooks ?r = hooks reg" by (simp add: forward_hooked_hooks)
  show ?case
  proof (cases "batch_val k (cells ?r c)")
    case (Inl e)
    with Cons.prems(2) show ?thesis by (simp add: Let_def)
  next
    case (Inr val)
    let ?v = "Some (case vals of None \<Rightarrow> val | Some v \<Rightarrow> map2 (@) v val)"
    have eq: "scan_batches B L c k (vb # vl) paths vals reg =
        scan_batches B L c k vl (paths @ map snd vb) ?v ?r"
      by (simp add: Let_def Inr)
    show ?thesis
    proof (cases "vl = []")
      case True
      then have e2: "scan_batches B L c k vl (paths @ map snd vb) ?v ?r =
          (Inr (paths @ map snd vb, ?v), ?r)"
        by simp
      show ?thesis unfolding eq e2 using cs True by simp
    next
      case False
      from Cons.prems(2) have "fst (scan_batches B L c k vl (paths @ map snd vb) ?v ?r) = Inr r"
        by (simp only: eq)
      from Cons.IH [OF False this] False show ?thesis
        by (simp add: eq hs del: scan_batches.simps)
    qed
  qed
qed

text \<open>
  Lines 301 to 304 over captures of 128 entries: \<open>get_optimal_direction\<close> returns their
  mean, entry by entry.
\<close>

lemma add_items_means:
  assumes "length acc = 128" "\<forall>v \<in> set vs. length v = 128"
  shows "add_items acc (map Means vs) =
           Inr (map (\<lambda>j. acc ! j + sum_list (map (\<lambda>v. v ! j) vs)) [0..<128])"
  using assms
proof (induction vs arbitrary: acc)
  case Nil
  have "map (\<lambda>j. acc ! j) [0..<length acc] = acc" by (rule map_nth)
  with Nil show ?case by simp
next
  case (Cons v vs)
  from Cons.prems have lv: "length v = 128" and rest: "\<forall>v \<in> set vs. length v = 128" by simp_all
  let ?acc = "map2 (+) acc v"
  have step: "add_item acc (Means v) = Inr ?acc"
    by (simp add: add_item_def lv)
  have len: "length ?acc = 128" using Cons.prems(1) lv by simp
  have "map (\<lambda>j. ?acc ! j + sum_list (map (\<lambda>v. v ! j) vs)) [0..<128] =
        map (\<lambda>j. acc ! j + sum_list (map (\<lambda>v. v ! j) (v # vs))) [0..<128]"
    by (rule map_cong [OF refl]) (use Cons.prems(1) lv in simp)
  with Cons.IH [OF len rest] show ?case
    by (simp only: list.map add_items.simps step sum.case)
qed

lemma get_optimal_direction_mean:
  assumes out: "fst (fst (get_optimal_direction B L cl wl reg)) = map Means vs"
    and ne: "vs \<noteq> []"
    and len: "list_all (\<lambda>v. length v = 128) vs"
  shows "snd (fst (get_optimal_direction B L cl wl reg)) =
           Inr (Direction (map (\<lambda>j. sum_list (map (\<lambda>v. v ! j) vs) / real (length vs)) [0..<128]))"
proof -
  obtain e reg2 where r: "register_hooks L (DirectionHook (fresh reg)) (split_on CHR '','' wl)
      (snd (new_cell reg)) = (e, reg2)"
    by (cases "register_hooks L (DirectionHook (fresh reg)) (split_on CHR '','' wl) (snd (new_cell reg))")
  from register_hooks_cells [OF r] have empty: "cells reg2 (fresh reg) = []"
    by (simp add: new_cell_def)
  show ?thesis
  proof (cases e)
    case (Some err)
    with r have "fst (fst (get_optimal_direction B L cl wl reg)) = cells reg2 (fresh reg)"
      by (simp add: get_optimal_direction_def new_cell_def Let_def)
    with out empty ne show ?thesis by simp
  next
    case None
    let ?outputs = "cells (fold (\<lambda>X r. forward_hooked B L X r) cl reg2) (fresh reg)"
    from r None have g: "get_optimal_direction B L cl wl reg =
        ((?outputs,
          (case add_items (replicate 128 0) ?outputs of
             Inl e \<Rightarrow> Inl e
           | Inr mean \<Rightarrow>
               if ?outputs = [] then Inr NotANumber
               else Inr (Direction (map (\<lambda>m. m / real (length ?outputs)) mean)))),
         fold (\<lambda>X r. forward_hooked B L X r) cl reg2)"
      by (simp add: get_optimal_direction_def new_cell_def Let_def)
    from out have o: "?outputs = map Means vs" by (simp add: g)
    from len have l: "\<forall>v \<in> set vs. length v = 128" by (simp add: list_all_iff)
    have "map (\<lambda>j. replicate 128 0 ! j + sum_list (map (\<lambda>v. v ! j) vs)) [0..<128] =
          map (\<lambda>j. sum_list (map (\<lambda>v. v ! j) vs)) [0..<128]"
      by (rule map_cong [OF refl]) simp
    with add_items_means [OF _ l, of "replicate 128 0"]
    have a: "add_items (replicate 128 0) (map Means vs) =
        Inr (map (\<lambda>j. sum_list (map (\<lambda>v. v ! j) vs)) [0..<128])"
      by simp
    show ?thesis
      unfolding g o using ne by (simp add: a comp_def)
  qed
qed

lemma channel_means_wide:
  "channel_means [x_hat example_wide_backbone pos img] = replicate 128 (real img)"
  by (simp add: channel_means_def example_wide_backbone_def spatial_sum_def map_replicate_const)

lemma captured_direction_layer_one:
  "captured example_wide_backbone (2, 2, 2, 2) [img] 0 [(0, DirectionHook 0)] =
     [Means (replicate 128 (real img))]"
  by (simp add: captured_def fired_layer_one channel_means_wide)

lemma mean_of_two:
  "map (\<lambda>j. sum_list (map (\<lambda>v. v ! j) [replicate 128 a, replicate 128 b]) / real (length [replicate 128 a, replicate 128 (b :: real)]))
     [0..<128] = replicate 128 ((a + b) / 2)"
proof -
  have "map (\<lambda>j. sum_list (map (\<lambda>v. v ! j) [replicate 128 a, replicate 128 b]) /
                   real (length [replicate 128 a, replicate 128 b])) [0..<128] =
        map (\<lambda>j. (a + b) / 2) [0..<128]"
    by (rule map_cong [OF refl]) simp
  then show ?thesis by (simp only: map_replicate_const length_upt) simp
qed

lemma direction_two_batches:
  "fst (get_optimal_direction example_wide_backbone (2, 2, 2, 2) [[2], [3]] ''1'' empty_registry) =
     ([Means (replicate 128 2), Means (replicate 128 3)], Inr (Direction (replicate 128 (5 / 2))))"
proof -
  have "register_hooks (2, 2, 2, 2) (DirectionHook (fresh empty_registry)) (split_on CHR '','' ''1'')
          (snd (new_cell empty_registry)) =
        (None, (snd (new_cell empty_registry))\<lparr>hooks := [(0, DirectionHook 0)]\<rparr>)"
    by (simp add: register_layer_one new_cell_def empty_registry_def del: register_hooks.simps)
  from get_optimal_direction_outputs [OF this, of example_wide_backbone "[[2], [3]]"]
  have o: "fst (fst (get_optimal_direction example_wide_backbone (2, 2, 2, 2) [[2], [3]] ''1'' empty_registry)) =
      map Means [replicate 128 2, replicate 128 3]"
    by (simp add: captured_direction_layer_one empty_registry_def)
  from get_optimal_direction_mean [OF o]
  have "snd (fst (get_optimal_direction example_wide_backbone (2, 2, 2, 2) [[2], [3]] ''1'' empty_registry)) =
      Inr (Direction (replicate 128 (5 / 2)))"
    by (simp only: mean_of_two) simp
  with o show ?thesis by (simp add: prod_eq_iff)
qed

lemma score_example_image:
  "batch_val 0 (captured example_backbone (2, 2, 2, 2) [img] 0 [(0, RankingHook 0)]) =
     Inr [[real (2 * img + 1)]]"
proof -
  have s: "spatial_sum (einsum_rot (running_rot example_backbone 0) (x_hat example_backbone 0 img)) 0 =
      real (2 * img + 1)"
    by (simp add: spatial_sum_def einsum_rot_def example_backbone_def upt_rec)
  have ch: "t_chans (einsum_rot R (x_hat example_backbone 0 i)) = 2" for R i
    by (simp add: einsum_rot_def example_backbone_def)
  show ?thesis
    by (simp add: captured_def fired_layer_one batch_val_def ch s)
qed

text \<open>
  When \<open>print_concept_top5\<close> returns, its list \<open>outputs\<close> holds the captures of the last
  batch of the validation loader.
\<close>

lemma rank_axes_cells:
  assumes "ks \<noteq> []" "vl \<noteq> []" "snd (fst (rank_axes B L c folder po vl ll ks reg)) = None"
  shows "cells (snd (rank_axes B L c folder po vl ll ks reg)) c =
           captured B L (map fst (last vl)) c (hooks reg)"
  using assms(1,3)
proof (induction ks arbitrary: reg)
  case Nil
  then show ?case by simp
next
  case (Cons k ks)
  obtain r1 reg1 where s: "scan_batches B L c k vl [] None reg = (r1, reg1)"
    by (cases "scan_batches B L c k vl [] None reg")
  from scan_batches_hooks [of B L c k vl "[]" None reg] s have h: "hooks reg1 = hooks reg" by simp
  show ?case
  proof (cases r1)
    case (Inl e)
    with Cons.prems(2) s show ?thesis by simp
  next
    case (Inr pv)
    obtain ps vs where pv: "pv = (ps, vs)" by (cases pv)
    obtain cs e where ex: "export_layers folder po k vs ps 0 ll = (cs, e)"
      by (cases "export_layers folder po k vs ps 0 ll")
    from s Inr have "fst (scan_batches B L c k vl [] None reg) = Inr pv" by simp
    from scan_batches_cells [OF assms(2) this] s
    have c1: "cells reg1 c = captured B L (map fst (last vl)) c (hooks reg)" by simp
    show ?thesis
    proof (cases e)
      case (Some err)
      with Cons.prems(2) s Inr pv ex show ?thesis by simp
    next
      case None
      obtain cs1 e1 reg2 where ra: "rank_axes B L c folder po vl ll ks reg1 = ((cs1, e1), reg2)"
        by (cases "rank_axes B L c folder po vl ll ks reg1") auto
      have eq: "rank_axes B L c folder po vl ll (k # ks) reg = ((cs @ cs1, e1), reg2)"
        by (simp add: s Inr pv ex None ra)
      show ?thesis
      proof (cases "ks = []")
        case True
        with ra have "reg2 = reg1" by simp
        with eq c1 show ?thesis by (simp del: rank_axes.simps)
      next
        case False
        from Cons.prems(2) eq have "e1 = None" by (simp del: rank_axes.simps)
        with ra have "snd (fst (rank_axes B L c folder po vl ll ks reg1)) = None" by simp
        from Cons.IH [OF False this] ra eq h show ?thesis by (simp del: rank_axes.simps)
      qed
    qed
  qed
qed

lemma print_concept_top5_cells:
  assumes "vl \<noteq> []" "snd (fst (print_concept_top5 B L ar vl wl po reg)) = None"
  shows "cells (snd (print_concept_top5 B L ar vl wl po reg)) (fresh reg) =
           captured B L (map fst (last vl)) (fresh reg)
             (hooks (snd (print_concept_top5 B L ar vl wl po reg)))"
proof -
  obtain e reg2 where r: "register_hooks L (RankingHook (fresh reg)) (split_on CHR '','' wl)
      (snd (new_cell reg)) = (e, reg2)"
    by (cases "register_hooks L (RankingHook (fresh reg)) (split_on CHR '','' wl) (snd (new_cell reg))")
  let ?ks = "if po then [1..<11] else [0..<1]"
  let ?folder = "folder_name ar (split_on CHR '','' wl) po"
  show ?thesis
  proof (cases e)
    case (Some err)
    with r assms(2) show ?thesis by (simp add: print_concept_top5_def Let_def new_cell_def)
  next
    case None
    with r have pc: "print_concept_top5 B L ar vl wl po reg =
        rank_axes B L (fresh reg) ?folder po vl (split_on CHR '','' wl) ?ks reg2"
      by (simp add: print_concept_top5_def Let_def new_cell_def)
    have ks: "?ks \<noteq> []" by simp
    from assms(2) have "snd (fst (rank_axes B L (fresh reg) ?folder po vl (split_on CHR '','' wl) ?ks reg2)) = None"
      by (simp only: pc)
    from rank_axes_cells [OF ks assms(1) this]
      rank_axes_hooks [of B L "fresh reg" ?folder po vl "split_on CHR '','' wl" ?ks reg2]
    show ?thesis by (simp only: pc)
  qed
qed

text \<open>A run of \<open>print_concept_top5\<close> that returns: the conditions, and the example.\<close>

lemma print_concept_top5_returns:
  fixes B :: "('i, 'r) backbone"
  assumes "0 \<le> l0" "0 \<le> l1" "0 \<le> l2" "0 \<le> l3"
    and "int_list (split_on CHR '','' wl) = Some ns"
    and "sorted ns"
    and "\<forall>n \<in> set ns. 1 \<le> n \<and> n \<le> l0 + l1 + l2 + l3"
    and "\<forall>ph \<in> set (hooks reg). hook_cell (snd ph) < fresh reg"
    and "\<forall>batch \<in> set vl. batch \<noteq> []"
    and "50 \<le> length (concat vl)"
    and "\<forall>k \<in> set (if po then [1..<11] else [0..<1]). \<forall>batch \<in> set vl. \<forall>ip \<in> set batch.
           \<forall>n \<in> set ns. k < t_chans (x_hat B (nat (n - 1)) (fst ip))"
  shows "snd (fst (print_concept_top5 B (l0, l1, l2, l3) ar vl wl po reg)) = None"
proof -
  let ?L = "(l0, l1, l2, l3)"
  let ?ll = "split_on CHR '','' wl"
  let ?c = "fresh reg"
  let ?ps = "map (\<lambda>n. nat (n - 1)) ns"
  let ?ks = "if po then [1..<11] else [0..<1]"
  let ?folder = "folder_name ar ?ll po"
  let ?reg1 = "reg\<lparr>cells := (cells reg)(fresh reg := []), fresh := Suc (fresh reg)\<rparr>"
  let ?reg2 = "?reg1\<lparr>hooks := hooks ?reg1 @ map (\<lambda>n. (nat (n - 1), RankingHook ?c)) ns\<rparr>"
  have reg: "register_hooks ?L (RankingHook ?c) ?ll ?reg1 = (None, ?reg2)"
    by (rule register_hooks_valid [OF assms(1-5) assms(7)])
  have own: "\<forall>ph \<in> set (hooks reg). hook_cell (snd ph) \<noteq> ?c"
    using assms(8) by auto
  have srt: "sorted ?ps" using sorted_positions [OF assms(6)] assms(7) by blast
  have bound: "\<forall>p \<in> set ?ps. p < num_blocks ?L"
    using assms(7) by (auto simp: num_blocks_def)
  have e1: "hooks ?reg2 = hooks reg @ map (\<lambda>p. (p, RankingHook ?c)) ?ps"
    by (simp add: comp_def)
  have cap: "captured B ?L batch ?c (hooks ?reg2) =
      map (\<lambda>p. Rotated (map (\<lambda>img. einsum_rot (running_rot B p) (x_hat B p img)) batch)) ?ps" for batch
    by (simp only: e1 captured_own [OF own] fired_sorted [OF srt bound])
  have len: "length ?ll = length ?ps" using int_list_length [OF assms(5)] by simp
  have "?ll \<noteq> []" by (rule split_on_nonempty)
  with len have ne: "?ps \<noteq> []" by auto
  have ch: "\<forall>k \<in> set ?ks. \<forall>batch \<in> set vl. \<forall>ip \<in> set batch. \<forall>p \<in> set ?ps.
               k < t_chans (x_hat B p (fst ip))"
    using assms(11) by auto
  from rank_axes_explicit [OF cap ne assms(9) ch len assms(10), of ?folder po]
  have ra: "snd (fst (rank_axes B ?L ?c ?folder po vl ?ll ?ks ?reg2)) = None"
    by simp
  have pc: "fst (print_concept_top5 B ?L ar vl wl po reg) =
      fst (rank_axes B ?L ?c ?folder po vl ?ll ?ks ?reg2)"
    using reg by (simp add: print_concept_top5_def Let_def new_cell_def)
  show ?thesis unfolding pc by (rule ra)
qed

lemma example_ranking_returns:
  "snd (fst (print_concept_top5 example_backbone (2, 2, 2, 2) ''resnet'' example_val_paths ''1,2''
               False empty_registry)) = None"
proof -
  have h5: "int_list (split_on CHR '','' ''1,2'') = Some [1, 2]"
    by (simp add: py_int_def strip_def is_space_def digit_val_def)
  have z: "(0::int) \<le> 2" by simp
  show ?thesis
    by (rule print_concept_top5_returns [OF z z z z h5])
      (simp_all add: empty_registry_def example_val_paths_def example_backbone_def)
qed

lemma example_ranking_hooks:
  "hooks (snd (print_concept_top5 example_backbone (2, 2, 2, 2) ''resnet'' example_val_paths ''1,2''
               False empty_registry)) = [(0, RankingHook 0), (1, RankingHook 0)]"
proof -
  have h5: "int_list (split_on CHR '','' ''1,2'') = Some [1, 2]"
    by (simp add: py_int_def strip_def is_space_def digit_val_def)
  have z: "(0::int) \<le> 2" by simp
  have v: "\<forall>n \<in> set [1, 2 :: int]. 1 \<le> n \<and> n \<le> 2 + 2 + 2 + 2" by simp
  let ?reg1 = "snd (new_cell empty_registry)"
  from register_hooks_valid [OF z z z z h5 v, of "RankingHook 0" ?reg1]
  have r: "register_hooks (2, 2, 2, 2) (RankingHook 0) (split_on CHR '','' ''1,2'') ?reg1 =
      (None, ?reg1\<lparr>hooks := hooks ?reg1 @ map (\<lambda>n. (nat (n - 1), RankingHook 0)) [1, 2]\<rparr>)" .
  have "print_concept_top5 example_backbone (2, 2, 2, 2) ''resnet'' example_val_paths ''1,2'' False
          empty_registry =
        rank_axes example_backbone (2, 2, 2, 2) 0
          (folder_name ''resnet'' (split_on CHR '','' ''1,2'') False) False example_val_paths
          (split_on CHR '','' ''1,2'') [0..<1]
          (?reg1\<lparr>hooks := hooks ?reg1 @ map (\<lambda>n. (nat (n - 1), RankingHook 0)) [1, 2]\<rparr>)"
    using r by (simp add: print_concept_top5_def Let_def new_cell_def empty_registry_def
        del: register_hooks.simps rank_axes.simps split_on.simps)
  then show ?thesis
    by (simp only: rank_axes_hooks) (simp add: new_cell_def empty_registry_def)
qed

text \<open>
  C8, as the script has it. No hook of the script hands a value back, so a hooked module
  returns what it computed. In the loop of \<open>print_concept_top5\<close> (lines 491 to 503) the
  list of captures is rebound to the empty list before every forward pass: the scores
  of a batch are those of the captures of that batch, one for every hook writing to the
  list; the result of the loop is the same whatever the list held before; and when the
  loop ends, and when \<open>print_concept_top5\<close> returns, the list holds the captures of the
  last batch alone. In \<open>get_optimal_direction\<close> the list is never cleared: after the loop
  it holds the captures of every batch of the concept loader, and when these are
  vectors of 128 entries the function returns their mean, entry by entry, over all
  batches and hooks.
\<close>

theorem hooks_observe_and_clear:
  "snd (call_module B pos batch reg) = bn1_out B pos batch \<and>
   fst (scan_batches B L c k (vb # rest) paths vals reg) =
     (case batch_val k (captured B L (map fst vb) c (hooks reg)) of
        Inl e \<Rightarrow> Inl e
      | Inr val \<Rightarrow>
          fst (scan_batches B L c k rest (paths @ map snd vb)
                 (Some (case vals of None \<Rightarrow> val | Some v \<Rightarrow> map2 (@) v val)) reg)) \<and>
   (\<forall>stale. fst (scan_batches B L c k val_loader paths vals (reg\<lparr>cells := (cells reg)(c := stale)\<rparr>)) =
             fst (scan_batches B L c k val_loader paths vals reg)) \<and>
   (\<forall>r. val_loader \<noteq> [] \<and> fst (scan_batches B L c k val_loader paths vals reg) = Inr r \<longrightarrow>
      cells (snd (scan_batches B L c k val_loader paths vals reg)) c =
        captured B L (map fst (last val_loader)) c (hooks reg)) \<and>
   (val_loader \<noteq> [] \<and> snd (fst (print_concept_top5 B L ar val_loader wl print_other reg)) = None \<longrightarrow>
      cells (snd (print_concept_top5 B L ar val_loader wl print_other reg)) (fresh reg) =
        captured B L (map fst (last val_loader)) (fresh reg)
          (hooks (snd (print_concept_top5 B L ar val_loader wl print_other reg)))) \<and>
   (\<forall>reg2. register_hooks L (DirectionHook (fresh reg)) (split_on CHR '','' wl)
             (snd (new_cell reg)) = (None, reg2) \<longrightarrow>
      fst (fst (get_optimal_direction B L concept_loader wl reg)) =
        concat (map (\<lambda>X. captured B L X (fresh reg) (hooks reg2)) concept_loader)) \<and>
   (\<forall>vs. fst (fst (get_optimal_direction B L concept_loader wl reg)) = map Means vs \<and>
         vs \<noteq> [] \<and> list_all (\<lambda>v. length v = 128) vs \<longrightarrow>
      snd (fst (get_optimal_direction B L concept_loader wl reg)) =
        Inr (Direction (map (\<lambda>j. sum_list (map (\<lambda>v. v ! j) vs) / real (length vs)) [0..<128])))"
proof -
  have a: "snd (call_module B pos batch reg) = bn1_out B pos batch"
    by (rule call_module_result)
  have b: "fst (scan_batches B L c k (vb # rest) paths vals reg) =
     (case batch_val k (captured B L (map fst vb) c (hooks reg)) of
        Inl e \<Rightarrow> Inl e
      | Inr val \<Rightarrow>
          fst (scan_batches B L c k rest (paths @ map snd vb)
                 (Some (case vals of None \<Rightarrow> val | Some v \<Rightarrow> map2 (@) v val)) reg))"
    by (rule scan_batches_step)
  have c: "\<forall>stale. fst (scan_batches B L c k val_loader paths vals (reg\<lparr>cells := (cells reg)(c := stale)\<rparr>)) =
             fst (scan_batches B L c k val_loader paths vals reg)"
    using scan_batches_stale by blast
  have d: "\<forall>r. val_loader \<noteq> [] \<and> fst (scan_batches B L c k val_loader paths vals reg) = Inr r \<longrightarrow>
      cells (snd (scan_batches B L c k val_loader paths vals reg)) c =
        captured B L (map fst (last val_loader)) c (hooks reg)"
    using scan_batches_cells by blast
  have g: "val_loader \<noteq> [] \<and> snd (fst (print_concept_top5 B L ar val_loader wl print_other reg)) = None \<longrightarrow>
      cells (snd (print_concept_top5 B L ar val_loader wl print_other reg)) (fresh reg) =
        captured B L (map fst (last val_loader)) (fresh reg)
          (hooks (snd (print_concept_top5 B L ar val_loader wl print_other reg)))"
    using print_concept_top5_cells by blast
  have e: "\<forall>reg2. register_hooks L (DirectionHook (fresh reg)) (split_on CHR '','' wl)
             (snd (new_cell reg)) = (None, reg2) \<longrightarrow>
      fst (fst (get_optimal_direction B L concept_loader wl reg)) =
        concat (map (\<lambda>X. captured B L X (fresh reg) (hooks reg2)) concept_loader)"
    using get_optimal_direction_outputs by blast
  have f: "\<forall>vs. fst (fst (get_optimal_direction B L concept_loader wl reg)) = map Means vs \<and>
         vs \<noteq> [] \<and> list_all (\<lambda>v. length v = 128) vs \<longrightarrow>
      snd (fst (get_optimal_direction B L concept_loader wl reg)) =
        Inr (Direction (map (\<lambda>j. sum_list (map (\<lambda>v. v ! j) vs) / real (length vs)) [0..<128]))"
    using get_optimal_direction_mean by blast
  from a b c d g e f show ?thesis by blast
qed

theorem hooks_observe_and_clear_witness:
  "snd (call_module example_backbone 0 [4] empty_registry) = 0 \<and>
   fst (scan_batches example_backbone (2, 2, 2, 2) 0 0 [[(2, ''a.jpg'')], [(3, ''b.jpg'')]] [] None
          \<lparr>hooks = [(0, RankingHook 0)], cells = (\<lambda>c. [Rotated [x_hat example_backbone 0 9]]),
           fresh = 1\<rparr>) =
     Inr ([''a.jpg'', ''b.jpg''], Some [[5, 7]]) \<and>
   cells (snd (scan_batches example_backbone (2, 2, 2, 2) 0 0 [[(2, ''a.jpg'')], [(3, ''b.jpg'')]] []
                 None
                 \<lparr>hooks = [(0, RankingHook 0)], cells = (\<lambda>c. [Rotated [x_hat example_backbone 0 9]]),
                  fresh = 1\<rparr>)) 0 =
     [Rotated [einsum_rot (running_rot example_backbone 0) (x_hat example_backbone 0 3)]] \<and>
   snd (fst (print_concept_top5 example_backbone (2, 2, 2, 2) ''resnet'' example_val_paths ''1,2''
               False empty_registry)) = None \<and>
   cells (snd (print_concept_top5 example_backbone (2, 2, 2, 2) ''resnet'' example_val_paths ''1,2''
                 False empty_registry)) 0 =
     captured example_backbone (2, 2, 2, 2) (map fst (last example_val_paths)) 0
       [(0, RankingHook 0), (1, RankingHook 0)] \<and>
   length (cells (snd (print_concept_top5 example_backbone (2, 2, 2, 2) ''resnet'' example_val_paths
                         ''1,2'' False empty_registry)) 0) = 2 \<and>
   register_hooks (2, 2, 2, 2) (DirectionHook (fresh empty_registry)) (split_on CHR '','' ''1'')
     (snd (new_cell empty_registry)) =
     (None, (snd (new_cell empty_registry))\<lparr>hooks := [(0, DirectionHook 0)]\<rparr>) \<and>
   fst (fst (get_optimal_direction example_wide_backbone (2, 2, 2, 2) [[2], [3]] ''1'' empty_registry)) =
     map Means [replicate 128 2, replicate 128 3] \<and>
   list_all (\<lambda>v. length v = 128) [replicate 128 2, replicate 128 (3 :: real)] \<and>
   snd (fst (get_optimal_direction example_wide_backbone (2, 2, 2, 2) [[2], [3]] ''1'' empty_registry)) =
     Inr (Direction (replicate 128 (5 / 2)))"
proof -
  let ?reg = "\<lparr>hooks = [(0, RankingHook 0)], cells = (\<lambda>c. [Rotated [x_hat example_backbone 0 9]]),
               fresh = 1\<rparr>"
  let ?vl = "[[(2 :: nat, ''a.jpg'')], [(3, ''b.jpg'')]]"
  let ?run = "print_concept_top5 example_backbone (2, 2, 2, 2) ''resnet'' example_val_paths ''1,2''
                False empty_registry"
  note first = hooks_observe_and_clear [where B = example_backbone and L = "(2, 2, 2, 2)"
      and reg = empty_registry and pos = 0 and batch = "[4]", THEN conjunct1]
  have m: "snd (call_module example_backbone 0 [4] empty_registry) = 0"
    using first by (simp add: example_backbone_def)
  note step1 = hooks_observe_and_clear [where B = example_backbone and L = "(2, 2, 2, 2)"
      and c = 0 and k = 0 and vb = "[(2, ''a.jpg'')]" and rest = "[[(3, ''b.jpg'')]]"
      and paths = "[]" and vals = None and reg = ?reg, THEN conjunct2, THEN conjunct1]
  note step2 = hooks_observe_and_clear [where B = example_backbone and L = "(2, 2, 2, 2)"
      and c = 0 and k = 0 and vb = "[(3, ''b.jpg'')]" and rest = "[]"
      and paths = "[''a.jpg'']" and vals = "Some [[5]]" and reg = ?reg, THEN conjunct2, THEN conjunct1]
  have x2: "fst (scan_batches example_backbone (2, 2, 2, 2) 0 0 [[(3, ''b.jpg'')]] [''a.jpg'']
                   (Some [[5]]) ?reg) = Inr ([''a.jpg'', ''b.jpg''], Some [[5, 7]])"
    unfolding step2 by (simp add: score_example_image)
  have x1: "fst (scan_batches example_backbone (2, 2, 2, 2) 0 0 ?vl [] None ?reg) =
      fst (scan_batches example_backbone (2, 2, 2, 2) 0 0 [[(3, ''b.jpg'')]] [''a.jpg'']
             (Some [[5]]) ?reg)"
    unfolding step1 by (simp add: score_example_image del: scan_batches.simps)
  have s: "fst (scan_batches example_backbone (2, 2, 2, 2) 0 0 ?vl [] None ?reg) =
      Inr ([''a.jpg'', ''b.jpg''], Some [[5, 7]])"
    unfolding x1 by (rule x2)
  note after = hooks_observe_and_clear [where B = example_backbone and L = "(2, 2, 2, 2)"
      and c = 0 and k = 0 and val_loader = ?vl and paths = "[]" and vals = None and reg = ?reg,
      THEN conjunct2, THEN conjunct2, THEN conjunct2, THEN conjunct1, THEN spec, THEN mp]
  have "?vl \<noteq> [] \<and> fst (scan_batches example_backbone (2, 2, 2, 2) 0 0 ?vl [] None ?reg) =
      Inr ([''a.jpg'', ''b.jpg''], Some [[5, 7]])"
    using s by blast
  from after [OF this]
  have cl: "cells (snd (scan_batches example_backbone (2, 2, 2, 2) 0 0 ?vl [] None ?reg)) 0 =
      [Rotated [einsum_rot (running_rot example_backbone 0) (x_hat example_backbone 0 3)]]"
    by (simp add: captured_def fired_layer_one del: scan_batches.simps)
  note whole = hooks_observe_and_clear [where B = example_backbone and L = "(2, 2, 2, 2)"
      and ar = "''resnet''" and val_loader = example_val_paths and wl = "''1,2''"
      and print_other = False and reg = empty_registry,
      THEN conjunct2, THEN conjunct2, THEN conjunct2, THEN conjunct2, THEN conjunct1, THEN mp]
  have ok: "snd (fst ?run) = None" by (rule example_ranking_returns)
  have "example_val_paths \<noteq> [] \<and> snd (fst ?run) = None"
    using ok by (simp add: example_val_paths_def)
  from whole [OF this]
  have pc: "cells (snd ?run) 0 =
      captured example_backbone (2, 2, 2, 2) (map fst (last example_val_paths)) 0
        [(0, RankingHook 0), (1, RankingHook 0)]"
    by (simp only: example_ranking_hooks) (simp add: empty_registry_def)
  have two: "length (cells (snd ?run) 0) = 2"
    unfolding pc by (simp add: captured_def fired_def num_blocks_def upt_rec)
  have r: "register_hooks (2, 2, 2, 2) (DirectionHook (fresh empty_registry)) (split_on CHR '','' ''1'')
          (snd (new_cell empty_registry)) =
        (None, (snd (new_cell empty_registry))\<lparr>hooks := [(0, DirectionHook 0)]\<rparr>)"
    by (simp add: register_layer_one new_cell_def empty_registry_def del: register_hooks.simps)
  note dir = hooks_observe_and_clear [where B = example_wide_backbone and L = "(2, 2, 2, 2)"
      and wl = "''1''" and reg = empty_registry and concept_loader = "[[2], [3]]",
      THEN conjunct2, THEN conjunct2, THEN conjunct2, THEN conjunct2, THEN conjunct2]
  from dir [THEN conjunct1, THEN spec, THEN mp, OF r]
  have o: "fst (fst (get_optimal_direction example_wide_backbone (2, 2, 2, 2) [[2], [3]] ''1'' empty_registry)) =
      map Means [replicate 128 2, replicate 128 3]"
    by (simp add: captured_direction_layer_one empty_registry_def)
  have l: "list_all (\<lambda>v. length v = 128) [replicate 128 2, replicate 128 (3 :: real)]"
    by simp
  have "fst (fst (get_optimal_direction example_wide_backbone (2, 2, 2, 2) [[2], [3]] ''1'' empty_registry)) =
      map Means [replicate 128 2, replicate 128 3] \<and>
      [replicate 128 2, replicate 128 (3 :: real)] \<noteq> [] \<and>
      list_all (\<lambda>v. length v = 128) [replicate 128 2, replicate 128 (3 :: real)]"
    using o l by blast
  from dir [THEN conjunct2, THEN spec, THEN mp, OF this]
  have d: "snd (fst (get_optimal_direction example_wide_backbone (2, 2, 2, 2) [[2], [3]] ''1'' empty_registry)) =
      Inr (Direction (replicate 128 (5 / 2)))"
    by (simp only: mean_of_two) simp
  from m s cl ok pc two r o l d show ?thesis by blast
qed

text \<open>
  The claim as worded fails for \<open>get_optimal_direction\<close>: after the forward pass of the
  second batch its list still holds the capture of the first, and the value returned is
  the mean of the two.
\<close>

theorem captures_accumulate_counterexample:
  "fst (get_optimal_direction example_wide_backbone (2, 2, 2, 2) [[2], [3]] ''1'' empty_registry) =
     ([Means (replicate 128 2), Means (replicate 128 3)], Inr (Direction (replicate 128 (5 / 2))))"
  by (rule direction_two_batches)

end
